(* ===== verification/Prelude.thy ===== *)
theory Prelude
  imports Main "HOL-Library.Signed_Division"
begin

text \<open>
  Shared vocabulary of the development: the ways a C++ operation of the program can go
  wrong, the state-and-error computations the components are written in, the conversions
  between \<open>size_t\<close>, \<open>int\<close> and mathematical integers, and the named collections the
  component theories feed.

  Nothing here models a particular line of the program; every later theory imports it.
\<close>

section \<open>Failures\<close>

text \<open>
  An operation fails with a C++ exception that the program never catches, or it runs into
  undefined behaviour. Both are values, so a theorem can say that a call fails and that
  another cannot.
\<close>

datatype ub =
    Null_pointer
  | Uninit_pointer
  | Dangling_pointer
  | Buffer_overflow
  | Front_of_empty_queue
  | Null_char_to_stream
  | Signed_overflow

datatype error =
    Out_of_range
  | Bad_alloc
  | Json_error
  | Thread_terminate
  | Process_exit
  | Blocked
  | UB ub
  | Out_of_fuel

section \<open>Pointers\<close>

text \<open>
  A raw pointer that was never set, is null, points to a live object, or to a freed one.
\<close>

datatype 'a ptr = Uninit | Null | Live 'a | Freed

definition ptr_of :: "'a option \<Rightarrow> 'a ptr" where
  "ptr_of x = (case x of None \<Rightarrow> Null | Some a \<Rightarrow> Live a)"

text \<open>\<open>if (p) free(p)\<close>\<close>

definition free_if_set :: "'a ptr \<Rightarrow> error + 'a ptr" where
  "free_if_set p =
     (case p of
        Uninit \<Rightarrow> Inl (UB Uninit_pointer)
      | Null \<Rightarrow> Inr Null
      | Live a \<Rightarrow> Inr Freed
      | Freed \<Rightarrow> Inl (UB Dangling_pointer))"

definition the_ptr :: "'a ptr \<Rightarrow> error + 'a" where
  "the_ptr p =
     (case p of
        Uninit \<Rightarrow> Inl (UB Uninit_pointer)
      | Null \<Rightarrow> Inl (UB Null_pointer)
      | Live a \<Rightarrow> Inr a
      | Freed \<Rightarrow> Inl (UB Dangling_pointer))"

section \<open>State and error computations\<close>

text \<open>
  A computation over a state \<open>'s\<close> returns an error or a value, and the state it leaves
  behind in both cases: what was sent or stored before an exception stays sent or stored.
\<close>

type_synonym ('s, 'a) prog = "'s \<Rightarrow> (error + 'a) \<times> 's"

definition ret :: "'a \<Rightarrow> ('s, 'a) prog" where
  "ret a = (\<lambda>s. (Inr a, s))"

definition raise :: "error \<Rightarrow> ('s, 'a) prog" where
  "raise e = (\<lambda>s. (Inl e, s))"

definition andThen :: "('s, 'a) prog \<Rightarrow> ('a \<Rightarrow> ('s, 'b) prog) \<Rightarrow> ('s, 'b) prog" where
  "andThen m f = (\<lambda>s. case m s of (Inl e, s') \<Rightarrow> (Inl e, s') | (Inr a, s') \<Rightarrow> f a s')"

definition of_result :: "error + 'a \<Rightarrow> ('s, 'a) prog" where
  "of_result r = (\<lambda>s. (r, s))"

definition of_option :: "error \<Rightarrow> 'a option \<Rightarrow> ('s, 'a) prog" where
  "of_option e x = (\<lambda>s. (case x of None \<Rightarrow> Inl e | Some a \<Rightarrow> Inr a, s))"

definition modify :: "('s \<Rightarrow> 's) \<Rightarrow> ('s, unit) prog" where
  "modify f = (\<lambda>s. (Inr (), f s))"

definition query :: "('s \<Rightarrow> 'a) \<Rightarrow> ('s, 'a) prog" where
  "query f = (\<lambda>s. (Inr (f s), s))"

text \<open>Running a computation of a part of the state inside the whole state.\<close>

definition zoom :: "('s \<Rightarrow> 't) \<Rightarrow> ('t \<Rightarrow> 's \<Rightarrow> 's) \<Rightarrow> ('t, 'a) prog \<Rightarrow> ('s, 'a) prog" where
  "zoom get put m = (\<lambda>s. case m (get s) of (r, t) \<Rightarrow> (r, put t s))"

named_theorems prog_simps "evaluation of state and error computations"

lemma ret_apply [prog_simps]: "ret a s = (Inr a, s)"
  by (simp add: ret_def)

lemma raise_apply [prog_simps]: "raise e s = (Inl e, s)"
  by (simp add: raise_def)

lemma andThen_apply [prog_simps]:
  "andThen m f s = (case m s of (Inl e, s') \<Rightarrow> (Inl e, s') | (Inr a, s') \<Rightarrow> f a s')"
  by (simp add: andThen_def)

lemma of_result_apply [prog_simps]: "of_result r s = (r, s)"
  by (simp add: of_result_def)

lemma of_option_apply [prog_simps]:
  "of_option e x s = (case x of None \<Rightarrow> Inl e | Some a \<Rightarrow> Inr a, s)"
  by (simp add: of_option_def)

lemma modify_apply [prog_simps]: "modify f s = (Inr (), f s)"
  by (simp add: modify_def)

lemma query_apply [prog_simps]: "query f s = (Inr (f s), s)"
  by (simp add: query_def)

lemma zoom_apply [prog_simps]:
  "zoom get put m s = (case m (get s) of (r, t) \<Rightarrow> (r, put t s))"
  by (simp add: zoom_def)

lemma andThen_InrD:
  "andThen m f s = (Inr b, s'') \<Longrightarrow> \<exists>a s'. m s = (Inr a, s') \<and> f a s' = (Inr b, s'')"
  by (auto simp: andThen_def split: prod.splits sum.splits)

lemma andThen_assoc: "andThen (andThen m f) g = andThen m (\<lambda>x. andThen (f x) g)"
  by (rule ext) (simp add: andThen_def split: prod.split sum.split)

text \<open>
  A predicate on states kept by a computation, whether it returns or fails. Each operation
  gets one such lemma per invariant; the rules below put them together.
\<close>

definition keeps :: "('s \<Rightarrow> bool) \<Rightarrow> ('s, 'a) prog \<Rightarrow> bool" where
  "keeps P m \<longleftrightarrow> (\<forall>s. P s \<longrightarrow> P (snd (m s)))"

named_theorems keeps_intros "computations that keep a state predicate"

lemma keepsI: "(\<And>s. P s \<Longrightarrow> P (snd (m s))) \<Longrightarrow> keeps P m"
  by (simp add: keeps_def)

lemma keepsD: "keeps P m \<Longrightarrow> P s \<Longrightarrow> P (snd (m s))"
  by (simp add: keeps_def)

lemma keeps_ret [keeps_intros]: "keeps P (ret a)"
  by (simp add: keeps_def ret_def)

lemma keeps_raise [keeps_intros]: "keeps P (raise e)"
  by (simp add: keeps_def raise_def)

lemma keeps_of_result [keeps_intros]: "keeps P (of_result r)"
  by (simp add: keeps_def of_result_def)

lemma keeps_of_option [keeps_intros]: "keeps P (of_option e x)"
  by (simp add: keeps_def of_option_def)

lemma keeps_query [keeps_intros]: "keeps P (query f)"
  by (simp add: keeps_def query_def)

lemma keeps_modify: "(\<And>s. P s \<Longrightarrow> P (f s)) \<Longrightarrow> keeps P (modify f)"
  by (simp add: keeps_def modify_def)

lemma keeps_andThen [keeps_intros]:
  "keeps P m \<Longrightarrow> (\<And>a. keeps P (f a)) \<Longrightarrow> keeps P (andThen m f)"
  by (fastforce simp: keeps_def andThen_def split: prod.splits sum.splits)

lemma keeps_if [keeps_intros]: "keeps P m \<Longrightarrow> keeps P n \<Longrightarrow> keeps P (if b then m else n)"
  by simp

text \<open>
  A computation that does not run out of fuel: everything but the two loops with a fuel
  argument.
\<close>

definition fuel_free :: "('s, 'a) prog \<Rightarrow> bool" where
  "fuel_free m \<longleftrightarrow> (\<forall>s. fst (m s) \<noteq> Inl Out_of_fuel)"

named_theorems fuel_free_intros "computations that do not run out of fuel"

lemma fuel_freeD: "fuel_free m \<Longrightarrow> fst (m s) \<noteq> Inl Out_of_fuel"
  by (simp add: fuel_free_def)

lemma fuel_free_ret [fuel_free_intros]: "fuel_free (ret a)"
  by (simp add: fuel_free_def ret_def)

lemma fuel_free_raise [fuel_free_intros]: "e \<noteq> Out_of_fuel \<Longrightarrow> fuel_free (raise e)"
  by (simp add: fuel_free_def raise_def)

lemma fuel_free_of_option [fuel_free_intros]: "e \<noteq> Out_of_fuel \<Longrightarrow> fuel_free (of_option e x)"
  by (simp add: fuel_free_def of_option_def split: option.split)

lemma fuel_free_of_result: "r \<noteq> Inl Out_of_fuel \<Longrightarrow> fuel_free (of_result r)"
  by (simp add: fuel_free_def of_result_def)

lemma fuel_free_modify [fuel_free_intros]: "fuel_free (modify f)"
  by (simp add: fuel_free_def modify_def)

lemma fuel_free_query [fuel_free_intros]: "fuel_free (query f)"
  by (simp add: fuel_free_def query_def)

lemma fuel_free_andThen [fuel_free_intros]:
  assumes "fuel_free m" and "\<And>a. fuel_free (f a)"
  shows "fuel_free (andThen m f)"
  unfolding fuel_free_def
proof
  fix s
  obtain r s' where ms: "m s = (r, s')" by (cases "m s") auto
  then show "fst (andThen m f s) \<noteq> Inl Out_of_fuel"
    using fuel_freeD [OF assms(1), of s] fuel_freeD [OF assms(2)]
    by (cases r) (auto simp: andThen_def)
qed

lemma fuel_free_if [fuel_free_intros]:
  "(b \<Longrightarrow> fuel_free m) \<Longrightarrow> (\<not> b \<Longrightarrow> fuel_free n) \<Longrightarrow> fuel_free (if b then m else n)"
  by simp

lemma fuel_free_option [fuel_free_intros]:
  "fuel_free m \<Longrightarrow> (\<And>a. fuel_free (f a)) \<Longrightarrow> fuel_free (case x of None \<Rightarrow> m | Some a \<Rightarrow> f a)"
  by (cases x) simp_all

lemma fuel_free_prod [fuel_free_intros]:
  "(\<And>a b. fuel_free (f a b)) \<Longrightarrow> fuel_free (case x of (a, b) \<Rightarrow> f a b)"
  by (cases x) simp

lemma fuel_free_Let [fuel_free_intros]: "(\<And>a. fuel_free (f a)) \<Longrightarrow> fuel_free (let a = x in f a)"
  by simp

lemma fuel_free_zoom [fuel_free_intros]: "fuel_free m \<Longrightarrow> fuel_free (zoom get put m)"
  by (auto simp: fuel_free_def zoom_def split: prod.split) (metis fst_conv)

section \<open>Reachable states\<close>

text \<open>
  A system of interleaved steps: the states it can get to, and the contract of an invariant.
\<close>

inductive reachable :: "('s \<Rightarrow> bool) \<Rightarrow> ('s \<Rightarrow> 's \<Rightarrow> bool) \<Rightarrow> 's \<Rightarrow> bool"
  for init :: "'s \<Rightarrow> bool" and step :: "'s \<Rightarrow> 's \<Rightarrow> bool"
where
  reachable_init: "init s \<Longrightarrow> reachable init step s"
| reachable_step: "reachable init step s \<Longrightarrow> step s t \<Longrightarrow> reachable init step t"

locale invariant_system =
  fixes init :: "'s \<Rightarrow> bool"
    and step :: "'s \<Rightarrow> 's \<Rightarrow> bool"
    and inv :: "'s \<Rightarrow> bool"
  assumes inv_init: "init s \<Longrightarrow> inv s"
    and inv_step: "inv s \<Longrightarrow> step s t \<Longrightarrow> inv t"
begin

lemma reachable_inv: "reachable init step s \<Longrightarrow> inv s"
  by (induction rule: reachable.induct) (auto intro: inv_init inv_step)

lemma reachable_implies: "reachable init step s \<Longrightarrow> (\<And>s. inv s \<Longrightarrow> P s) \<Longrightarrow> P s"
  using reachable_inv by blast

end

section \<open>Machine integers\<close>

text \<open>
  \<open>int\<close> is 32 bits wide, \<open>size_t\<close> 64 bits. \<open>c_int\<close> is the conversion of a wider
  value to \<open>int\<close> (two's complement), \<open>size_of\<close> the conversion of an \<open>int\<close> to
  \<open>size_t\<close>, which turns \<open>-1\<close> into \<open>std::string::npos\<close>.
\<close>

definition c_int :: "int \<Rightarrow> int" where
  "c_int x = (x + 2147483648) mod 4294967296 - 2147483648"

definition size_of :: "int \<Rightarrow> nat" where
  "size_of i = nat (i mod 18446744073709551616)"

definition npos :: int where
  "npos = 18446744073709551615"

lemma c_int_id: "-2147483648 \<le> x \<Longrightarrow> x < 2147483648 \<Longrightarrow> c_int x = x"
  by (simp add: c_int_def)

lemma c_int_range: "-2147483648 \<le> c_int x \<and> c_int x < 2147483648"
  using pos_mod_bound [of 4294967296 "x + 2147483648"]
    pos_mod_sign [of 4294967296 "x + 2147483648"]
  by (simp add: c_int_def)

lemma c_int_npos: "c_int npos = -1"
  by (simp add: c_int_def npos_def)

lemma c_int_nat: "n < 2147483648 \<Longrightarrow> c_int (int n) = int n"
  by (rule c_int_id) auto

lemma size_of_nonneg: "0 \<le> i \<Longrightarrow> i < 18446744073709551616 \<Longrightarrow> size_of i = nat i"
  by (simp add: size_of_def)

lemma size_of_int: "n < 18446744073709551616 \<Longrightarrow> size_of (int n) = n"
  by (simp add: size_of_def)

lemma size_of_minus_one: "size_of (- 1) = 18446744073709551615"
  by (simp add: size_of_def)

end
