(* ===== verification/CppString.thy ===== *)
theory CppString
  imports Prelude
begin

text \<open>
  The operations of \<open>std::string\<close> and \<open>std::stringstream\<close> the program uses, and its own
  two number conversions \<open>string_to_int\<close> and \<open>num_to_string\<close> (common/function.cpp).
  A string is a list of bytes. The lemmas say that a search returns the first occurrence,
  that a found occurrence stays found when bytes are appended, that a pattern without a
  border is found where it was written, and that printing and reading a number agree.
\<close>

section \<open>Searching\<close>

definition occurs_at :: "string \<Rightarrow> string \<Rightarrow> nat \<Rightarrow> bool" where
  "occurs_at pat s i \<longleftrightarrow> take (length pat) (drop i s) = pat"

text \<open>\<open>s.find(pat)\<close>: the least index, \<open>None\<close> for \<open>npos\<close>.\<close>

fun str_find :: "string \<Rightarrow> string \<Rightarrow> nat option" where
  "str_find pat [] = (if pat = [] then Some 0 else None)"
| "str_find pat (c # s) =
     (if take (length pat) (c # s) = pat then Some 0 else map_option Suc (str_find pat s))"

text \<open>\<open>s.rfind(c)\<close> and \<open>s.find_last_of("c")\<close> for one character.\<close>

fun str_rfind :: "char \<Rightarrow> string \<Rightarrow> nat option" where
  "str_rfind x [] = None"
| "str_rfind x (c # s) =
     (case str_rfind x s of Some i \<Rightarrow> Some (Suc i) | None \<Rightarrow> if c = x then Some 0 else None)"

text \<open>The program stores the result of a search in an \<open>int\<close>.\<close>

definition pos_int :: "nat option \<Rightarrow> int" where
  "pos_int r = c_int (case r of None \<Rightarrow> npos | Some i \<Rightarrow> int i)"

text \<open>\<open>s.substr(pos, n)\<close> throws \<open>std::out_of_range\<close> when \<open>pos\<close> is past the end.\<close>

definition cpp_substr :: "string \<Rightarrow> nat \<Rightarrow> nat \<Rightarrow> error + string" where
  "cpp_substr s pos n = (if pos \<le> length s then Inr (take n (drop pos s)) else Inl Out_of_range)"

definition cpp_substr_from :: "string \<Rightarrow> nat \<Rightarrow> error + string" where
  "cpp_substr_from s pos = (if pos \<le> length s then Inr (drop pos s) else Inl Out_of_range)"

text \<open>What a C function, or a \<open>std::string\<close> built from a \<open>char*\<close>, sees of a byte array.\<close>

definition NUL :: char where
  "NUL = CHR 0x00"

definition c_str :: "string \<Rightarrow> string" where
  "c_str s = takeWhile (\<lambda>c. c \<noteq> NUL) s"

lemma c_str_id: "NUL \<notin> set s \<Longrightarrow> c_str s = s"
  by (auto simp: c_str_def takeWhile_eq_all_conv)

lemma c_str_NUL_free: "NUL \<notin> set (c_str s)"
  by (auto simp: c_str_def dest: set_takeWhileD)

lemma c_str_append: "NUL \<notin> set s \<Longrightarrow> c_str (s @ t) = s @ c_str t"
  by (induction s) (auto simp: c_str_def)

lemma occurs_at_length: "occurs_at pat s i \<Longrightarrow> pat \<noteq> [] \<Longrightarrow> i + length pat \<le> length s"
  unfolding occurs_at_def
  by (drule arg_cong [of _ _ length], cases pat) (auto simp: min_def split: if_splits)

lemma occurs_at_Suc [simp]: "occurs_at pat (c # s) (Suc i) = occurs_at pat s i"
  by (simp add: occurs_at_def)

lemma occurs_at_append:
  "i + length pat \<le> length s \<Longrightarrow> occurs_at pat (s @ t) i = occurs_at pat s i"
  by (simp add: occurs_at_def)

lemma occurs_at_shift: "occurs_at pat (s @ t) (length s + i) = occurs_at pat t i"
  by (simp add: occurs_at_def)

lemma str_find_Some_iff:
  "str_find pat s = Some i \<longleftrightarrow>
     (i \<le> length s \<and> occurs_at pat s i \<and> (\<forall>j < i. \<not> occurs_at pat s j))"
proof (induction s arbitrary: i)
  case Nil
  then show ?case by (auto simp: occurs_at_def)
next
  case (Cons c s)
  show ?case
  proof (cases "take (length pat) (c # s) = pat")
    case True
    then have "occurs_at pat (c # s) 0" by (simp add: occurs_at_def)
    with True show ?thesis by auto
  next
    case False
    then have no0: "\<not> occurs_at pat (c # s) 0" by (simp add: occurs_at_def)
    show ?thesis
    proof (cases i)
      case 0
      with False no0 show ?thesis by simp
    next
      case (Suc k)
      with False no0 Cons.IH [of k] show ?thesis
        by (auto simp: less_Suc_eq_0_disj)
    qed
  qed
qed

lemma str_find_None_iff:
  "pat \<noteq> [] \<Longrightarrow> str_find pat s = None \<longleftrightarrow> (\<forall>i. \<not> occurs_at pat s i)"
proof (induction s)
  case Nil
  then show ?case by (auto simp: occurs_at_def)
next
  case (Cons c s)
  show ?case
  proof (cases "take (length pat) (c # s) = pat")
    case True
    then have "occurs_at pat (c # s) 0" by (simp add: occurs_at_def)
    with True show ?thesis by auto
  next
    case False
    then have no0: "\<not> occurs_at pat (c # s) 0" by (simp add: occurs_at_def)
    have "(\<forall>i. \<not> occurs_at pat (c # s) i) \<longleftrightarrow> (\<forall>i. \<not> occurs_at pat s i)"
      using no0 by (metis occurs_at_Suc not0_implies_Suc)
    with False Cons show ?thesis by simp
  qed
qed

lemma str_find_SomeD:
  assumes "str_find pat s = Some i" and "pat \<noteq> []"
  shows "i + length pat \<le> length s" and "occurs_at pat s i"
  using assms occurs_at_length by (auto simp: str_find_Some_iff)

text \<open>A found pattern stays found, at the same place, when more bytes arrive.\<close>

lemma str_find_append:
  assumes "str_find pat s = Some i" and "pat \<noteq> []"
  shows "str_find pat (s @ t) = Some i"
proof -
  have len: "i + length pat \<le> length s" using assms by (rule str_find_SomeD)
  then have "\<forall>j \<le> i. occurs_at pat (s @ t) j = occurs_at pat s j"
    by (auto simp: occurs_at_append)
  with assms(1) len show ?thesis by (auto simp: str_find_Some_iff)
qed

lemma str_find_char: "c \<notin> set a \<Longrightarrow> str_find [c] (a @ c # b) = Some (length a)"
  by (induction a) auto

lemma str_find_disjoint: "pat \<noteq> [] \<Longrightarrow> set pat \<inter> set s = {} \<Longrightarrow> str_find pat s = None"
  by (induction s) (auto simp: take_Cons' Cons_eq_append_conv neq_Nil_conv split: if_splits)

lemma str_find_short: "length s < length pat \<Longrightarrow> str_find pat s = None"
  by (subst str_find_None_iff) (auto simp: occurs_at_def dest: arg_cong [of _ _ length])

text \<open>
  A byte that is not in the pattern separates: the pattern occurs in the whole only if it
  occurs on one side.
\<close>

lemma str_find_separator:
  assumes pat: "pat \<noteq> []" and c: "c \<notin> set pat"
    and a: "str_find pat a = None" and b: "str_find pat b = None"
  shows "str_find pat (a @ c # b) = None"
proof -
  have False if occ: "occurs_at pat (a @ c # b) i" for i
  proof -
    consider "i + length pat \<le> length a" | "length a < i" | "i \<le> length a" "length a < i + length pat"
      by linarith
    then show False
    proof cases
      case 1
      with occ a pat show False by (auto simp: str_find_None_iff occurs_at_append)
    next
      case 2
      then obtain k where "i = length (a @ [c]) + k"
        using less_imp_Suc_add by fastforce
      with occ have "occurs_at pat b k"
        using occurs_at_shift [of pat "a @ [c]" b k] by simp
      with b pat show False by (auto simp: str_find_None_iff)
    next
      case 3
      let ?k = "length a - i"
      have k: "?k < length pat" using 3 by linarith
      have "pat ! ?k = take (length pat) (drop i (a @ c # b)) ! ?k"
        using occ by (simp add: occurs_at_def)
      also have "\<dots> = (a @ c # b) ! (i + ?k)" using k 3 by (simp add: nth_append)
      also have "\<dots> = c" using 3 by (simp add: nth_append)
      finally show False using k c nth_mem by metis
    qed
  qed
  then show ?thesis using pat by (auto simp: str_find_None_iff)
qed

text \<open>
  A pattern has no border when no proper prefix of it is also a suffix. Written after bytes
  that do not contain it, such a pattern is found exactly where it was written.
\<close>

definition border_free :: "string \<Rightarrow> bool" where
  "border_free pat \<longleftrightarrow>
     (\<forall>k \<in> set [1..<length pat]. take k pat \<noteq> drop (length pat - k) pat)"

lemma str_find_border_free:
  assumes pat: "pat \<noteq> []" and bf: "border_free pat" and s: "str_find pat s = None"
  shows "str_find pat (s @ pat @ t) = Some (length s)"
proof -
  have "occurs_at pat (s @ pat @ t) (length s)" by (simp add: occurs_at_def)
  moreover have "\<not> occurs_at pat (s @ pat @ t) j" if j: "j < length s" for j
  proof
    assume occ: "occurs_at pat (s @ pat @ t) j"
    show False
    proof (cases "j + length pat \<le> length s")
      case True
      with occ have "occurs_at pat s j" by (simp add: occurs_at_append)
      with s pat show False by (auto simp: str_find_None_iff)
    next
      case False
      define k where "k = j + length pat - length s"
      have k: "0 < k" "k < length pat" using False j by (auto simp: k_def)
      have d: "length pat - k = length s - j" using False j by (simp add: k_def)
      have "pat = take (length pat) (drop j s @ pat @ t)"
        using occ j by (simp add: occurs_at_def)
      also have "\<dots> = drop j s @ take k (pat @ t)"
        using j False by (simp add: k_def take_append) (simp add: algebra_simps)
      finally have "pat = drop j s @ take k pat" using k by simp
      then have "drop (length s - j) pat = take k pat"
        by (metis append_eq_conv_conj length_drop)
      moreover have "k \<in> set [1..<length pat]" using k by simp
      with bf have "take k pat \<noteq> drop (length pat - k) pat" unfolding border_free_def by blast
      ultimately show False by (simp add: d)
    qed
  qed
  ultimately show ?thesis by (simp add: str_find_Some_iff)
qed

lemma pos_int_Some: "i < 2147483648 \<Longrightarrow> pos_int (Some i) = int i"
  by (simp add: pos_int_def c_int_nat)

lemma pos_int_None: "pos_int None = -1"
  by (simp add: pos_int_def c_int_npos)

lemma str_rfind_None: "str_rfind x s = None \<longleftrightarrow> x \<notin> set s"
  by (induction s) (auto split: option.splits)

lemma str_rfind_last: "x \<notin> set b \<Longrightarrow> str_rfind x (a @ x # b) = Some (length a)"
  by (induction a) (auto simp: str_rfind_None split: option.splits)

section \<open>Numbers\<close>

fun nat_digits :: "nat \<Rightarrow> string" where
  "nat_digits n =
     (if n < 10 then [char_of (48 + n)] else nat_digits (n div 10) @ [char_of (48 + n mod 10)])"

declare nat_digits.simps [simp del]

text \<open>\<open>num_to_string\<close> (common/function.cpp) prints an \<open>int\<close> into a \<open>stringstream\<close>.\<close>

definition num_to_string :: "int \<Rightarrow> string" where
  "num_to_string p_int =
     (if p_int < 0 then CHR ''-'' # nat_digits (nat (- p_int)) else nat_digits (nat p_int))"

definition is_space :: "char \<Rightarrow> bool" where
  "is_space c \<longleftrightarrow> (of_char c :: nat) = 32 \<or> (9 \<le> (of_char c :: nat) \<and> (of_char c :: nat) \<le> 13)"

definition is_digit :: "char \<Rightarrow> bool" where
  "is_digit c \<longleftrightarrow> 48 \<le> (of_char c :: nat) \<and> (of_char c :: nat) \<le> 57"

fun digits_value :: "int \<Rightarrow> string \<Rightarrow> int" where
  "digits_value acc [] = acc"
| "digits_value acc (c # s) = digits_value (10 * acc + (of_char c - 48)) s"

definition clamp_int :: "int \<Rightarrow> int" where
  "clamp_int v = max (-2147483648) (min 2147483647 v)"

text \<open>
  \<open>ss >> m_res\<close> for an \<open>int\<close>: white space is skipped; when nothing is left the variable
  keeps its old value, here the indeterminate \<open>junk\<close> of an uninitialised local; otherwise
  the longest sign-and-digits prefix is read, \<open>0\<close> is stored when it has no digit, and a
  value out of range is stored as the nearest \<open>int\<close>.
\<close>

definition stream_to_int :: "int \<Rightarrow> string \<Rightarrow> int" where
  "stream_to_int junk s =
     (let t = dropWhile is_space s in
      if t = [] then junk
      else
        let neg = (hd t = CHR ''-'');
            u = (if hd t = CHR ''-'' \<or> hd t = CHR ''+'' then tl t else t);
            v = digits_value 0 (takeWhile is_digit u)
        in clamp_int (if neg then - v else v))"

definition string_to_int :: "int \<Rightarrow> string \<Rightarrow> int" where
  "string_to_int junk p_content =
     (if p_content = ''TRUE'' \<or> p_content = ''ON'' then 1
      else if p_content = ''FALSE'' \<or> p_content = ''OFF'' then 0
      else stream_to_int junk p_content)"

lemma of_char_digit: "d < 10 \<Longrightarrow> (of_char (char_of (48 + d) :: char) :: nat) = 48 + d"
  by simp

lemma nat_digits_digits: "c \<in> set (nat_digits n) \<Longrightarrow> is_digit c"
proof (induction n rule: nat_digits.induct)
  case (1 n)
  show ?case
  proof (cases "n < 10")
    case True
    with "1.prems" show ?thesis by (auto simp: nat_digits.simps [of n] is_digit_def)
  next
    case False
    with 1 show ?thesis by (auto simp: nat_digits.simps [of n] is_digit_def)
  qed
qed

lemma nat_digits_nonempty: "nat_digits n \<noteq> []"
  by (subst nat_digits.simps) simp

lemma digits_value_append:
  "digits_value acc (s @ t) = digits_value (digits_value acc s) t"
  by (induction s arbitrary: acc) auto

lemma digits_value_nat_digits: "digits_value 0 (nat_digits n) = int n"
proof (induction n rule: nat_digits.induct)
  case (1 n)
  have of_c: "(of_char (char_of (48 + d) :: char) :: int) = 48 + int d" if "d < 10" for d :: nat
    using of_char_digit [OF that] by (metis of_char_of of_nat_add of_nat_numeral of_nat_of_char)
  show ?case
  proof (cases "n < 10")
    case True
    then show ?thesis by (simp add: nat_digits.simps [of n] of_c)
  next
    case False
    with 1 have "digits_value 0 (nat_digits (n div 10)) = int (n div 10)" by simp
    with False have "digits_value 0 (nat_digits n) = 10 * int (n div 10) + int (n mod 10)"
      by (simp add: nat_digits.simps [of n] digits_value_append of_c)
    then show ?thesis by presburger
  qed
qed

lemma takeWhile_nat_digits: "takeWhile is_digit (nat_digits n) = nat_digits n"
  by (auto simp: takeWhile_eq_all_conv dest: nat_digits_digits)

lemma is_digit_not_space: "is_digit c \<Longrightarrow> \<not> is_space c"
  by (auto simp: is_digit_def is_space_def)

lemma is_digit_not_sign: "is_digit c \<Longrightarrow> c \<noteq> CHR ''-'' \<and> c \<noteq> CHR ''+''"
  by (auto simp: is_digit_def)

lemma nat_digits_hd: "is_digit (hd (nat_digits n))"
  using nat_digits_digits nat_digits_nonempty hd_in_set by blast

lemma stream_to_int_nat_digits:
  assumes "int n \<le> 2147483647"
  shows "stream_to_int junk (nat_digits n) = int n"
proof -
  obtain c s where cs: "nat_digits n = c # s" using nat_digits_nonempty by (cases "nat_digits n") auto
  then have c: "is_digit c" using nat_digits_hd [of n] by simp
  then have "dropWhile is_space (nat_digits n) = nat_digits n"
    by (simp add: cs is_digit_not_space)
  with assms show ?thesis
    using is_digit_not_sign [OF nat_digits_hd [of n]] nat_digits_nonempty [of n]
    by (simp add: stream_to_int_def Let_def takeWhile_nat_digits
        digits_value_nat_digits clamp_int_def)
qed

lemma stream_to_int_negative:
  assumes "int n \<le> 2147483648"
  shows "stream_to_int junk (CHR ''-'' # nat_digits n) = - int n"
  using assms by (simp add: stream_to_int_def Let_def is_space_def takeWhile_nat_digits
      digits_value_nat_digits clamp_int_def)

lemma num_to_string_first: "\<exists>c s. num_to_string n = c # s \<and> (is_digit c \<or> c = CHR ''-'')"
proof (cases "n < 0")
  case True
  then show ?thesis by (simp add: num_to_string_def)
next
  case False
  then show ?thesis
    using nat_digits_nonempty [of "nat n"] nat_digits_hd [of "nat n"]
    by (cases "nat_digits (nat n)") (auto simp: num_to_string_def)
qed

lemma num_to_string_chars: "c \<in> set (num_to_string n) \<Longrightarrow> is_digit c \<or> c = CHR ''-''"
  by (auto simp: num_to_string_def dest: nat_digits_digits split: if_splits)

lemma num_to_string_not_word:
  "c \<noteq> CHR ''-'' \<Longrightarrow> \<not> is_digit c \<Longrightarrow> num_to_string n \<noteq> c # s"
  using num_to_string_first [of n] by auto

text \<open>Printing a number and reading it back.\<close>

lemma string_to_int_num_to_string:
  assumes "-2147483648 \<le> n" and "n \<le> 2147483647"
  shows "string_to_int junk (num_to_string n) = n"
proof -
  have w: "string_to_int junk (num_to_string n) = stream_to_int junk (num_to_string n)"
    by (simp add: string_to_int_def num_to_string_not_word is_digit_def)
  have "stream_to_int junk (num_to_string n) = n"
  proof (cases "n < 0")
    case True
    then have "int (nat (- n)) = - n" by simp
    with True assms show ?thesis by (simp add: num_to_string_def stream_to_int_negative)
  next
    case False
    with assms show ?thesis by (simp add: num_to_string_def stream_to_int_nat_digits)
  qed
  with w show ?thesis by simp
qed

lemma num_to_string_avoids:
  "\<not> is_digit c \<Longrightarrow> c \<noteq> CHR ''-'' \<Longrightarrow> c \<notin> set (num_to_string n)"
  using num_to_string_chars by blast

end
