(* ===== verification/DataStructure.thy ===== *)
theory DataStructure
  imports CppString
begin

text \<open>
  common/dataStructure.h: the constants of the wire format, the JSON keys, and the package
  \<open>PagTCP\<close> every message and file page travels in.
\<close>

definition PAGSIZE :: nat where "PAGSIZE = 1024"
definition PAGHEAD :: string where "PAGHEAD = ''TCPHEAD''"
definition PAGTAIL :: string where "PAGTAIL = ''TCPTAIL''"
definition SEGCHAR :: string where "SEGCHAR = ''x''"

definition FILE_DESCRIBE :: string where "FILE_DESCRIBE = ''describe''"
definition FILE_NAME :: string where "FILE_NAME = ''filename''"
definition FILE_PATH :: string where "FILE_PATH = ''filepath''"
definition FILE_TYPE :: string where "FILE_TYPE = ''filetype''"
definition FILE_CLASS :: string where "FILE_CLASS = ''className''"
definition FILE_STUDENT :: string where "FILE_STUDENT = ''studentName''"
definition FILE_COURES :: string where "FILE_COURES = ''coures''"
definition FILE_CONTENT :: string where "FILE_CONTENT = ''filecontent''"
definition FILE_TEMPLATE :: string where "FILE_TEMPLATE = ''fileistemplate''"
definition DEVICE_NUMBER :: string where "DEVICE_NUMBER = ''devicenumber''"
definition CLASS_INFO :: string where "CLASS_INFO = ''classinfo''"
definition FILE_LIST :: string where "FILE_LIST = ''filelist''"

definition EXT_HR :: string where "EXT_HR = ''.program''"
definition EXT_ABB :: string where "EXT_ABB = ''.abb''"
definition EXT_FANUC :: string where "EXT_FANUC = ''.fanuc''"
definition DECOLLATOR :: string where "DECOLLATOR = '';''"

lemmas json_keys =
  FILE_DESCRIBE_def FILE_NAME_def FILE_PATH_def FILE_TYPE_def FILE_CLASS_def FILE_STUDENT_def
  FILE_COURES_def FILE_CONTENT_def FILE_TEMPLATE_def DEVICE_NUMBER_def CLASS_INFO_def FILE_LIST_def

lemmas wire_consts = PAGSIZE_def PAGHEAD_def PAGTAIL_def SEGCHAR_def

text \<open>
  The two enumerations. A variable of an unscoped C++ enumeration filled by a cast from
  \<open>int\<close>, as \<open>GetPackage\<close> does, may hold a number that no enumerator names: the \<open>_raw\<close>
  constructors carry it.
\<close>

datatype TCPSOURCETYPE =
    TCPSOURCE_SERVER
  | TCPSOURCE_CLIENT
  | TCPSOURCE_OTHER
  | TCPSOURCE_UNDEFINE
  | TCPSOURCE_raw int

datatype TCPPACKAGETYPE =
    TCPPACKAGE_MSG
  | TCPPACKAGE_FILE
  | TCPPACKAGE_raw int

fun int_of_source :: "TCPSOURCETYPE \<Rightarrow> int" where
  "int_of_source TCPSOURCE_SERVER = 0"
| "int_of_source TCPSOURCE_CLIENT = 1"
| "int_of_source TCPSOURCE_OTHER = 2"
| "int_of_source TCPSOURCE_UNDEFINE = 3"
| "int_of_source (TCPSOURCE_raw i) = i"

definition source_of_int :: "int \<Rightarrow> TCPSOURCETYPE" where
  "source_of_int i =
     (if i = 0 then TCPSOURCE_SERVER else if i = 1 then TCPSOURCE_CLIENT
      else if i = 2 then TCPSOURCE_OTHER else if i = 3 then TCPSOURCE_UNDEFINE
      else TCPSOURCE_raw i)"

fun int_of_package_type :: "TCPPACKAGETYPE \<Rightarrow> int" where
  "int_of_package_type TCPPACKAGE_MSG = 0"
| "int_of_package_type TCPPACKAGE_FILE = 1"
| "int_of_package_type (TCPPACKAGE_raw i) = i"

definition package_type_of_int :: "int \<Rightarrow> TCPPACKAGETYPE" where
  "package_type_of_int i =
     (if i = 0 then TCPPACKAGE_MSG else if i = 1 then TCPPACKAGE_FILE else TCPPACKAGE_raw i)"

record PagTCP =
  pag_label :: string
  pag_src :: TCPSOURCETYPE
  pag_type :: TCPPACKAGETYPE
  pag_num :: int
  pag_allnum :: int
  pag_content :: string

text \<open>
  A package a well-behaved peer writes: a label of four bytes, enumerators in their enums,
  page numbers that are \<open>int\<close>s, and a content that does not hold the tail marker.
\<close>

definition int_range :: "int \<Rightarrow> bool" where
  "int_range n \<longleftrightarrow> -2147483648 \<le> n \<and> n \<le> 2147483647"

definition wf_package :: "PagTCP \<Rightarrow> bool" where
  "wf_package p \<longleftrightarrow>
     length (pag_label p) = 4 \<and>
     source_of_int (int_of_source (pag_src p)) = pag_src p \<and> int_range (int_of_source (pag_src p)) \<and>
     package_type_of_int (int_of_package_type (pag_type p)) = pag_type p \<and>
     int_range (int_of_package_type (pag_type p)) \<and>
     int_range (pag_num p) \<and> int_range (pag_allnum p) \<and>
     str_find PAGTAIL (pag_content p) = None"

lemma border_free_markers: "border_free PAGHEAD" "border_free PAGTAIL"
  by (simp_all add: border_free_def wire_consts upt_rec)

lemma markers_nonempty [simp]: "PAGHEAD \<noteq> []" "PAGTAIL \<noteq> []"
  by (simp_all add: wire_consts)

lemma marker_lengths [simp]: "length PAGHEAD = 7" "length PAGTAIL = 7" "length SEGCHAR = 1"
  by (simp_all add: wire_consts)

end
