(* ===== verification/Framing.thy ===== *)
theory Framing
  imports DataStructure
begin

text \<open>
  The wire format (common/function.cpp): \<open>send_package\<close> writes a package between the head
  and the tail marker with its four numbers terminated by \<open>x\<close>, \<open>GetPackage\<close> cuts the first
  complete package out of the bytes received so far. The locale \<open>framing\<close> states the
  contract between the two, and what follows from it for a stream that arrives in pieces;
  the interpretation at the end discharges it for this code.
\<close>

section \<open>Writing\<close>

text \<open>The body of a package, and the bytes \<open>send_package\<close> hands to the socket (lines 350-357).\<close>

definition package_body :: "PagTCP \<Rightarrow> string" where
  "package_body pag =
     pag_label pag @ num_to_string (int_of_source (pag_src pag)) @ SEGCHAR @
     num_to_string (int_of_package_type (pag_type pag)) @ SEGCHAR @
     num_to_string (pag_num pag) @ SEGCHAR @
     num_to_string (pag_allnum pag) @ SEGCHAR @ pag_content pag"

definition package_string :: "PagTCP \<Rightarrow> string" where
  "package_string pag = PAGHEAD @ package_body pag @ PAGTAIL"

section \<open>Reading\<close>

text \<open>
  Lines 177 to 190 of \<open>GetPackage\<close>: the text between the first head marker and the first
  tail marker after it, and the bytes that remain buffered.
\<close>

definition cut_package :: "string \<Rightarrow> error + (string \<times> string) option" where
  "cut_package m_strData =
     (let index = pos_int (str_find PAGHEAD m_strData) in
      if index \<ge> 0 then
        (case cpp_substr_from m_strData (size_of index) of
           Inl e \<Rightarrow> Inl e
         | Inr packageStr \<Rightarrow>
             (let index = pos_int (str_find PAGTAIL packageStr) in
              if index \<ge> 0 then
                (case cpp_substr_from packageStr (size_of (index + int (length PAGTAIL))) of
                   Inl e \<Rightarrow> Inl e
                 | Inr rest \<Rightarrow>
                     (case cpp_substr packageStr (length PAGHEAD)
                             (size_of (index - int (length PAGHEAD))) of
                        Inl e \<Rightarrow> Inl e
                      | Inr body \<Rightarrow> Inr (Some (body, rest))))
              else Inr None))
      else Inr None)"

text \<open>
  One field: the text up to the next \<open>x\<close> and what follows it. With no \<open>x\<close> the index is
  \<open>-1\<close>, so the field is the whole text and nothing is skipped.
\<close>

definition take_field :: "string \<Rightarrow> error + (string \<times> string)" where
  "take_field packageStr =
     (let index = pos_int (str_find SEGCHAR packageStr) in
      case cpp_substr packageStr 0 (size_of index) of
        Inl e \<Rightarrow> Inl e
      | Inr field \<Rightarrow>
          (case cpp_substr_from packageStr (size_of (index + 1)) of
             Inl e \<Rightarrow> Inl e
           | Inr rest \<Rightarrow> Inr (field, rest)))"

text \<open>
  Lines 191 to 208. The label is the first four bytes; a body shorter than that makes
  \<open>substr(4)\<close> throw. \<open>junk\<close> gives the indeterminate results of \<open>string_to_int\<close>.
\<close>

definition parse_fields :: "(nat \<Rightarrow> int) \<Rightarrow> string \<Rightarrow> error + PagTCP" where
  "parse_fields junk packageStr =
     (case cpp_substr packageStr 0 4 of Inl e \<Rightarrow> Inl e | Inr label \<Rightarrow>
     (case cpp_substr_from packageStr 4 of Inl e \<Rightarrow> Inl e | Inr s0 \<Rightarrow>
     (case take_field s0 of Inl e \<Rightarrow> Inl e | Inr (f1, s1) \<Rightarrow>
     (case take_field s1 of Inl e \<Rightarrow> Inl e | Inr (f2, s2) \<Rightarrow>
     (case take_field s2 of Inl e \<Rightarrow> Inl e | Inr (f3, s3) \<Rightarrow>
     (case take_field s3 of Inl e \<Rightarrow> Inl e | Inr (f4, s4) \<Rightarrow>
        Inr \<lparr>pag_label = label,
             pag_src = source_of_int (string_to_int (junk 0) f1),
             pag_type = package_type_of_int (string_to_int (junk 1) f2),
             pag_num = string_to_int (junk 2) f3,
             pag_allnum = string_to_int (junk 3) f4,
             pag_content = s4\<rparr>))))))"

text \<open>
  \<open>GetPackage\<close> on the receive buffer: no package, a package, or an exception, and the new
  buffer, which has already lost the package when its fields make \<open>substr\<close> throw.
\<close>

definition GetPackage_data :: "(nat \<Rightarrow> int) \<Rightarrow> string \<Rightarrow> (error + PagTCP option) \<times> string" where
  "GetPackage_data junk m_strData =
     (case cut_package m_strData of
        Inl e \<Rightarrow> (Inl e, m_strData)
      | Inr None \<Rightarrow> (Inr None, m_strData)
      | Inr (Some (body, rest)) \<Rightarrow>
          (case parse_fields junk body of
             Inl e \<Rightarrow> (Inl e, rest)
           | Inr pag \<Rightarrow> (Inr (Some pag), rest)))"

section \<open>Searching for the markers\<close>

lemma tail_after_head:
  assumes "str_find PAGTAIL s = None"
  shows "str_find PAGTAIL (PAGHEAD @ s) = None"
  using assms by (simp add: wire_consts)

lemma not_in_tail:
  assumes "is_digit c \<or> c = CHR ''-'' \<or> c = CHR ''x''"
  shows "c \<notin> set PAGTAIL"
  using assms by (auto simp: wire_consts is_digit_def)

lemma tail_not_in_number: "str_find PAGTAIL (num_to_string n) = None"
  using num_to_string_chars not_in_tail by (intro str_find_disjoint) (simp, blast)

lemma tail_not_in_label_number:
  assumes "length label \<le> 6"
  shows "str_find PAGTAIL (label @ num_to_string n) = None"
proof -
  obtain c s where cs: "num_to_string n = c # s" using num_to_string_first [of n] by blast
  then have mem: "set (c # s) = set (num_to_string n)" by simp
  have "c' \<notin> set PAGTAIL" if "c' \<in> set s" for c'
    using that mem num_to_string_chars [of c' n] not_in_tail [of c'] by auto
  then have "str_find PAGTAIL s = None" by (intro str_find_disjoint) auto
  moreover have "c \<notin> set PAGTAIL"
    using mem num_to_string_chars [of c n] not_in_tail by auto
  ultimately show ?thesis
    using assms by (simp add: cs str_find_separator str_find_short)
qed

lemma tail_segments:
  assumes "str_find PAGTAIL a = None" and "str_find PAGTAIL b = None"
  shows "str_find PAGTAIL (a @ SEGCHAR @ b) = None"
proof -
  have "str_find PAGTAIL (a @ CHR ''x'' # b) = None"
    using assms by (intro str_find_separator) (simp_all add: not_in_tail)
  then show ?thesis by (simp add: SEGCHAR_def)
qed

lemma tail_not_in_body:
  assumes "wf_package p"
  shows "str_find PAGTAIL (package_body p) = None"
proof -
  have l: "length (pag_label p) \<le> 6" and c: "str_find PAGTAIL (pag_content p) = None"
    using assms by (auto simp: wf_package_def)
  have "package_body p =
    (pag_label p @ num_to_string (int_of_source (pag_src p))) @ SEGCHAR @
    num_to_string (int_of_package_type (pag_type p)) @ SEGCHAR @
    num_to_string (pag_num p) @ SEGCHAR @ num_to_string (pag_allnum p) @ SEGCHAR @ pag_content p"
    by (simp add: package_body_def)
  then show ?thesis
    using l c by (simp only: tail_segments tail_not_in_label_number tail_not_in_number)
qed

section \<open>Cutting\<close>

lemma cut_package_found:
  assumes h: "str_find PAGHEAD d = Some i" and t: "str_find PAGTAIL (drop i d) = Some j"
    and len: "length d < 2147483648"
  shows "cut_package d =
    Inr (Some (take (j - 7) (drop (i + 7) d), drop (i + j + 7) d))" and "7 \<le> j"
proof -
  have i: "i + 7 \<le> length d" "occurs_at PAGHEAD d i"
    using str_find_SomeD [OF h] by simp_all
  have j: "j + 7 \<le> length (drop i d)" using str_find_SomeD [OF t] by simp
  have d: "drop i d = PAGHEAD @ drop (i + 7) d"
    using i(2) by (simp add: occurs_at_def) (metis append_take_drop_id drop_drop add.commute)
  show j7: "7 \<le> j"
  proof (rule ccontr)
    assume "\<not> 7 \<le> j"
    then have "j \<in> {0, 1, 2, 3, 4, 5, 6}" by auto
    moreover have "occurs_at PAGTAIL (PAGHEAD @ drop (i + 7) d) j"
      using str_find_SomeD(2) [OF t] by (simp flip: d)
    ultimately show False by (auto simp: occurs_at_def wire_consts)
  qed
  have "int i < 2147483648" "int j < 2147483648" using i j len by auto
  then show "cut_package d =
    Inr (Some (take (j - 7) (drop (i + 7) d), drop (i + j + 7) d))"
    using h t i(1) j j7
    by (simp add: cut_package_def Let_def pos_int_Some cpp_substr_from_def cpp_substr_def
        size_of_def nat_add_distrib nat_diff_distrib ac_simps)
qed

lemma cut_package_no_head: "str_find PAGHEAD d = None \<Longrightarrow> cut_package d = Inr None"
  by (simp add: cut_package_def pos_int_None)

lemma cut_package_no_tail:
  assumes "str_find PAGHEAD d = Some i" and "str_find PAGTAIL (drop i d) = None"
    and "length d < 2147483648"
  shows "cut_package d = Inr None"
proof -
  have "i < 2147483648" "i \<le> length d" using str_find_SomeD [OF assms(1)] assms(3) by simp_all
  with assms show ?thesis
    by (simp add: cut_package_def Let_def pos_int_Some pos_int_None cpp_substr_from_def size_of_int)
qed

text \<open>What a successful cut says about the buffer.\<close>

lemma cut_package_Some:
  assumes "cut_package d = Inr (Some (body, rest))" and "length d < 2147483648"
  obtains i j where "str_find PAGHEAD d = Some i" and "str_find PAGTAIL (drop i d) = Some j"
    and "body = take (j - 7) (drop (i + 7) d)" and "rest = drop (i + j + 7) d" and "7 \<le> j"
proof (cases "str_find PAGHEAD d")
  case None
  then have "cut_package d = Inr None" by (rule cut_package_no_head)
  with assms show ?thesis by simp
next
  case (Some i)
  show ?thesis
  proof (cases "str_find PAGTAIL (drop i d)")
    case None
    from cut_package_no_tail [OF Some None assms(2)] assms(1) show ?thesis by simp
  next
    case j: (Some j)
    from cut_package_found [OF Some j assms(2)] assms(1) show ?thesis
      using that [OF Some j] by simp
  qed
qed

lemma cut_package_total: "length d < 2147483648 \<Longrightarrow> \<exists>r. cut_package d = Inr r"
  by (metis cut_package_found(1) cut_package_no_head cut_package_no_tail option.exhaust)

lemma cut_package_append:
  assumes "cut_package d = Inr (Some (body, rest))" and "length (d @ d2) < 2147483648"
  shows "cut_package (d @ d2) = Inr (Some (body, rest @ d2))"
proof -
  have "length d < 2147483648" using assms(2) by simp
  with assms(1) obtain i j where h: "str_find PAGHEAD d = Some i"
    and t: "str_find PAGTAIL (drop i d) = Some j"
    and b: "body = take (j - 7) (drop (i + 7) d)" and r: "rest = drop (i + j + 7) d"
    and j7: "7 \<le> j"
    by (rule cut_package_Some)
  have i: "i + 7 \<le> length d" using str_find_SomeD(1) [OF h] by simp
  have j: "i + j + 7 \<le> length d" using str_find_SomeD(1) [OF t] i by simp
  have h': "str_find PAGHEAD (d @ d2) = Some i" using h by (rule str_find_append) simp
  have "str_find PAGTAIL (drop i d @ d2) = Some j" using t by (rule str_find_append) simp
  then have t': "str_find PAGTAIL (drop i (d @ d2)) = Some j" using i by simp
  show ?thesis
    using cut_package_found(1) [OF h' t' assms(2)] i j j7 b r by simp
qed

lemma cut_package_shrinks:
  assumes "cut_package d = Inr (Some (body, rest))" and "length d < 2147483648"
  shows "length rest + 14 \<le> length d"
proof -
  from assms obtain i j where h: "str_find PAGHEAD d = Some i"
    and t: "str_find PAGTAIL (drop i d) = Some j" and r: "rest = drop (i + j + 7) d"
    and j7: "7 \<le> j"
    by (rule cut_package_Some)
  then show ?thesis
    using str_find_SomeD(1) [OF h] str_find_SomeD(1) [OF t] by simp
qed

lemma cut_package_written:
  assumes "str_find PAGHEAD pre = None" and "str_find PAGTAIL body = None"
    and "length (pre @ PAGHEAD @ body @ PAGTAIL @ rest) < 2147483648"
  shows "cut_package (pre @ PAGHEAD @ body @ PAGTAIL @ rest) = Inr (Some (body, rest))"
proof -
  let ?d = "pre @ PAGHEAD @ body @ PAGTAIL @ rest"
  have h: "str_find PAGHEAD ?d = Some (length pre)"
    using assms(1) by (intro str_find_border_free) (simp_all add: border_free_markers)
  have "str_find PAGTAIL ((PAGHEAD @ body) @ PAGTAIL @ rest) = Some (length (PAGHEAD @ body))"
    using assms(2)
    by (intro str_find_border_free tail_after_head) (simp_all add: border_free_markers)
  then have t: "str_find PAGTAIL (drop (length pre) ?d) = Some (7 + length body)" by simp
  from cut_package_found(1) [OF h t assms(3)] show ?thesis by simp
qed

section \<open>Parsing the fields\<close>

lemma take_field_written:
  assumes "CHR ''x'' \<notin> set f" and "length (f @ SEGCHAR @ rest) < 2147483648"
  shows "take_field (f @ SEGCHAR @ rest) = Inr (f, rest)"
proof -
  have sep: "SEGCHAR = [CHR ''x'']" by (simp add: wire_consts)
  have "str_find SEGCHAR (f @ SEGCHAR @ rest) = Some (length f)"
    using assms(1) str_find_char by (simp add: sep)
  moreover have "length f < 2147483648" using assms(2) by simp
  moreover have "size_of (int (length f) + 1) = length f + 1"
    using assms(2) by (simp add: size_of_def nat_add_distrib)
  ultimately show ?thesis
    by (simp add: take_field_def Let_def pos_int_Some size_of_int cpp_substr_def
        cpp_substr_from_def sep)
qed

lemma take_field_number:
  "length (num_to_string n @ SEGCHAR @ rest) < 2147483648 \<Longrightarrow>
     take_field (num_to_string n @ SEGCHAR @ rest) = Inr (num_to_string n, rest)"
  by (rule take_field_written) (simp_all add: num_to_string_avoids is_digit_def)

lemma parse_fields_body:
  assumes wf: "wf_package p" and len: "length (package_body p) < 2147483648"
  shows "parse_fields junk (package_body p) = Inr p"
proof -
  have lab: "length (pag_label p) = 4" using wf by (simp add: wf_package_def)
  have rng: "string_to_int j (num_to_string n) = n" if "int_range n" for j n
    using that by (simp add: int_range_def string_to_int_num_to_string)
  have "cpp_substr (package_body p) 0 4 = Inr (pag_label p)"
    using lab by (simp add: cpp_substr_def package_body_def)
  moreover have "cpp_substr_from (package_body p) 4 = Inr (drop 4 (package_body p))"
    using lab by (simp add: cpp_substr_from_def package_body_def)
  moreover have "drop 4 (package_body p) =
      num_to_string (int_of_source (pag_src p)) @ SEGCHAR @
      num_to_string (int_of_package_type (pag_type p)) @ SEGCHAR @
      num_to_string (pag_num p) @ SEGCHAR @
      num_to_string (pag_allnum p) @ SEGCHAR @ pag_content p"
    using lab by (simp add: package_body_def)
  ultimately show ?thesis
    using wf len
    by (simp add: parse_fields_def take_field_number rng wf_package_def package_body_def)
qed

text \<open>Nothing but a body shorter than a label makes the parser throw.\<close>

lemma take_field_total: "length s < 2147483648 \<Longrightarrow> \<exists>f r. take_field s = Inr (f, r) \<and> length r \<le> length s"
proof (cases "str_find SEGCHAR s")
  case None
  then show ?thesis
    by (simp add: take_field_def pos_int_None cpp_substr_def cpp_substr_from_def size_of_def)
next
  case (Some i)
  assume len: "length s < 2147483648"
  have i: "i + 1 \<le> length s"
    using str_find_SomeD(1) [OF Some] by (simp add: SEGCHAR_def)
  with len have "size_of (int i) = i" "size_of (int i + 1) = i + 1"
    by (simp_all add: size_of_def nat_add_distrib)
  with Some i len show ?thesis
    by (simp add: take_field_def Let_def pos_int_Some cpp_substr_def cpp_substr_from_def)
qed

lemma parse_fields_throws_iff:
  assumes "length s < 2147483648"
  shows "(\<exists>p. parse_fields junk s = Inr p) \<longleftrightarrow> 4 \<le> length s"
    and "length s < 4 \<Longrightarrow> parse_fields junk s = Inl Out_of_range"
proof -
  show short: "parse_fields junk s = Inl Out_of_range" if "length s < 4"
    using that by (simp add: parse_fields_def cpp_substr_def cpp_substr_from_def)
  have "\<exists>p. parse_fields junk s = Inr p" if "4 \<le> length s"
  proof -
    have s0: "cpp_substr s 0 4 = Inr (take 4 s)" "cpp_substr_from s 4 = Inr (drop 4 s)"
      using that by (simp_all add: cpp_substr_def cpp_substr_from_def)
    have l0: "length (drop 4 s) < 2147483648" using assms by simp
    obtain f1 s1 where 1: "take_field (drop 4 s) = Inr (f1, s1)" "length s1 < 2147483648"
      using take_field_total [OF l0] l0 by fastforce
    obtain f2 s2 where 2: "take_field s1 = Inr (f2, s2)" "length s2 < 2147483648"
      using take_field_total [OF 1(2)] 1(2) by fastforce
    obtain f3 s3 where 3: "take_field s2 = Inr (f3, s3)" "length s3 < 2147483648"
      using take_field_total [OF 2(2)] 2(2) by fastforce
    obtain f4 s4 where 4: "take_field s3 = Inr (f4, s4)"
      using take_field_total [OF 3(2)] by blast
    show ?thesis by (simp add: parse_fields_def s0 1(1) 2(1) 3(1) 4)
  qed
  with short show "(\<exists>p. parse_fields junk s = Inr p) \<longleftrightarrow> 4 \<le> length s"
    by (metis not_less sum.distinct(1))
qed

section \<open>The contract of a framing\<close>

text \<open>
  A decoder takes the first message off a buffer, \<open>None\<close> when no message is complete.
  \<open>drain\<close> applies it until it answers \<open>None\<close>, which is what the receive loop does;
  the fuel bounds the number of messages.
\<close>

fun drain :: "('b list \<Rightarrow> ('p \<times> 'b list) option) \<Rightarrow> nat \<Rightarrow> 'b list \<Rightarrow> 'p list \<times> 'b list" where
  "drain decode 0 d = ([], d)"
| "drain decode (Suc n) d =
     (case decode d of
        None \<Rightarrow> ([], d)
      | Some (p, rest) \<Rightarrow> (case drain decode n rest of (ps, r) \<Rightarrow> (p # ps, r)))"

definition drain_all :: "('b list \<Rightarrow> ('p \<times> 'b list) option) \<Rightarrow> 'b list \<Rightarrow> 'p list \<times> 'b list" where
  "drain_all decode d = drain decode (length d) d"

text \<open>
  The laws: a written message is read back whatever follows it and whatever noise precedes
  it; a message that can be read can still be read when more bytes arrive; reading shortens
  the buffer. \<open>fits\<close> bounds the buffer.
\<close>

locale framing =
  fixes encode :: "'p \<Rightarrow> 'b list"
    and decode :: "'b list \<Rightarrow> ('p \<times> 'b list) option"
    and good :: "'p \<Rightarrow> bool"
    and noise :: "'b list \<Rightarrow> bool"
    and bound :: nat
  assumes decode_encode:
      "good p \<Longrightarrow> noise n \<Longrightarrow> length (n @ encode p @ rest) < bound \<Longrightarrow>
         decode (n @ encode p @ rest) = Some (p, rest)"
    and decode_append:
      "decode d = Some (p, rest) \<Longrightarrow> length (d @ d2) < bound \<Longrightarrow>
         decode (d @ d2) = Some (p, rest @ d2)"
    and decode_shrinks:
      "decode d = Some (p, rest) \<Longrightarrow> length d < bound \<Longrightarrow> length rest < length d"
    and decode_noise: "noise n \<Longrightarrow> decode n = None"
    and noise_Nil: "noise []"
begin

lemma drain_enough:
  "length d \<le> n \<Longrightarrow> length d \<le> m \<Longrightarrow> length d < bound \<Longrightarrow> drain decode n d = drain decode m d"
proof (induction n arbitrary: m d)
  case 0
  then show ?case
    using decode_shrinks [of d] by (cases m) (fastforce split: option.splits)+
next
  case (Suc n)
  show ?case
  proof (cases m)
    case 0
    with Suc.prems show ?thesis
      using decode_shrinks [of d] by (fastforce split: option.splits)
  next
    case (Suc m')
    have "drain decode n rest = drain decode m' rest" if "decode d = Some (p, rest)" for p rest
      using that Suc.prems decode_shrinks [OF that] \<open>m = Suc m'\<close> by (intro Suc.IH) auto
    with \<open>m = Suc m'\<close> show ?thesis by (auto split: option.split)
  qed
qed

lemma drain_all_step:
  assumes "decode d = Some (p, rest)" and "length d < bound"
  shows "drain_all decode d = (case drain_all decode rest of (ps, r) \<Rightarrow> (p # ps, r))"
proof -
  have less: "length rest < length d" using assms by (rule decode_shrinks)
  then obtain k where k: "length d = Suc k" "length rest \<le> k" by (cases "length d") auto
  have "drain decode k rest = drain decode (length rest) rest"
    using k assms(2) by (intro drain_enough) auto
  with assms(1) show ?thesis by (simp add: drain_all_def k(1))
qed

lemma drain_all_stuck: "decode d = None \<Longrightarrow> drain_all decode d = ([], d)"
  by (cases "length d") (simp_all add: drain_all_def)

lemma drain_all_rest:
  "length d < bound \<Longrightarrow> decode (snd (drain_all decode d)) = None \<and>
     length (snd (drain_all decode d)) \<le> length d"
proof (induction "length d" arbitrary: d rule: less_induct)
  case less
  show ?case
  proof (cases "decode d")
    case None
    then show ?thesis by (simp add: drain_all_stuck)
  next
    case (Some pr)
    then obtain p rest where d: "decode d = Some (p, rest)" by (cases pr) auto
    from decode_shrinks [OF d less.prems] less.prems less.hyps [of rest] show ?thesis
      by (fastforce simp: drain_all_step [OF d less.prems] split: prod.split)
  qed
qed

text \<open>Any way of cutting the stream into two arrivals yields the same messages.\<close>

lemma drain_all_append:
  "length (d @ d2) < bound \<Longrightarrow>
     drain_all decode (d @ d2) =
       (case drain_all decode d of (ps, r) \<Rightarrow>
        case drain_all decode (r @ d2) of (qs, r') \<Rightarrow> (ps @ qs, r'))"
proof (induction "length d" arbitrary: d rule: less_induct)
  case less
  show ?case
  proof (cases "decode d")
    case None
    then show ?thesis by (simp add: drain_all_stuck split: prod.split)
  next
    case (Some pr)
    then obtain p rest where d: "decode d = Some (p, rest)" by (cases pr) auto
    have len: "length d < bound" using less.prems by simp
    have sh: "length rest < length d" by (rule decode_shrinks [OF d len])
    then have "length (rest @ d2) < bound" using less.prems by simp
    from less.hyps [OF sh this] show ?thesis
      using drain_all_step [OF d len] drain_all_step [OF decode_append [OF d less.prems] less.prems]
      by (simp split: prod.split)
  qed
qed

text \<open>A stream of written messages is read back message by message.\<close>

lemma drain_all_encoded:
  "\<forall>p \<in> set ps. good p \<Longrightarrow> decode trail = None \<Longrightarrow>
     length (concat (map encode ps) @ trail) < bound \<Longrightarrow>
     drain_all decode (concat (map encode ps) @ trail) = (ps, trail)"
proof (induction ps)
  case Nil
  then show ?case by (simp add: drain_all_stuck)
next
  case (Cons p ps)
  let ?d = "concat (map encode (p # ps)) @ trail"
  have "decode ([] @ encode p @ concat (map encode ps) @ trail) = Some (p, concat (map encode ps) @ trail)"
    using Cons.prems noise_Nil by (intro decode_encode) auto
  then have "decode ?d = Some (p, concat (map encode ps) @ trail)" by simp
  from drain_all_step [OF this] Cons show ?case by simp
qed

end

section \<open>The interpretation\<close>

text \<open>\<open>GetPackage\<close> as a decoder: what it yields when it yields a package.\<close>

definition decode_package :: "(nat \<Rightarrow> int) \<Rightarrow> string \<Rightarrow> (PagTCP \<times> string) option" where
  "decode_package junk d =
     (case GetPackage_data junk d of (Inr (Some p), rest) \<Rightarrow> Some (p, rest) | _ \<Rightarrow> None)"

definition no_head :: "string \<Rightarrow> bool" where
  "no_head s \<longleftrightarrow> str_find PAGHEAD s = None"

lemma decode_package_Some_iff:
  "decode_package junk d = Some (p, rest) \<longleftrightarrow>
     (\<exists>body. cut_package d = Inr (Some (body, rest)) \<and> parse_fields junk body = Inr p)"
  by (auto simp: decode_package_def GetPackage_data_def
      split: sum.splits option.splits prod.splits)

lemma decode_package_GetPackage:
  "decode_package junk d = Some (p, rest) \<longleftrightarrow> GetPackage_data junk d = (Inr (Some p), rest)"
  by (auto simp: decode_package_def split: prod.splits sum.splits option.splits)

lemma decode_package_written:
  assumes "wf_package p" and "no_head n"
    and "length (n @ package_string p @ rest) < 2147483648"
  shows "decode_package junk (n @ package_string p @ rest) = Some (p, rest)"
proof -
  have "cut_package (n @ PAGHEAD @ package_body p @ PAGTAIL @ rest) =
      Inr (Some (package_body p, rest))"
    using assms by (intro cut_package_written)
      (simp_all add: no_head_def tail_not_in_body package_string_def)
  moreover have "parse_fields junk (package_body p) = Inr p"
    using assms by (intro parse_fields_body) (simp_all add: package_string_def)
  ultimately show ?thesis by (simp add: decode_package_Some_iff package_string_def)
qed

text \<open>
  \<open>send_package\<close> escapes nothing: a content that holds the tail marker is read up to the first one, and
  what stands behind it stays in the buffer.
\<close>

lemma str_find_split:
  assumes "str_find PAGTAIL s = Some i"
  shows "str_find PAGTAIL (take i s) = None" and "s = take i s @ PAGTAIL @ drop (i + 7) s"
proof -
  have f: "i + 7 \<le> length s" "occurs_at PAGTAIL s i" "\<forall>k < i. \<not> occurs_at PAGTAIL s k"
    using assms str_find_SomeD [OF assms] by (simp_all add: str_find_Some_iff)
  then have "take 7 (drop i s) = PAGTAIL" by (simp add: occurs_at_def)
  then show "s = take i s @ PAGTAIL @ drop (i + 7) s"
    by (metis append_take_drop_id drop_drop add.commute)
  have "\<not> occurs_at PAGTAIL (take i s) k" for k
  proof
    assume o: "occurs_at PAGTAIL (take i s) k"
    then have k: "k + 7 \<le> length (take i s)" using occurs_at_length by fastforce
    then have "occurs_at PAGTAIL s k" using o occurs_at_append [of k PAGTAIL "take i s" "drop i s"] by simp
    with f(3) k show False by simp
  qed
  then show "str_find PAGTAIL (take i s) = None" by (simp add: str_find_None_iff)
qed

lemma GetPackage_written:
  assumes "wf_package (p\<lparr>pag_content := []\<rparr>)" and "no_head n"
    and "length (n @ package_string p @ rest) < 2147483648"
  shows "GetPackage_data junk (n @ package_string p @ rest) =
    (case str_find PAGTAIL (pag_content p) of
       None \<Rightarrow> (Inr (Some p), rest)
     | Some i \<Rightarrow> (Inr (Some (p\<lparr>pag_content := take i (pag_content p)\<rparr>)),
         drop (i + 7) (pag_content p) @ PAGTAIL @ rest))"
proof (cases "str_find PAGTAIL (pag_content p)")
  case None
  then have "wf_package p" using assms(1) by (simp add: wf_package_def)
  from decode_package_written [OF this assms(2,3)] None show ?thesis by (simp add: decode_package_GetPackage)
next
  case (Some i)
  let ?q = "p\<lparr>pag_content := take i (pag_content p)\<rparr>" and ?r = "drop (i + 7) (pag_content p) @ PAGTAIL @ rest"
  note c = str_find_split [OF Some]
  have q: "package_string p @ rest = package_string ?q @ ?r"
    using arg_cong [OF c(2), of "\<lambda>t. t @ PAGTAIL @ rest"] by (simp add: package_string_def package_body_def)
  have wf: "wf_package ?q" using assms(1) c(1) by (simp add: wf_package_def)
  from decode_package_written [OF wf assms(2), of ?r junk] assms(3) Some q
  show ?thesis by (simp add: decode_package_GetPackage)
qed

interpretation pkg: framing package_string "decode_package junk" wf_package no_head 2147483648
  for junk :: "nat \<Rightarrow> int"
proof unfold_locales
  fix p n rest
  assume "wf_package p" "no_head n" "length (n @ package_string p @ rest) < 2147483648"
  then show "decode_package junk (n @ package_string p @ rest) = Some (p, rest)"
    by (rule decode_package_written)
next
  fix d p rest d2
  assume "decode_package junk d = Some (p, rest)" "length (d @ d2) < 2147483648"
  then show "decode_package junk (d @ d2) = Some (p, rest @ d2)"
    by (auto simp: decode_package_Some_iff cut_package_append)
next
  fix d p rest
  assume "decode_package junk d = Some (p, rest)" "length d < 2147483648"
  then show "length rest < length d"
    by (auto simp: decode_package_Some_iff dest: cut_package_shrinks)
next
  fix n
  assume "no_head n"
  then show "decode_package junk n = None"
    by (simp add: decode_package_def GetPackage_data_def no_head_def cut_package_no_head)
next
  show "no_head []" by (simp add: no_head_def)
qed

end
