(* ===== verification/EventFlags.thy ===== *)
theory EventFlags
  imports Prelude "HOL-Library.Word"
begin

unbundle bit_operations_syntax

text \<open>
  The flags of libevent's public headers (libevent/include/event2/), at the width they are
  passed with: event flags and the events of a bufferevent are \<open>short\<close>, options are \<open>int\<close> or
  \<open>unsigned\<close>. A caller combines flags with \<open>|\<close> and a callee tests them with \<open>&\<close>; the locale
  \<open>flag_family\<close> states when the tests read back exactly the flags combined, and every family
  of flags in the headers is an interpretation of it.
\<close>

section \<open>Combining and testing\<close>

text \<open>\<open>f | g | ...\<close>, and the test \<open>w & f\<close>.\<close>

definition combine :: "'a::len word list \<Rightarrow> 'a word" where
  "combine fs = fold (OR) fs 0"

definition has_flag :: "'a::len word \<Rightarrow> 'a word \<Rightarrow> bool" where
  "has_flag w f \<longleftrightarrow> w AND f \<noteq> 0"

lemma fold_or: "fold (OR) fs w = combine fs OR (w :: 'a::len word)"
proof (induction fs arbitrary: w)
  case Nil
  show ?case by (simp add: combine_def)
next
  case (Cons f fs)
  show ?case by (simp add: combine_def Cons.IH [of "f OR w"] Cons.IH [of f] ac_simps)
qed

lemma combine_Nil [simp]: "combine [] = 0"
  by (simp add: combine_def)

lemma combine_Cons [simp]: "combine (f # fs) = f OR combine fs"
  by (simp add: combine_def [of "f # fs"] fold_or ac_simps)

lemma has_flag_or: "has_flag (v OR w) f \<longleftrightarrow> has_flag v f \<or> has_flag (w :: 'a::len word) f"
proof -
  have "(v OR w) AND f = (v AND f) OR (w AND f)" by (simp add: bit.conj_disj_distrib2)
  moreover have "x OR y = 0 \<longleftrightarrow> x = 0 \<and> y = 0" for x y :: "'a word"
    by (metis or.right_idem or.left_neutral or.right_neutral)
  ultimately show ?thesis by (simp add: has_flag_def)
qed

lemma has_flag_combine: "has_flag (combine fs) f \<longleftrightarrow> (\<exists>g \<in> set fs. has_flag g f)"
  by (induction fs) (auto simp: has_flag_or, simp_all add: has_flag_def)

text \<open>Flags that are not zero and share no bit.\<close>

definition disjoint_flags :: "'a::len word list \<Rightarrow> bool" where
  "disjoint_flags fs \<longleftrightarrow> list_all (\<lambda>f. f \<noteq> 0) fs \<and> sorted_wrt (\<lambda>f g. f AND g = 0) fs"

lemma disjoint_flags_simps [simp]:
  "disjoint_flags []"
  "disjoint_flags (f # fs) \<longleftrightarrow> f \<noteq> 0 \<and> list_all (\<lambda>g. f AND g = 0) fs \<and> disjoint_flags fs"
  by (auto simp: disjoint_flags_def list_all_iff)

locale flag_family =
  fixes flags :: "'a::len word list"
  assumes disjoint: "disjoint_flags flags"
begin

lemma has_flag_iff: "f \<in> set flags \<Longrightarrow> g \<in> set flags \<Longrightarrow> has_flag g f \<longleftrightarrow> g = f"
proof -
  have "f \<in> set fs \<Longrightarrow> g \<in> set fs \<Longrightarrow> disjoint_flags fs \<Longrightarrow> has_flag g f \<longleftrightarrow> g = f" for fs
    by (induction fs) (auto simp: has_flag_def list_all_iff and.commute)
  then show "f \<in> set flags \<Longrightarrow> g \<in> set flags \<Longrightarrow> has_flag g f \<longleftrightarrow> g = f" using disjoint by blast
qed

lemma decode: "set fs \<subseteq> set flags \<Longrightarrow> f \<in> set flags \<Longrightarrow> has_flag (combine fs) f \<longleftrightarrow> f \<in> set fs"
  using has_flag_iff [of f] by (auto simp: has_flag_combine)

lemma combine_inj:
  "set fs \<subseteq> set flags \<Longrightarrow> set gs \<subseteq> set flags \<Longrightarrow> combine fs = combine gs \<Longrightarrow> set fs = set gs"
  using decode by (metis subset_antisym subsetD subsetI)

end

section \<open>Event flags (event2/event.h, lines 919-954)\<close>

definition EV_TIMEOUT :: "16 word" where "EV_TIMEOUT = 0x01"
definition EV_READ :: "16 word" where "EV_READ = 0x02"
definition EV_WRITE :: "16 word" where "EV_WRITE = 0x04"
definition EV_SIGNAL :: "16 word" where "EV_SIGNAL = 0x08"
definition EV_PERSIST :: "16 word" where "EV_PERSIST = 0x10"
definition EV_ET :: "16 word" where "EV_ET = 0x20"
definition EV_FINALIZE :: "16 word" where "EV_FINALIZE = 0x40"
definition EV_CLOSED :: "16 word" where "EV_CLOSED = 0x80"

definition event_flags :: "16 word list" where
  "event_flags = [EV_TIMEOUT, EV_READ, EV_WRITE, EV_SIGNAL, EV_PERSIST, EV_ET, EV_FINALIZE, EV_CLOSED]"

lemmas event_flag_defs = event_flags_def EV_TIMEOUT_def EV_READ_def EV_WRITE_def EV_SIGNAL_def
  EV_PERSIST_def EV_ET_def EV_FINALIZE_def EV_CLOSED_def

interpretation ev_flag: flag_family event_flags
  by unfold_locales (simp add: event_flag_defs)

text \<open>Flags of the event loop, of the counts, and of a base (lines 413-419, 501-574, 796-804).\<close>

definition EVLOOP_ONCE :: "32 word" where "EVLOOP_ONCE = 0x01"
definition EVLOOP_NONBLOCK :: "32 word" where "EVLOOP_NONBLOCK = 0x02"
definition EVLOOP_NO_EXIT_ON_EMPTY :: "32 word" where "EVLOOP_NO_EXIT_ON_EMPTY = 0x04"

definition EVENT_BASE_COUNT_ACTIVE :: "32 word" where "EVENT_BASE_COUNT_ACTIVE = 1"
definition EVENT_BASE_COUNT_VIRTUAL :: "32 word" where "EVENT_BASE_COUNT_VIRTUAL = 2"
definition EVENT_BASE_COUNT_ADDED :: "32 word" where "EVENT_BASE_COUNT_ADDED = 4"

datatype event_method_feature = EV_FEATURE_ET | EV_FEATURE_O1 | EV_FEATURE_FDS | EV_FEATURE_EARLY_CLOSE

fun feature_bit :: "event_method_feature \<Rightarrow> 32 word" where
  "feature_bit EV_FEATURE_ET = 0x01"
| "feature_bit EV_FEATURE_O1 = 0x02"
| "feature_bit EV_FEATURE_FDS = 0x04"
| "feature_bit EV_FEATURE_EARLY_CLOSE = 0x08"

datatype event_base_config_flag =
    EVENT_BASE_FLAG_NOLOCK
  | EVENT_BASE_FLAG_IGNORE_ENV
  | EVENT_BASE_FLAG_STARTUP_IOCP
  | EVENT_BASE_FLAG_NO_CACHE_TIME
  | EVENT_BASE_FLAG_EPOLL_USE_CHANGELIST
  | EVENT_BASE_FLAG_PRECISE_TIMER

fun base_flag_bit :: "event_base_config_flag \<Rightarrow> 32 word" where
  "base_flag_bit EVENT_BASE_FLAG_NOLOCK = 0x01"
| "base_flag_bit EVENT_BASE_FLAG_IGNORE_ENV = 0x02"
| "base_flag_bit EVENT_BASE_FLAG_STARTUP_IOCP = 0x04"
| "base_flag_bit EVENT_BASE_FLAG_NO_CACHE_TIME = 0x08"
| "base_flag_bit EVENT_BASE_FLAG_EPOLL_USE_CHANGELIST = 0x10"
| "base_flag_bit EVENT_BASE_FLAG_PRECISE_TIMER = 0x20"

interpretation ev_loop: flag_family "[EVLOOP_ONCE, EVLOOP_NONBLOCK, EVLOOP_NO_EXIT_ON_EMPTY]"
  by unfold_locales (simp add: EVLOOP_ONCE_def EVLOOP_NONBLOCK_def EVLOOP_NO_EXIT_ON_EMPTY_def)

interpretation ev_count: flag_family
    "[EVENT_BASE_COUNT_ACTIVE, EVENT_BASE_COUNT_VIRTUAL, EVENT_BASE_COUNT_ADDED]"
  by unfold_locales
     (simp add: EVENT_BASE_COUNT_ACTIVE_def EVENT_BASE_COUNT_VIRTUAL_def EVENT_BASE_COUNT_ADDED_def)

interpretation ev_feature: flag_family
    "map feature_bit [EV_FEATURE_ET, EV_FEATURE_O1, EV_FEATURE_FDS, EV_FEATURE_EARLY_CLOSE]"
  by unfold_locales simp

interpretation ev_base_flag: flag_family
    "map base_flag_bit [EVENT_BASE_FLAG_NOLOCK, EVENT_BASE_FLAG_IGNORE_ENV, EVENT_BASE_FLAG_STARTUP_IOCP,
       EVENT_BASE_FLAG_NO_CACHE_TIME, EVENT_BASE_FLAG_EPOLL_USE_CHANGELIST, EVENT_BASE_FLAG_PRECISE_TIMER]"
  by unfold_locales simp

section \<open>Events and options of a bufferevent (event2/bufferevent.h)\<close>

definition BEV_EVENT_READING :: "16 word" where "BEV_EVENT_READING = 0x01"
definition BEV_EVENT_WRITING :: "16 word" where "BEV_EVENT_WRITING = 0x02"
definition BEV_EVENT_EOF :: "16 word" where "BEV_EVENT_EOF = 0x10"
definition BEV_EVENT_ERROR :: "16 word" where "BEV_EVENT_ERROR = 0x20"
definition BEV_EVENT_TIMEOUT :: "16 word" where "BEV_EVENT_TIMEOUT = 0x40"
definition BEV_EVENT_CONNECTED :: "16 word" where "BEV_EVENT_CONNECTED = 0x80"

definition bufferevent_events :: "16 word list" where
  "bufferevent_events = [BEV_EVENT_READING, BEV_EVENT_WRITING, BEV_EVENT_EOF, BEV_EVENT_ERROR,
     BEV_EVENT_TIMEOUT, BEV_EVENT_CONNECTED]"

lemmas bev_event_defs = bufferevent_events_def BEV_EVENT_READING_def BEV_EVENT_WRITING_def
  BEV_EVENT_EOF_def BEV_EVENT_ERROR_def BEV_EVENT_TIMEOUT_def BEV_EVENT_CONNECTED_def

interpretation bev_event: flag_family bufferevent_events
  by unfold_locales (simp add: bev_event_defs)

datatype bufferevent_options =
    BEV_OPT_CLOSE_ON_FREE
  | BEV_OPT_THREADSAFE
  | BEV_OPT_DEFER_CALLBACKS
  | BEV_OPT_UNLOCK_CALLBACKS

fun bev_option_bit :: "bufferevent_options \<Rightarrow> 32 word" where
  "bev_option_bit BEV_OPT_CLOSE_ON_FREE = push_bit 0 1"
| "bev_option_bit BEV_OPT_THREADSAFE = push_bit 1 1"
| "bev_option_bit BEV_OPT_DEFER_CALLBACKS = push_bit 2 1"
| "bev_option_bit BEV_OPT_UNLOCK_CALLBACKS = push_bit 3 1"

definition bev_options :: "32 word list" where
  "bev_options = map bev_option_bit [BEV_OPT_CLOSE_ON_FREE, BEV_OPT_THREADSAFE,
     BEV_OPT_DEFER_CALLBACKS, BEV_OPT_UNLOCK_CALLBACKS]"

interpretation bev_opt: flag_family bev_options
  by unfold_locales (simp add: bev_options_def push_bit_eq_mult)

section \<open>Options of a listener (event2/listener.h, lines 60-111)\<close>

definition LEV_OPT_LEAVE_SOCKETS_BLOCKING :: "32 word" where "LEV_OPT_LEAVE_SOCKETS_BLOCKING = push_bit 0 1"
definition LEV_OPT_CLOSE_ON_FREE :: "32 word" where "LEV_OPT_CLOSE_ON_FREE = push_bit 1 1"
definition LEV_OPT_CLOSE_ON_EXEC :: "32 word" where "LEV_OPT_CLOSE_ON_EXEC = push_bit 2 1"
definition LEV_OPT_REUSEABLE :: "32 word" where "LEV_OPT_REUSEABLE = push_bit 3 1"
definition LEV_OPT_THREADSAFE :: "32 word" where "LEV_OPT_THREADSAFE = push_bit 4 1"
definition LEV_OPT_DISABLED :: "32 word" where "LEV_OPT_DISABLED = push_bit 5 1"
definition LEV_OPT_DEFERRED_ACCEPT :: "32 word" where "LEV_OPT_DEFERRED_ACCEPT = push_bit 6 1"
definition LEV_OPT_REUSEABLE_PORT :: "32 word" where "LEV_OPT_REUSEABLE_PORT = push_bit 7 1"
definition LEV_OPT_BIND_IPV6ONLY :: "32 word" where "LEV_OPT_BIND_IPV6ONLY = push_bit 8 1"

definition listener_flags :: "32 word list" where
  "listener_flags = [LEV_OPT_LEAVE_SOCKETS_BLOCKING, LEV_OPT_CLOSE_ON_FREE, LEV_OPT_CLOSE_ON_EXEC,
     LEV_OPT_REUSEABLE, LEV_OPT_THREADSAFE, LEV_OPT_DISABLED, LEV_OPT_DEFERRED_ACCEPT,
     LEV_OPT_REUSEABLE_PORT, LEV_OPT_BIND_IPV6ONLY]"

lemmas listener_flag_defs = listener_flags_def LEV_OPT_LEAVE_SOCKETS_BLOCKING_def
  LEV_OPT_CLOSE_ON_FREE_def LEV_OPT_CLOSE_ON_EXEC_def LEV_OPT_REUSEABLE_def LEV_OPT_THREADSAFE_def
  LEV_OPT_DISABLED_def LEV_OPT_DEFERRED_ACCEPT_def LEV_OPT_REUSEABLE_PORT_def LEV_OPT_BIND_IPV6ONLY_def

interpretation lev_opt: flag_family listener_flags
  by unfold_locales (simp add: listener_flag_defs push_bit_eq_mult)

section \<open>States of an event (event2/event_struct.h, lines 57-66)\<close>

definition EVLIST_TIMEOUT :: "16 word" where "EVLIST_TIMEOUT = 0x01"
definition EVLIST_INSERTED :: "16 word" where "EVLIST_INSERTED = 0x02"
definition EVLIST_SIGNAL :: "16 word" where "EVLIST_SIGNAL = 0x04"
definition EVLIST_ACTIVE :: "16 word" where "EVLIST_ACTIVE = 0x08"
definition EVLIST_INTERNAL :: "16 word" where "EVLIST_INTERNAL = 0x10"
definition EVLIST_ACTIVE_LATER :: "16 word" where "EVLIST_ACTIVE_LATER = 0x20"
definition EVLIST_FINALIZING :: "16 word" where "EVLIST_FINALIZING = 0x40"
definition EVLIST_INIT :: "16 word" where "EVLIST_INIT = 0x80"
definition EVLIST_ALL :: "16 word" where "EVLIST_ALL = 0xff"

definition evlist_flags :: "16 word list" where
  "evlist_flags = [EVLIST_TIMEOUT, EVLIST_INSERTED, EVLIST_SIGNAL, EVLIST_ACTIVE, EVLIST_INTERNAL,
     EVLIST_ACTIVE_LATER, EVLIST_FINALIZING, EVLIST_INIT]"

lemmas evlist_defs = evlist_flags_def EVLIST_TIMEOUT_def EVLIST_INSERTED_def EVLIST_SIGNAL_def
  EVLIST_ACTIVE_def EVLIST_INTERNAL_def EVLIST_ACTIVE_LATER_def EVLIST_FINALIZING_def EVLIST_INIT_def

interpretation ev_list: flag_family evlist_flags
  by unfold_locales (simp add: evlist_defs)

lemma EVLIST_ALL_combine: "combine evlist_flags = EVLIST_ALL"
  by (simp add: evlist_defs EVLIST_ALL_def)

end
