(* ===== verification/Libraries.thy ===== *)
theory Libraries
  imports DataStructure EventFlags
begin

text \<open>
  The code the program calls and this repository does not hold: jsoncpp, the \<open>BaseLib\<close>
  helpers, the MySQL client library, the sockets of the operating system, and what the C++
  implementation leaves indeterminate. Every such function is a field of a record, and the
  record is an argument of every definition that uses it. Nothing is assumed about the
  fields here; a theorem that relies on documented behaviour states it as a hypothesis.

  The file system is what \<open>std::fstream\<close> reads and writes: a map from paths to contents.
\<close>

type_synonym fsys = "string \<rightharpoonup> string"

definition fs_append :: "fsys \<Rightarrow> string \<Rightarrow> string \<Rightarrow> fsys" where
  "fs_append fs p s = fs(p \<mapsto> (case fs p of None \<Rightarrow> s | Some c \<Rightarrow> c @ s))"

lemma fs_append_same [simp]: "fs_append fs p s p = Some ((case fs p of None \<Rightarrow> [] | Some c \<Rightarrow> c) @ s)"
  by (simp add: fs_append_def split: option.split)

lemma fs_append_other [simp]: "q \<noteq> p \<Longrightarrow> fs_append fs p s q = fs q"
  by (simp add: fs_append_def)

text \<open>
  jsoncpp. \<open>js_index\<close> is the non-const \<open>operator[]\<close>: it yields the member and the value
  as it is afterwards, because a missing member is inserted as null; \<open>None\<close> is the
  exception thrown for a value that is no object. \<open>js_put\<close> is an assignment through
  \<open>operator[]\<close>. \<open>js_write\<close> is the writer with an empty indentation,
  \<open>js_write_indented\<close> the one with the default settings.
\<close>

record 'j jsonlib =
  js_null :: 'j
  js_of_string :: "string \<Rightarrow> 'j"
  js_of_int :: "int \<Rightarrow> 'j"
  js_parse :: "string \<Rightarrow> 'j option"
  js_write :: "'j \<Rightarrow> string"
  js_write_indented :: "'j \<Rightarrow> string"
  js_index :: "'j \<Rightarrow> string \<Rightarrow> ('j \<times> 'j) option"
  js_put :: "'j \<Rightarrow> string \<Rightarrow> 'j \<Rightarrow> 'j option"
  js_asString :: "'j \<Rightarrow> string option"
  js_asInt :: "'j \<Rightarrow> int option"
  js_isNull :: "'j \<Rightarrow> bool"

text \<open>A stored result set of MySQL: its field names and its rows, a NULL column as \<open>None\<close>.\<close>

record myres =
  res_fields :: "string list"
  res_rows :: "string option list list"

record 'd mysqllib =
  my_raw :: 'd
  my_library_init :: int
  my_init :: "'d \<Rightarrow> bool \<times> 'd"
  my_options :: "'d \<Rightarrow> int \<times> 'd"
  my_real_connect ::
    "string \<Rightarrow> string \<Rightarrow> string \<Rightarrow> string \<Rightarrow> int \<Rightarrow> 'd \<Rightarrow> bool \<times> 'd"
  my_close :: "'d \<Rightarrow> 'd"
  my_query :: "string \<Rightarrow> 'd \<Rightarrow> int \<times> 'd"
  my_store_result :: "'d \<Rightarrow> myres option \<times> 'd"

text \<open>
  The rest of the environment. \<open>sock_send\<close> answers a \<open>send\<close> call: it sees every earlier
  call with its answer, so it can accept all bytes, some of them, or fail, differently each
  time. \<open>bufferevent_socket_new\<close> yields null or the bufferevent of a socket. \<open>heap_after\<close> are the bytes that follow a \<open>new char[]\<close> buffer in memory,
  \<open>junk_int\<close> the indeterminate values of uninitialised locals, \<open>no_return\<close> what a
  caller sees when a function of type \<open>int\<close> ends without a \<open>return\<close>.
\<close>

type_synonym send_call = "int \<times> string \<times> int"

record ('j, 'd) libs =
  json :: "'j jsonlib"
  mysql :: "'d mysqllib"
  IsFileExist :: "fsys \<Rightarrow> string \<Rightarrow> bool"
  CxxCreateDirectory :: "fsys \<Rightarrow> string \<Rightarrow> fsys"
  CxxDeleteFile :: "fsys \<Rightarrow> string \<Rightarrow> fsys"
  CxxCopyFile :: "fsys \<Rightarrow> string \<Rightarrow> string \<Rightarrow> bool \<times> fsys"
  can_append :: "fsys \<Rightarrow> string \<Rightarrow> bool"
  StringReplaceAll :: "string \<Rightarrow> string \<Rightarrow> string \<Rightarrow> string"
  GetModuleFullPath :: string
  ReadString :: "string \<Rightarrow> string \<Rightarrow> string \<Rightarrow> string \<Rightarrow> string"
  ReadInteger :: "string \<Rightarrow> string \<Rightarrow> string \<Rightarrow> int \<Rightarrow> int"
  PATH_SEPARATOR :: char
  PATH_SEP_STRING :: string
  WIN32 :: bool
  SERVER :: bool
  sock_send :: "send_call list \<Rightarrow> int \<Rightarrow> string \<Rightarrow> int"
  bufferevent_socket_new :: "int \<Rightarrow> 32 word \<Rightarrow> int option"
  heap_after :: string
  junk_int :: "nat \<Rightarrow> int"
  no_return :: int

section \<open>Two-level JSON access\<close>

text \<open>\<open>v[k1][k2]\<close> and \<open>v[k1][k2] = x\<close>, as the program writes them.\<close>

definition json_at2 :: "'j jsonlib \<Rightarrow> 'j \<Rightarrow> string \<Rightarrow> string \<Rightarrow> ('j \<times> 'j) option" where
  "json_at2 J v k1 k2 =
     (case js_index J v k1 of None \<Rightarrow> None
      | Some (v1, m) \<Rightarrow>
        (case js_index J m k2 of None \<Rightarrow> None
         | Some (m', x) \<Rightarrow>
           (case js_put J v1 k1 m' of None \<Rightarrow> None | Some v2 \<Rightarrow> Some (v2, x))))"

definition json_set2 :: "'j jsonlib \<Rightarrow> 'j \<Rightarrow> string \<Rightarrow> string \<Rightarrow> 'j \<Rightarrow> 'j option" where
  "json_set2 J v k1 k2 x =
     (case js_index J v k1 of None \<Rightarrow> None
      | Some (v1, m) \<Rightarrow>
        (case js_put J m k2 x of None \<Rightarrow> None | Some m' \<Rightarrow> js_put J v1 k1 m'))"

text \<open>\<open>v[k].asString()\<close>, \<open>v[k1][k2].asString()\<close> and their \<open>asInt\<close> forms.\<close>

definition json_str :: "'j jsonlib \<Rightarrow> 'j \<Rightarrow> string \<Rightarrow> ('j \<times> string) option" where
  "json_str J v k =
     (case js_index J v k of None \<Rightarrow> None
      | Some (v', x) \<Rightarrow> map_option (Pair v') (js_asString J x))"

definition json_int :: "'j jsonlib \<Rightarrow> 'j \<Rightarrow> string \<Rightarrow> ('j \<times> int) option" where
  "json_int J v k =
     (case js_index J v k of None \<Rightarrow> None
      | Some (v', x) \<Rightarrow> map_option (Pair v') (js_asInt J x))"

definition json_str2 :: "'j jsonlib \<Rightarrow> 'j \<Rightarrow> string \<Rightarrow> string \<Rightarrow> ('j \<times> string) option" where
  "json_str2 J v k1 k2 =
     (case json_at2 J v k1 k2 of None \<Rightarrow> None
      | Some (v', x) \<Rightarrow> map_option (Pair v') (js_asString J x))"

definition json_int2 :: "'j jsonlib \<Rightarrow> 'j \<Rightarrow> string \<Rightarrow> string \<Rightarrow> ('j \<times> int) option" where
  "json_int2 J v k1 k2 =
     (case json_at2 J v k1 k2 of None \<Rightarrow> None
      | Some (v', x) \<Rightarrow> map_option (Pair v') (js_asInt J x))"

text \<open>\<open>v[k].isNull()\<close>.\<close>

definition json_null :: "'j jsonlib \<Rightarrow> 'j \<Rightarrow> string \<Rightarrow> ('j \<times> bool) option" where
  "json_null J v k =
     (case js_index J v k of None \<Rightarrow> None | Some (v', x) \<Rightarrow> Some (v', js_isNull J x))"

text \<open>
  Documented behaviour of jsoncpp objects, as a hypothesis for the theorems that need it:
  objects are what null turns into when a member is assigned, a member reads back as it was
  written, and writing one member leaves the others alone. \<open>is_obj\<close> names the values that
  are objects.
\<close>

definition json_objects :: "'j jsonlib \<Rightarrow> ('j \<Rightarrow> bool) \<Rightarrow> bool" where
  "json_objects J is_obj \<longleftrightarrow>
     (\<forall>v k x. (is_obj v \<or> v = js_null J) \<longrightarrow>
        (\<exists>w. js_put J v k x = Some w \<and> is_obj w \<and> js_index J w k = Some (w, x) \<and>
          (\<forall>k' y. k' \<noteq> k \<longrightarrow> js_index J v k' = Some (v, y) \<longrightarrow> js_index J w k' = Some (w, y)))) \<and>
     (\<forall>s. js_asString J (js_of_string J s) = Some s) \<and>
     (\<forall>i. js_asInt J (js_of_int J i) = Some i)"

lemma json_objects_set:
  assumes "json_objects J is_obj" and "is_obj v \<or> v = js_null J"
  shows "\<exists>w. js_put J v k x = Some w \<and> is_obj w \<and> js_index J w k = Some (w, x)"
  using assms(1) [unfolded json_objects_def, THEN conjunct1, rule_format, OF assms(2), of k x]
  by (elim exE conjE) (intro exI conjI)

lemma json_objects_keep:
  assumes "json_objects J is_obj" and "is_obj v \<or> v = js_null J" and "js_put J v k x = Some w"
    and "k' \<noteq> k" and "js_index J v k' = Some (v, y)"
  shows "js_index J w k' = Some (w, y)"
  using assms(1) [unfolded json_objects_def, THEN conjunct1, rule_format, OF assms(2), of k x] assms(3-5)
  by (elim exE conjE) simp

lemma json_objects_values:
  assumes "json_objects J is_obj"
  shows "js_asString J (js_of_string J s) = Some s" and "js_asInt J (js_of_int J i) = Some i"
  using assms by (auto simp: json_objects_def)

end
