(* ===== verification/DataHelper.thy ===== *)
theory DataHelper
  imports Libraries
begin

text \<open>
  Src/DataHelp.cpp: the singleton that owns the MySQL connection. Its state is the flag
  \<open>m_bConnect\<close> and the client library's handle \<open>m_mydata\<close>. \<open>sql_log\<close> is not in the
  program: it records the statements handed to \<open>mysql_query\<close>, in order, so that theorems can
  speak of them. The mutex of the class serialises its methods; each method here is one
  uninterrupted step.
\<close>

record 'd datahelper =
  m_bConnect :: bool
  m_mydata :: 'd
  sql_log :: "string list"

definition initMysql :: "('j, 'd) libs \<Rightarrow> ('d datahelper, int) prog" where
  "initMysql L = (\<lambda>h.
     case my_init (mysql L) (m_mydata h) of
       (True, m) \<Rightarrow> (Inr 0, h\<lparr>m_mydata := snd (my_options (mysql L) m)\<rparr>)
     | (False, m) \<Rightarrow> (Inr (-1), h\<lparr>m_mydata := m\<rparr>))"

definition DataHelper_new :: "('j, 'd) libs \<Rightarrow> 'd datahelper" where
  "DataHelper_new L =
     (let h = \<lparr>m_bConnect = False, m_mydata = my_raw (mysql L), sql_log = []\<rparr>
      in if my_library_init (mysql L) = 0 then snd (initMysql L h) else h)"

definition IsConnect :: "'d datahelper \<Rightarrow> bool" where
  "IsConnect h = m_bConnect h"

definition Connect :: "('j, 'd) libs \<Rightarrow> ('d datahelper, int) prog" where
  "Connect L = (\<lambda>h.
     if IsConnect h then (Inr 0, h)
     else
       let ini = c_str (GetModuleFullPath L @ CHR 0x5C # ''config.ini'');
           strIp = ReadString L ini ''Database'' ''ipaddr'' ''127.0.0.1'';
           strAccount = ReadString L ini ''Database'' ''account'' ''root'';
           strPassword = ReadString L ini ''Database'' ''password'' ''123123'';
           strName = ReadString L ini ''Database'' ''name'' ''test'';
           port = ReadInteger L ini ''Database'' ''port'' 3306
       in case my_real_connect (mysql L) (c_str strIp) (c_str strAccount) (c_str strPassword)
                 (c_str strName) port (m_mydata h) of
            (True, m) \<Rightarrow> (Inr 0, h\<lparr>m_mydata := m, m_bConnect := True\<rparr>)
          | (False, m) \<Rightarrow> (Inr (-1), h\<lparr>m_mydata := my_close (mysql L) m\<rparr>))"

text \<open>\<open>mysql_query\<close> on the handle; the statement is passed as a C string.\<close>

definition run_query :: "('j, 'd) libs \<Rightarrow> string \<Rightarrow> ('d datahelper, int) prog" where
  "run_query L sqlstr = (\<lambda>h.
     case my_query (mysql L) (c_str sqlstr) (m_mydata h) of
       (r, m) \<Rightarrow> (Inr r, h\<lparr>m_mydata := m, sql_log := sql_log h @ [c_str sqlstr]\<rparr>))"

definition connect_if_needed :: "('j, 'd) libs \<Rightarrow> ('d datahelper, unit) prog" where
  "connect_if_needed L = (\<lambda>h. if IsConnect h then (Inr (), h) else (Inr (), snd (Connect L h)))"

definition excuteSql :: "('j, 'd) libs \<Rightarrow> string \<Rightarrow> ('d datahelper, int) prog" where
  "excuteSql L sqlstr =
     andThen (connect_if_needed L) (\<lambda>_.
     andThen (run_query L sqlstr) (\<lambda>r.
     if r = 0 then ret 0 else ret (-1)))"

definition store_result :: "('j, 'd) libs \<Rightarrow> ('d datahelper, myres option) prog" where
  "store_result L = (\<lambda>h.
     case my_store_result (mysql L) (m_mydata h) of (r, m) \<Rightarrow> (Inr r, h\<lparr>m_mydata := m\<rparr>))"

text \<open>
  Printing a result set: the column names, then the rows, each value followed by two tabs.
  Streaming a NULL column, which MySQL returns as a null \<open>char*\<close>, is undefined.
\<close>

definition TAB2 :: string where
  "TAB2 = [CHR 0x09, CHR 0x09]"

definition NEWLINE :: string where
  "NEWLINE = [CHR 0x0A]"

definition print_header :: "string list \<Rightarrow> string" where
  "print_header names = concat (map (\<lambda>f. f @ TAB2) names) @ NEWLINE"

fun print_columns :: "nat \<Rightarrow> string option list \<Rightarrow> error + string" where
  "print_columns 0 row = Inr NEWLINE"
| "print_columns (Suc n) [] = Inl (UB Buffer_overflow)"
| "print_columns (Suc n) (None # row) = Inl (UB Null_char_to_stream)"
| "print_columns (Suc n) (Some x # row) =
     (case print_columns n row of Inl e \<Rightarrow> Inl e | Inr t \<Rightarrow> Inr (x @ TAB2 @ t))"

fun print_rows :: "nat \<Rightarrow> string option list list \<Rightarrow> error + string" where
  "print_rows n [] = Inr []"
| "print_rows n (row # rows) =
     (case print_columns n row of Inl e \<Rightarrow> Inl e
      | Inr t \<Rightarrow> (case print_rows n rows of Inl e \<Rightarrow> Inl e | Inr u \<Rightarrow> Inr (t @ u)))"

text \<open>
  \<open>Display(sqlstr, strRt)\<close> answers its return value and the new \<open>strRt\<close>. On success the
  function ends without a \<open>return\<close>, so its value is indeterminate. A statement that yields no
  result set leaves \<open>result\<close> null, which the next call dereferences.
\<close>

definition Display :: "('j, 'd) libs \<Rightarrow> string \<Rightarrow> string \<Rightarrow> ('d datahelper, int \<times> string) prog" where
  "Display L sqlstr strRt =
     andThen (connect_if_needed L) (\<lambda>_.
     andThen (run_query L sqlstr) (\<lambda>r.
     if r \<noteq> 0 then ret (-1, strRt)
     else
       andThen (store_result L) (\<lambda>result.
       case result of
         None \<Rightarrow> raise (UB Null_pointer)
       | Some res \<Rightarrow>
           andThen (of_result (print_rows (length (res_fields res)) (res_rows res))) (\<lambda>t.
           ret (no_return L, print_header (res_fields res) @ t)))))"

definition IsExistData :: "('j, 'd) libs \<Rightarrow> string \<Rightarrow> ('d datahelper, bool) prog" where
  "IsExistData L strsql =
     andThen (run_query L strsql) (\<lambda>r.
     if r \<noteq> 0 then ret False
     else
       andThen (store_result L) (\<lambda>result.
       case result of
         None \<Rightarrow> raise (UB Null_pointer)
       | Some res \<Rightarrow> ret (0 < c_int (int (length (res_rows res))))))"

definition DataHelper_close :: "('j, 'd) libs \<Rightarrow> 'd datahelper \<Rightarrow> 'd datahelper" where
  "DataHelper_close L h = h\<lparr>m_bConnect := False, m_mydata := my_close (mysql L) (m_mydata h)\<rparr>"

section \<open>What a call leaves in the log and in the flag\<close>

lemmas db_defs = IsConnect_def Connect_def run_query_def connect_if_needed_def store_result_def
  Let_def

lemma Connect_log: "sql_log (snd (Connect L h)) = sql_log h"
  by (simp add: db_defs split: prod.split bool.split)

lemma Connect_total: "\<exists>r. fst (Connect L h) = Inr r \<and> (r = 0 \<longleftrightarrow> m_bConnect (snd (Connect L h)))"
  by (simp add: db_defs split: prod.split bool.split)

lemma connect_if_needed_total [simp]: "fst (connect_if_needed L h) = Inr ()"
  by (simp add: connect_if_needed_def)

lemma connect_if_needed_log: "sql_log (snd (connect_if_needed L h)) = sql_log h"
  by (simp add: connect_if_needed_def Connect_log)

lemma connect_if_neededE:
  obtains h1 where "connect_if_needed L h = (Inr (), h1)" and "sql_log h1 = sql_log h"
    and "m_bConnect h \<Longrightarrow> h1 = h"
  using connect_if_needed_log [of L h]
  by (simp add: connect_if_needed_def IsConnect_def split: if_splits)

lemma run_query_total: "\<exists>r. fst (run_query L s h) = Inr r"
  by (simp add: run_query_def split: prod.split)

lemma run_query_log: "sql_log (snd (run_query L s h)) = sql_log h @ [c_str s]"
  by (simp add: run_query_def split: prod.split)

lemma store_result_log [simp]: "sql_log (snd (store_result L h)) = sql_log h"
  by (simp add: store_result_def split: prod.split)

lemma excuteSql_total: "fst (excuteSql L s h) \<in> {Inr 0, Inr (-1)}"
  by (simp add: excuteSql_def prog_simps connect_if_needed_def run_query_def split: prod.split)

lemma excuteSql_log: "sql_log (snd (excuteSql L s h)) = sql_log h @ [c_str s]"
  by (rule connect_if_neededE [of L h])
    (simp add: excuteSql_def prog_simps run_query_def split: prod.split)

lemma Display_log: "sql_log (snd (Display L s out h)) = sql_log h @ [c_str s]"
  by (rule connect_if_neededE [of L h])
    (simp add: Display_def prog_simps run_query_def store_result_def
      split: prod.split option.split sum.split)

lemma IsExistData_log: "sql_log (snd (IsExistData L s h)) = sql_log h @ [c_str s]"
  by (simp add: IsExistData_def prog_simps run_query_def store_result_def
      split: prod.split option.split)

lemma IsExistData_flag: "m_bConnect (snd (IsExistData L s h)) = m_bConnect h"
  by (simp add: IsExistData_def prog_simps run_query_def store_result_def
      split: prod.split option.split)

lemmas db_logs = excuteSql_log Display_log IsExistData_log

text \<open>A printed row never fails when it has a value in every column.\<close>

lemma print_columns_ok:
  "length row = n \<Longrightarrow> None \<notin> set row \<Longrightarrow>
     print_columns n row = Inr (concat (map (\<lambda>x. the x @ TAB2) row) @ NEWLINE)"
  by (induction n row rule: print_columns.induct) (auto split: sum.splits)

lemma print_columns_null:
  "length row = n \<Longrightarrow> None \<in> set row \<Longrightarrow> print_columns n row = Inl (UB Null_char_to_stream)"
  by (induction n row rule: print_columns.induct) (auto split: sum.splits)

lemma print_rows_ok:
  "\<forall>row \<in> set rows. length row = n \<and> None \<notin> set row \<Longrightarrow>
     print_rows n rows =
       Inr (concat (map (\<lambda>row. concat (map (\<lambda>x. the x @ TAB2) row) @ NEWLINE) rows))"
  by (induction rows) (auto simp: print_columns_ok)

lemma print_rows_null:
  assumes "\<forall>row \<in> set rows. length row = n" and "\<exists>row \<in> set rows. None \<in> set row"
  shows "print_rows n rows = Inl (UB Null_char_to_stream)"
  using assms
proof (induction rows)
  case Nil
  then show ?case by simp
next
  case (Cons row rows)
  show ?case
  proof (cases "None \<in> set row")
    case True
    with Cons.prems show ?thesis by (simp add: print_columns_null)
  next
    case False
    with Cons have "print_rows n rows = Inl (UB Null_char_to_stream)" by auto
    with False Cons.prems show ?thesis by (simp add: print_columns_ok)
  qed
qed

text \<open>No fuel is spent here.\<close>

lemma print_columns_fuel: "print_columns n row \<noteq> Inl Out_of_fuel"
  by (induction n row rule: print_columns.induct) (auto split: sum.split)

lemma print_rows_fuel: "print_rows n rows \<noteq> Inl Out_of_fuel"
  by (induction rows) (auto split: sum.split simp: print_columns_fuel)

lemma fuel_free_steps [fuel_free_intros]:
  "fuel_free (connect_if_needed L)" "fuel_free (run_query L s)" "fuel_free (store_result L)"
  by (simp_all add: fuel_free_def connect_if_needed_def run_query_def store_result_def
      split: prod.split)

lemma fuel_free_db [fuel_free_intros]:
  "fuel_free (excuteSql L s)" "fuel_free (Display L s out)" "fuel_free (IsExistData L s)"
  unfolding excuteSql_def Display_def IsExistData_def
  by (intro fuel_free_intros fuel_free_of_result print_rows_fuel; simp)+

end
