(* ===== verification/CWorker.thy ===== *)
theory CWorker
  imports Framing DataHelper
begin

text \<open>
  The sending half of \<open>CWorker\<close> (common/function.cpp): its fields, the packages it writes
  and how messages and files are cut into pages, and its small helpers. Sending only reads
  the worker, so these operations are computations over the \<open>world\<close>: the file system, the
  \<open>send\<close> calls made so far with their answers, and the database.
\<close>

record 'd world =
  w_fs :: fsys
  w_sends :: "send_call list"
  w_db :: "'d datahelper"

text \<open>
  \<open>m_bev\<close> is the \<open>bufferevent\<close> pointer: \<open>None\<close> is null, otherwise the socket that
  \<open>bufferevent_getfd\<close> answers.
\<close>

record cworker =
  m_cmdFinishFlag :: int
  m_bev :: "int option"
  m_strData :: string
  m_strMsgContent :: string
  m_strIP :: string

definition CWorker_new :: cworker where
  "CWorker_new = \<lparr>m_cmdFinishFlag = -1, m_bev = None, m_strData = [], m_strMsgContent = [],
     m_strIP = []\<rparr>"

definition SetBev :: "int option \<Rightarrow> 'a cworker_scheme \<Rightarrow> 'a cworker_scheme" where
  "SetBev bev w = w\<lparr>m_bev := bev\<rparr>"

definition SetIP :: "string \<Rightarrow> 'a cworker_scheme \<Rightarrow> 'a cworker_scheme" where
  "SetIP strIP w = w\<lparr>m_strIP := strIP\<rparr>"

definition GetIP :: "'a cworker_scheme \<Rightarrow> string" where
  "GetIP w = m_strIP w"

definition setCMDFinishFlag :: "int \<Rightarrow> 'a cworker_scheme \<Rightarrow> 'a cworker_scheme" where
  "setCMDFinishFlag flag w = w\<lparr>m_cmdFinishFlag := flag\<rparr>"

text \<open>
  \<open>waitCMDFinishFlag\<close> polls until another thread has stored a flag that is not negative.
  \<open>flags n\<close> is the value found at the n-th poll. The loop may run for ever: \<open>None\<close>.
\<close>

partial_function (option) wait_from :: "(nat \<Rightarrow> int) \<Rightarrow> nat \<Rightarrow> int option" where
  "wait_from flags n = (if flags n \<ge> 0 then Some (flags n) else wait_from flags (Suc n))"

definition waitCMDFinishFlag :: "(nat \<Rightarrow> int) \<Rightarrow> int option" where
  "waitCMDFinishFlag flags = wait_from flags 0"

text \<open>Severities of libevent's log and the line the program writes for one; the buffer holds
  511 bytes and the terminator.\<close>

definition EVENT_LOG_DEBUG :: int where "EVENT_LOG_DEBUG = 0"
definition EVENT_LOG_MSG :: int where "EVENT_LOG_MSG = 1"
definition EVENT_LOG_WARN :: int where "EVENT_LOG_WARN = 2"
definition EVENT_LOG_ERR :: int where "EVENT_LOG_ERR = 3"

definition severity_str :: "int \<Rightarrow> string" where
  "severity_str severity =
     (if severity = EVENT_LOG_DEBUG then ''debug''
      else if severity = EVENT_LOG_MSG then ''msg''
      else if severity = EVENT_LOG_WARN then ''warn''
      else if severity = EVENT_LOG_ERR then ''err''
      else ''???'')"

text \<open>\<open>log_callback\<close> appends the line to \<open>./log.txt\<close> when that file can be opened.\<close>

definition log_callback :: "('j, 'd) libs \<Rightarrow> int \<Rightarrow> string \<Rightarrow> fsys \<Rightarrow> fsys" where
  "log_callback L severity msg fs =
     (if can_append L fs ''./log.txt''
      then fs_append fs ''./log.txt''
        (take 511 (''['' @ severity_str severity @ '']:'' @ c_str msg @ NEWLINE))
      else fs)"

section \<open>JSON helpers\<close>

definition StringToJson :: "('j, 'd) libs \<Rightarrow> string \<Rightarrow> 'j option" where
  "StringToJson L strSoure = (if strSoure = [] then None else js_parse (json L) strSoure)"

definition JsonToString :: "('j, 'd) libs \<Rightarrow> 'j \<Rightarrow> string" where
  "JsonToString L Root = js_write_indented (json L) Root"

section \<open>Paths and extensions\<close>

definition GetExtension :: "int \<Rightarrow> string" where
  "GetExtension nType =
     (if nType = 0 then EXT_HR else if nType = 1 then EXT_ABB
      else if nType = 2 then EXT_FANUC else [])"

definition DIRECTORY_ROOT :: "('j, 'd) libs \<Rightarrow> string" where
  "DIRECTORY_ROOT L =
     (if WIN32 L then ''C:'' @ [CHR 0x5C] @ ''Files'' @ [CHR 0x5C] else ''/tmp/Files/'')"

definition DIRECTORY_ROOT_UP :: "('j, 'd) libs \<Rightarrow> string" where
  "DIRECTORY_ROOT_UP L = DIRECTORY_ROOT L @ (if WIN32 L then ''upfile'' @ [CHR 0x5C] else ''upfile/'')"

text \<open>
  \<open>GetDirectory\<close> accepts every \<open>nType\<close> up to 2, but the table it then reads has two
  entries: for 2 and for a negative number the read is out of bounds.
\<close>

definition TeachProgramDirect :: "string list" where
  "TeachProgramDirect =
     [''../robotTeachHR/config/robotProgram/'',
      ''../robotTeachABB/robotTeachABBFile/RobotProgram.xml'']"

definition GetDirectory :: "('j, 'd) libs \<Rightarrow> int \<Rightarrow> string \<Rightarrow> error + string" where
  "GetDirectory L nType strFileName =
     (let strPath = GetModuleFullPath L @ PATH_SEP_STRING L in
      if nType > 2 then Inr []
      else if nType = 0 then Inr (strPath @ TeachProgramDirect ! 0 @ strFileName)
      else if 0 \<le> nType \<and> nat nType < length TeachProgramDirect
      then Inr (strPath @ TeachProgramDirect ! nat nType)
      else Inl (UB Buffer_overflow))"

section \<open>Sending\<close>

text \<open>
  \<open>SendMsgTo(string&)\<close>: one \<open>send\<close> call on the socket of the bufferevent. Its answer is
  recorded with the bytes offered.
\<close>

definition SendMsgTo_raw ::
    "('j, 'd) libs \<Rightarrow> 'a cworker_scheme \<Rightarrow> string \<Rightarrow> ('d world, int) prog" where
  "SendMsgTo_raw L w strMsg = (\<lambda>d.
     case m_bev w of
       None \<Rightarrow> (Inl (UB Null_pointer), d)
     | Some fd \<Rightarrow>
         let nSend = c_int (sock_send L (w_sends d) fd strMsg)
         in (Inr nSend, d\<lparr>w_sends := w_sends d @ [(fd, strMsg, nSend)]\<rparr>))"

definition send_package ::
    "('j, 'd) libs \<Rightarrow> 'a cworker_scheme \<Rightarrow> PagTCP \<Rightarrow> ('d world, int) prog" where
  "send_package L w pag =
     andThen (SendMsgTo_raw L w (package_string pag)) (\<lambda>nSend.
     if nSend \<le> 0 then ret (-1) else ret 0)"

text \<open>How a text of \<open>sz\<close> bytes is cut: the number of pages and the length of page \<open>i\<close>.\<close>

definition page_count :: "int \<Rightarrow> int" where
  "page_count sz = sz sdiv int PAGSIZE + 1"

definition page_length :: "int \<Rightarrow> int \<Rightarrow> int" where
  "page_length sz i =
     (if i = page_count sz - 1 then sz smod int PAGSIZE else int PAGSIZE)"

text \<open>
  \<open>SendMsgTo(label, strMsg)\<close>. The loop stops with \<open>-1\<close> as soon as \<open>send_package\<close> answers
  a number that is not positive.
\<close>

definition msg_page :: "string \<Rightarrow> int \<Rightarrow> nat \<Rightarrow> string \<Rightarrow> PagTCP" where
  "msg_page label sz i content =
     \<lparr>pag_label = label, pag_src = TCPSOURCE_SERVER, pag_type = TCPPACKAGE_MSG,
      pag_num = int i + 1, pag_allnum = page_count sz, pag_content = content\<rparr>"

fun SendMsgTo_loop ::
    "('j, 'd) libs \<Rightarrow> 'a cworker_scheme \<Rightarrow> string \<Rightarrow> string \<Rightarrow> int \<Rightarrow> nat list \<Rightarrow>
       ('d world, int) prog" where
  "SendMsgTo_loop L w label strMsg sz [] = ret 0"
| "SendMsgTo_loop L w label strMsg sz (i # is) =
     andThen (of_result (cpp_substr strMsg (i * PAGSIZE) (size_of (page_length sz (int i)))))
       (\<lambda>content.
     andThen (send_package L w (msg_page label sz i content)) (\<lambda>r.
     if r \<le> 0 then ret (-1) else SendMsgTo_loop L w label strMsg sz is))"

definition SendMsgTo ::
    "('j, 'd) libs \<Rightarrow> 'a cworker_scheme \<Rightarrow> string \<Rightarrow> string \<Rightarrow> ('d world, int) prog" where
  "SendMsgTo L w label strMsg =
     (let sz = c_int (int (length strMsg))
      in SendMsgTo_loop L w label strMsg sz [0..<nat (page_count sz)])"

definition SendWCZL :: "('j, 'd) libs \<Rightarrow> 'a cworker_scheme \<Rightarrow> ('d world, int) prog" where
  "SendWCZL L w = SendMsgTo L w ''WCZL'' ''1''"

text \<open>
  \<open>SendFileTo(label, strMsg)\<close>. The description is a JSON text; the file it names is read
  whole into a \<open>char\<close> array of exactly its sz and turned into a string as a C string, which
  stops at the first zero byte of the file or else runs on into the memory behind the array.
  A description that does not parse names the empty path, which no file has.
\<close>

definition file_buffer :: "('j, 'd) libs \<Rightarrow> string \<Rightarrow> string" where
  "file_buffer L contents = c_str (contents @ heap_after L)"

definition file_page :: "string \<Rightarrow> int \<Rightarrow> nat \<Rightarrow> string \<Rightarrow> PagTCP" where
  "file_page label sz i content =
     \<lparr>pag_label = label, pag_src = TCPSOURCE_CLIENT, pag_type = TCPPACKAGE_FILE,
      pag_num = int i + 1, pag_allnum = page_count sz, pag_content = content\<rparr>"

text \<open>The JSON text of one page: the description and the bytes of the page.\<close>

definition page_json :: "('j, 'd) libs \<Rightarrow> 'j \<Rightarrow> string \<Rightarrow> 'j option" where
  "page_json L describe tmp =
     (case js_put (json L) (js_null (json L)) FILE_DESCRIBE describe of
        None \<Rightarrow> None
      | Some v \<Rightarrow> js_put (json L) v FILE_CONTENT (js_of_string (json L) tmp))"

fun SendFileTo_loop ::
    "('j, 'd) libs \<Rightarrow> 'a cworker_scheme \<Rightarrow> string \<Rightarrow> 'j \<Rightarrow> string \<Rightarrow> int \<Rightarrow> nat list \<Rightarrow>
       ('d world, unit) prog" where
  "SendFileTo_loop L w label describe fileBuf sz [] = ret ()"
| "SendFileTo_loop L w label describe fileBuf sz (i # is) =
     andThen (of_result (cpp_substr fileBuf (i * PAGSIZE) (size_of (page_length sz (int i)))))
       (\<lambda>tmp.
     andThen (of_option Json_error (page_json L describe tmp)) (\<lambda>contentJS.
     andThen (send_package L w (file_page label sz i (js_write (json L) contentJS))) (\<lambda>r.
     if r < 0 then ret () else SendFileTo_loop L w label describe fileBuf sz is)))"

definition SendFileTo ::
    "('j, 'd) libs \<Rightarrow> 'a cworker_scheme \<Rightarrow> string \<Rightarrow> string \<Rightarrow> ('d world, unit) prog" where
  "SendFileTo L w label strMsg =
     (case StringToJson L strMsg of
        None \<Rightarrow> ret ()
      | Some fileJs0 \<Rightarrow>
          andThen (of_option Json_error (json_str2 (json L) fileJs0 FILE_DESCRIBE FILE_PATH))
            (\<lambda>(fileJs, filePath).
          andThen (query w_fs) (\<lambda>fs.
          case fs (c_str filePath) of
            None \<Rightarrow> ret ()
          | Some contents \<Rightarrow>
              let sz = c_int (int (length contents)) in
              if sz < 0 then raise Bad_alloc
              else
                andThen (of_option Json_error (js_index (json L) fileJs FILE_DESCRIBE))
                  (\<lambda>(_, describe).
                SendFileTo_loop L w label describe (file_buffer L contents) sz
                  [0..<nat (page_count sz)]))))"

section \<open>What reaches the wire\<close>

text \<open>The bytes the socket \<open>fd\<close> accepted, in order.\<close>

definition accepted :: "send_call \<Rightarrow> string" where
  "accepted c = (case c of (fd, s, r) \<Rightarrow> take (nat r) s)"

definition wire :: "int \<Rightarrow> send_call list \<Rightarrow> string" where
  "wire fd calls = concat (map accepted (filter (\<lambda>c. fst c = fd) calls))"

lemma wire_append: "wire fd (cs @ ds) = wire fd cs @ wire fd ds"
  by (simp add: wire_def)

lemma wire_Nil [simp]: "wire fd [] = []"
  by (simp add: wire_def)

text \<open>
  A socket that accepts everything: the behaviour of \<open>send\<close> on a blocking socket of a live
  connection.
\<close>

definition sends_all :: "('j, 'd) libs \<Rightarrow> bool" where
  "sends_all L \<longleftrightarrow> (\<forall>calls fd s. sock_send L calls fd s = int (length s))"

lemma SendMsgTo_raw_all:
  assumes "sends_all L" and "m_bev w = Some fd" and "length s < 2147483648"
  shows "SendMsgTo_raw L w s d =
    (Inr (int (length s)), d\<lparr>w_sends := w_sends d @ [(fd, s, int (length s))]\<rparr>)"
  using assms by (simp add: SendMsgTo_raw_def sends_all_def c_int_nat Let_def)

lemma package_string_nonempty: "0 < length (package_string p)"
  by (simp add: package_string_def)

lemma send_package_all:
  assumes "sends_all L" and "m_bev w = Some fd" and "length (package_string p) < 2147483648"
  shows "send_package L w p d =
    (Inr 0, d\<lparr>w_sends := w_sends d @ [(fd, package_string p, int (length (package_string p)))]\<rparr>)"
  using SendMsgTo_raw_all [OF assms(1,2,3)] package_string_nonempty [of p]
  by (simp add: send_package_def prog_simps)

text \<open>
  \<open>send_package\<close> never answers a positive number: on success it answers \<open>0\<close>. This is what
  the two callers make of its answer differently.
\<close>

lemma send_package_not_positive:
  "fst (send_package L w p d) = Inr r \<Longrightarrow> r = 0 \<or> r = -1"
  by (auto simp: send_package_def prog_simps split: prod.splits sum.splits if_splits)

lemma page_count_nat: "page_count (int n) = int (n div 1024) + 1"
proof -
  have "int n sdiv 1024 = int n div 1024" by (cases "n = 0") (simp_all add: signed_divide_int_def)
  then show ?thesis by (simp add: page_count_def PAGSIZE_def zdiv_int)
qed

lemma page_count_range: "n < 2147483648 \<Longrightarrow> 1 \<le> page_count (int n) \<and> page_count (int n) \<le> 2097152"
  by (simp add: page_count_nat)

lemma page_length_nat:
  "page_length (int n) (int i) = (if i = n div 1024 then int (n mod 1024) else 1024)"
proof -
  have "int n smod 1024 = int n mod 1024" 
    by (cases "n = 0") (simp_all add: signed_modulo_int_def signed_divide_int_def minus_div_mult_eq_mod)
  then show ?thesis by (simp add: page_length_def page_count_nat PAGSIZE_def zmod_int)
qed

lemma page_count_upt: "[0..<nat (page_count (int n))] = [0..<Suc (n div 1024)]"
  by (simp add: page_count_nat nat_add_distrib)

text \<open>The pages of a text, in order, put together give the text.\<close>

definition page_text :: "string \<Rightarrow> nat \<Rightarrow> string" where
  "page_text s i = take (if i = length s div 1024 then length s mod 1024 else 1024) (drop (i * 1024) s)"

lemma page_text_substr:
  assumes "length s < 2147483648" and "i \<le> length s div 1024"
  shows "cpp_substr s (i * PAGSIZE) (size_of (page_length (int (length s)) (int i))) = Inr (page_text s i)"
proof -
  have "i * 1024 \<le> length s" using assms(2) by (metis div_times_less_eq_dividend le_trans mult_le_mono1)
  moreover have "size_of (int (length s mod 1024)) = length s mod 1024"
    by (simp add: size_of_int order.strict_trans [OF mod_less_divisor])
  moreover have "size_of 1024 = 1024" by (simp add: size_of_def)
  ultimately show ?thesis
    by (simp add: cpp_substr_def page_text_def PAGSIZE_def page_length_nat del: of_nat_mod zmod_int)
qed

lemma page_text_prefix:
  "k \<le> length s div 1024 \<Longrightarrow> concat (map (page_text s) [0..<k]) = take (k * 1024) s"
proof (induction k)
  case 0
  then show ?case by simp
next
  case (Suc k)
  then have "page_text s k = take 1024 (drop (k * 1024) s)" by (simp add: page_text_def)
  with Suc show ?case by (simp add: take_add [symmetric] add.commute)
qed

lemma page_text_concat: "concat (map (page_text s) [0..<Suc (length s div 1024)]) = s"
proof -
  let ?k = "length s div 1024"
  have "length (drop (?k * 1024) s) = length s mod 1024"
    by (simp add: minus_div_mult_eq_mod)
  then have "page_text s ?k = drop (?k * 1024) s" by (simp add: page_text_def)
  then have "concat (map (page_text s) [0..<Suc ?k]) = take (?k * 1024) s @ drop (?k * 1024) s"
    using page_text_prefix [of ?k s] by simp
  then show ?thesis by simp
qed

end
