(* ===== verification/Process.thy ===== *)
theory Process
  imports CWorker
begin

text \<open>
  The receiving half of \<open>CWorker\<close> (common/function.cpp): \<open>GetPackage\<close> on the worker's
  buffer and the loop of \<open>Process\<close>, which collects message pages and appends file pages.
  The two virtual methods \<open>excuteCommand\<close> and \<open>excuteFile\<close> are arguments; the locale
  \<open>packet_handler\<close> states what the loop relies on, and the theories of the two worker
  classes interpret it.
\<close>

type_synonym ('a, 'd) wstate = "'a cworker_scheme \<times> 'd world"

text \<open>The virtual methods of a worker class.\<close>

record ('a, 'j, 'd) handlers =
  excuteCommand :: "string \<Rightarrow> string \<Rightarrow> (('a, 'd) wstate, unit) prog"
  excuteFile :: "string \<Rightarrow> 'j \<Rightarrow> (('a, 'd) wstate, unit) prog"

text \<open>How the loop body ends: go round again, or leave the loop because a file cannot be
  opened.\<close>

datatype step_exit = Continue | Break

text \<open>How the loop ends: no complete package is left, or it was left early.\<close>

datatype loop_exit = Drained | Open_failed

definition GetPackage ::
    "('j, 'd) libs \<Rightarrow> ('a cworker_scheme, PagTCP option) prog" where
  "GetPackage L = (\<lambda>w.
     case GetPackage_data (junk_int L) (m_strData w) of (r, rest) \<Rightarrow> (r, w\<lparr>m_strData := rest\<rparr>))"

text \<open>Lines 93 to 102: a message page.\<close>

definition process_msg ::
    "('a, 'j, 'd) handlers \<Rightarrow> PagTCP \<Rightarrow> (('a, 'd) wstate, step_exit) prog" where
  "process_msg H pag =
     andThen (modify (\<lambda>(w, d). (w\<lparr>m_strMsgContent := m_strMsgContent w @ pag_content pag\<rparr>, d)))
       (\<lambda>_.
     if pag_num pag < pag_allnum pag then ret Continue
     else
       andThen (query (\<lambda>(w, d). m_strMsgContent w)) (\<lambda>content.
       andThen (excuteCommand H (pag_label pag) content) (\<lambda>_.
       andThen (modify (\<lambda>(w, d). (w\<lparr>m_strMsgContent := []\<rparr>, d))) (\<lambda>_.
       ret Continue))))"

text \<open>
  Lines 118 to 124: the file name inside the class directory. The server composes it from the
  course, the student and the type, the client takes it from the description.
\<close>

definition upload_name :: "('j, 'd) libs \<Rightarrow> 'j \<Rightarrow> ('j \<times> string) option" where
  "upload_name L fileJS =
     (if SERVER L then
        (case json_str2 (json L) fileJS FILE_DESCRIBE FILE_COURES of None \<Rightarrow> None
         | Some (js1, course) \<Rightarrow>
        (case json_str2 (json L) js1 FILE_DESCRIBE FILE_STUDENT of None \<Rightarrow> None
         | Some (js2, student) \<Rightarrow>
        (case json_int2 (json L) js2 FILE_DESCRIBE FILE_TYPE of None \<Rightarrow> None
         | Some (js3, nType) \<Rightarrow> Some (js3, course @ ''_'' @ student @ GetExtension nType))))
      else json_str2 (json L) fileJS FILE_DESCRIBE FILE_NAME)"

text \<open>Lines 113 to 116 and 127 to 129: the directory is made, an old file is removed.\<close>

definition ensure_directory :: "('j, 'd) libs \<Rightarrow> string \<Rightarrow> fsys \<Rightarrow> fsys" where
  "ensure_directory L strPath fs =
     (if IsFileExist L fs (c_str strPath) then fs else CxxCreateDirectory L fs (c_str strPath))"

definition drop_old_file :: "('j, 'd) libs \<Rightarrow> int \<Rightarrow> string \<Rightarrow> fsys \<Rightarrow> fsys" where
  "drop_old_file L num strPath fs =
     (if num = 1 \<and> IsFileExist L fs (c_str strPath)
      then CxxDeleteFile L fs (c_str strPath) else fs)"

definition on_fs :: "(fsys \<Rightarrow> fsys) \<Rightarrow> (('a, 'd) wstate, unit) prog" where
  "on_fs f = modify (\<lambda>(w, d). (w, d\<lparr>w_fs := f (w_fs d)\<rparr>))"

text \<open>Lines 130 to 147: the page is appended; after the last page the command runs.\<close>

definition write_page ::
    "('j, 'd) libs \<Rightarrow> ('a, 'j, 'd) handlers \<Rightarrow> PagTCP \<Rightarrow> string \<Rightarrow> 'j \<Rightarrow>
       (('a, 'd) wstate, step_exit) prog" where
  "write_page L H pag strPath fileJS =
     andThen (query (\<lambda>(w, d). can_append L (w_fs d) (c_str strPath))) (\<lambda>opened.
     if \<not> opened then
       andThen (modify (\<lambda>(w, d). (setCMDFinishFlag 1 w, d))) (\<lambda>_. ret Break)
     else
       andThen (on_fs (\<lambda>fs. fs_append fs (c_str strPath) [])) (\<lambda>_.
       andThen (of_option Json_error (json_str (json L) fileJS FILE_CONTENT)) (\<lambda>(fileJS, content).
       andThen (on_fs (\<lambda>fs. fs_append fs (c_str strPath) content)) (\<lambda>_.
       if pag_num pag < pag_allnum pag then ret Continue
       else
         andThen (of_option Json_error (js_index (json L) fileJS FILE_DESCRIBE)) (\<lambda>(_, describe).
         andThen (excuteFile H (pag_label pag) describe) (\<lambda>_.
         ret Continue))))))"

text \<open>Lines 103 to 149: a file page.\<close>

definition process_file ::
    "('j, 'd) libs \<Rightarrow> ('a, 'j, 'd) handlers \<Rightarrow> PagTCP \<Rightarrow> (('a, 'd) wstate, step_exit) prog" where
  "process_file L H pag =
     (case StringToJson L (pag_content pag) of
        None \<Rightarrow> ret Continue
      | Some fileJS0 \<Rightarrow>
          andThen (of_option Json_error (json_str2 (json L) fileJS0 FILE_DESCRIBE FILE_CLASS))
            (\<lambda>(fileJS1, cls).
          let dir = DIRECTORY_ROOT_UP L @ cls @ [PATH_SEPARATOR L] in
          andThen (on_fs (ensure_directory L dir)) (\<lambda>_.
          andThen (of_option Json_error (upload_name L fileJS1)) (\<lambda>(fileJS2, name).
          let strPath = dir @ name in
          andThen (of_option Json_error
              (json_set2 (json L) fileJS2 FILE_DESCRIBE FILE_PATH (js_of_string (json L) strPath)))
            (\<lambda>fileJS3.
          andThen (on_fs (drop_old_file L (pag_num pag) strPath)) (\<lambda>_.
          write_page L H pag strPath fileJS3))))))"

definition process_package ::
    "('j, 'd) libs \<Rightarrow> ('a, 'j, 'd) handlers \<Rightarrow> PagTCP \<Rightarrow> (('a, 'd) wstate, step_exit) prog" where
  "process_package L H pag =
     (if pag_type pag = TCPPACKAGE_MSG then process_msg H pag
      else if pag_type pag = TCPPACKAGE_FILE then process_file L H pag
      else ret Continue)"

text \<open>
  The loop, with fuel: each round consumes a package of at least fourteen bytes, so as many
  rounds as there are bytes, and one more to find nothing, are enough.
\<close>

fun Process_loop ::
    "('j, 'd) libs \<Rightarrow> ('a, 'j, 'd) handlers \<Rightarrow> nat \<Rightarrow> (('a, 'd) wstate, loop_exit) prog" where
  "Process_loop L H 0 s = (Inl Out_of_fuel, s)"
| "Process_loop L H (Suc n) (w, d) =
     (case GetPackage L w of
        (Inl e, w') \<Rightarrow> (Inl e, (w', d))
      | (Inr None, w') \<Rightarrow> (Inr Drained, (w', d))
      | (Inr (Some pag), w') \<Rightarrow>
          (case process_package L H pag (w', d) of
             (Inl e, s) \<Rightarrow> (Inl e, s)
           | (Inr Break, s) \<Rightarrow> (Inr Open_failed, s)
           | (Inr Continue, s) \<Rightarrow> Process_loop L H n s))"

definition Process ::
    "('j, 'd) libs \<Rightarrow> ('a, 'j, 'd) handlers \<Rightarrow> string \<Rightarrow> (('a, 'd) wstate, loop_exit) prog" where
  "Process L H strData = (\<lambda>(w, d).
     let w' = w\<lparr>m_strData := m_strData w @ strData\<rparr>
     in Process_loop L H (Suc (length (m_strData w'))) (w', d))"

text \<open>
  What the loop is meant to do, without the buffer: the packages of the stream, one after
  the other.
\<close>

fun deliver ::
    "('j, 'd) libs \<Rightarrow> ('a, 'j, 'd) handlers \<Rightarrow> PagTCP list \<Rightarrow> (('a, 'd) wstate, step_exit) prog" where
  "deliver L H [] = ret Continue"
| "deliver L H (p # ps) =
     andThen (process_package L H p) (\<lambda>e.
     case e of Break \<Rightarrow> ret Break | Continue \<Rightarrow> deliver L H ps)"

section \<open>The contract of the virtual methods\<close>

text \<open>
  The receive buffer is the loop's own: a handler neither reads nor writes it. Replacing the
  buffer before a call is the same as replacing it after.
\<close>

definition put_data :: "string \<Rightarrow> ('a, 'd) wstate \<Rightarrow> ('a, 'd) wstate" where
  "put_data x = (\<lambda>(w, d). (w\<lparr>m_strData := x\<rparr>, d))"

definition blind :: "(('a, 'd) wstate, 'b) prog \<Rightarrow> bool" where
  "blind m \<longleftrightarrow> (\<forall>x s. m (put_data x s) = (case m s of (r, s') \<Rightarrow> (r, put_data x s')))"

named_theorems blind_intros "computations that leave the receive buffer alone"

lemma blindD: "blind m \<Longrightarrow> m s = (r, s') \<Longrightarrow> m (put_data x s) = (r, put_data x s')"
  unfolding blind_def by (drule spec [of _ x], drule spec [of _ s]) simp

lemma blindI: "(\<And>x s r s'. m s = (r, s') \<Longrightarrow> m (put_data x s) = (r, put_data x s')) \<Longrightarrow> blind m"
  unfolding blind_def by (intro allI) (simp split: prod.split)

lemma blind_ret [blind_intros]: "blind (ret a)"
  by (simp add: blind_def ret_def)

lemma blind_raise [blind_intros]: "blind (raise e)"
  by (simp add: blind_def raise_def)

lemma blind_of_option [blind_intros]: "blind (of_option e x)"
  by (simp add: blind_def of_option_def)

lemma blind_of_result [blind_intros]: "blind (of_result x)"
  by (simp add: blind_def of_result_def)

lemma blind_andThen [blind_intros]:
  assumes m: "blind m" and f: "\<And>a. blind (f a)"
  shows "blind (andThen m f)"
proof (rule blindI)
  fix x s r s'
  assume run: "andThen m f s = (r, s')"
  obtain r1 s1 where ms: "m s = (r1, s1)" by (cases "m s") auto
  note ms' = blindD [OF m ms, of x]
  show "andThen m f (put_data x s) = (r, put_data x s')"
  proof (cases r1)
    case (Inl e)
    with run ms ms' show ?thesis by (simp add: andThen_def)
  next
    case (Inr a)
    with run ms have "f a s1 = (r, s')" by (simp add: andThen_def)
    from blindD [OF f this, of x] Inr ms' show ?thesis by (simp add: andThen_def)
  qed
qed

lemma blind_if [blind_intros]: "(b \<Longrightarrow> blind m) \<Longrightarrow> (\<not> b \<Longrightarrow> blind n) \<Longrightarrow> blind (if b then m else n)"
  by simp

lemma blind_option [blind_intros]:
  "blind m \<Longrightarrow> (\<And>a. blind (f a)) \<Longrightarrow> blind (case x of None \<Rightarrow> m | Some a \<Rightarrow> f a)"
  by (cases x) simp_all

lemma blind_prod [blind_intros]: "(\<And>a b. blind (f a b)) \<Longrightarrow> blind (case x of (a, b) \<Rightarrow> f a b)"
  by (cases x) simp

lemma blind_Let [blind_intros]: "(\<And>a. blind (f a)) \<Longrightarrow> blind (let a = x in f a)"
  by simp

lemma blind_step_exit [blind_intros]:
  "blind m \<Longrightarrow> blind n \<Longrightarrow> blind (case e of Break \<Rightarrow> m | Continue \<Rightarrow> n)"
  by (cases e) simp_all

lemma blind_modify: "(\<And>x s. f (put_data x s) = put_data x (f s)) \<Longrightarrow> blind (modify f)"
  by (simp add: blind_def modify_def)

lemma blind_query: "(\<And>x s. f (put_data x s) = f s) \<Longrightarrow> blind (query f)"
  by (simp add: blind_def query_def)

lemma blind_on_fs [blind_intros]: "blind (on_fs f)"
  by (simp add: on_fs_def blind_def modify_def put_data_def split: prod.split)

text \<open>A computation that only reads the worker, run on the pair of worker and world.\<close>

definition with_worker ::
    "('a cworker_scheme \<Rightarrow> ('d world, 'b) prog) \<Rightarrow> (('a, 'd) wstate, 'b) prog" where
  "with_worker f = (\<lambda>(w, d). case f w d of (r, d') \<Rightarrow> (r, (w, d')))"

lemma with_worker_apply [prog_simps]:
  "with_worker f (w, d) = (case f w d of (r, d') \<Rightarrow> (r, (w, d')))"
  by (simp add: with_worker_def)

lemma blind_with_worker: "(\<And>x w. f (w\<lparr>m_strData := x\<rparr>) = f w) \<Longrightarrow> blind (with_worker f)"
  by (simp add: blind_def with_worker_def put_data_def split: prod.split)

text \<open>Sending does not look at the receive buffer.\<close>

lemma SendMsgTo_raw_data [simp]: "SendMsgTo_raw L (w\<lparr>m_strData := x\<rparr>) = SendMsgTo_raw L w"
  by (simp add: SendMsgTo_raw_def fun_eq_iff)

lemma send_package_data [simp]: "send_package L (w\<lparr>m_strData := x\<rparr>) = send_package L w"
  by (simp add: send_package_def fun_eq_iff)

lemma SendMsgTo_loop_data: "SendMsgTo_loop L (w\<lparr>m_strData := x\<rparr>) label s sz is = SendMsgTo_loop L w label s sz is"
  by (induction "is") (simp_all cong: if_cong)

lemma SendMsgTo_data [simp]: "SendMsgTo L (w\<lparr>m_strData := x\<rparr>) = SendMsgTo L w"
  by (simp add: SendMsgTo_def SendMsgTo_loop_data fun_eq_iff Let_def)

lemma SendWCZL_data [simp]: "SendWCZL L (w\<lparr>m_strData := x\<rparr>) = SendWCZL L w"
  by (simp add: SendWCZL_def)

lemma SendFileTo_loop_data:
  "SendFileTo_loop L (w\<lparr>m_strData := x\<rparr>) label desc buf sz is = SendFileTo_loop L w label desc buf sz is"
  by (induction "is") (simp_all cong: if_cong)

lemma SendFileTo_data [simp]: "SendFileTo L (w\<lparr>m_strData := x\<rparr>) = SendFileTo L w"
  by (simp add: SendFileTo_def SendFileTo_loop_data fun_eq_iff Let_def cong: option.case_cong if_cong)

lemma fuel_free_SendMsgTo_raw [fuel_free_intros]: "fuel_free (SendMsgTo_raw L w s)"
  by (simp add: fuel_free_def SendMsgTo_raw_def Let_def split: option.split)

lemma fuel_free_send_package [fuel_free_intros]: "fuel_free (send_package L w p)"
  unfolding send_package_def by (intro fuel_free_intros)

lemma fuel_free_substr [fuel_free_intros]: "fuel_free (of_result (cpp_substr s i n))"
  by (rule fuel_free_of_result) (simp add: cpp_substr_def)

lemma fuel_free_SendMsgTo_loop: "fuel_free (SendMsgTo_loop L w label s sz is)"
  by (induction "is") (auto intro!: fuel_free_intros)

lemma fuel_free_SendMsgTo [fuel_free_intros]: "fuel_free (SendMsgTo L w label s)"
  by (simp add: SendMsgTo_def Let_def fuel_free_SendMsgTo_loop)

lemma fuel_free_SendWCZL [fuel_free_intros]: "fuel_free (SendWCZL L w)"
  unfolding SendWCZL_def by (intro fuel_free_intros)

lemma fuel_free_SendFileTo_loop: "fuel_free (SendFileTo_loop L w label desc buf sz is)"
  by (induction "is") (auto intro!: fuel_free_intros)

lemma fuel_free_SendFileTo [fuel_free_intros]: "fuel_free (SendFileTo L w label s)"
  unfolding SendFileTo_def by (intro fuel_free_intros fuel_free_SendFileTo_loop; simp)

lemma fuel_free_with_worker [fuel_free_intros]:
  "(\<And>w. fuel_free (f w)) \<Longrightarrow> fuel_free (with_worker f)"
  by (auto simp: fuel_free_def with_worker_def split: prod.split) (metis fst_conv)

locale packet_handler =
  fixes H :: "('a, 'j, 'd) handlers"
  assumes blind_command: "blind (excuteCommand H label content)"
    and blind_file: "blind (excuteFile H label describe)"
    and command_fuel: "fuel_free (excuteCommand H label content)"
    and file_fuel: "fuel_free (excuteFile H label describe)"
begin

lemma blind_process_msg: "blind (process_msg H pag)"
  unfolding process_msg_def
  by (intro blind_intros blind_command blind_modify blind_query)
    (auto simp: put_data_def split: prod.split)

lemma blind_write_page: "blind (write_page L H pag strPath js)"
  unfolding write_page_def
  by (intro blind_intros blind_file blind_modify blind_query)
    (auto simp: put_data_def setCMDFinishFlag_def split: prod.split)

lemma blind_process_file: "blind (process_file L H pag)"
  unfolding process_file_def by (intro blind_intros blind_write_page)

lemma blind_process_package: "blind (process_package L H pag)"
  unfolding process_package_def
  by (intro blind_intros blind_process_msg blind_process_file)

lemma blind_deliver: "blind (deliver L H ps)"
  by (induction ps) (auto intro!: blind_intros blind_process_package)

lemma process_package_data:
  assumes "process_package L H pag (w, d) = (r, (w', d'))"
  shows "m_strData w' = m_strData w"
proof -
  have "process_package L H pag (put_data (m_strData w) (w, d)) = (r, put_data (m_strData w) (w', d'))"
    using blind_process_package assms by (rule blindD)
  then have "(r, (w', d')) = (r, put_data (m_strData w) (w', d'))"
    using assms by (simp add: put_data_def)
  then have "w' = w'\<lparr>m_strData := m_strData w\<rparr>" by (simp add: put_data_def)
  then have "m_strData w' = m_strData (w'\<lparr>m_strData := m_strData w\<rparr>)" by (rule arg_cong)
  then show ?thesis by simp
qed

lemma fuel_free_process_package: "fuel_free (process_package L H pag)"
  unfolding process_package_def process_msg_def process_file_def write_page_def on_fs_def
  by (intro fuel_free_intros command_fuel file_fuel) simp_all

lemma process_package_fuel: "fst (process_package L H pag s) \<noteq> Inl Out_of_fuel"
  using fuel_free_process_package by (rule fuel_freeD)

end

end
