(* ===== verification/Receive.thy ===== *)
theory Receive
  imports Process
begin

text \<open>
  What the receive loop guarantees for every worker class that keeps the contract of
  \<open>packet_handler\<close>: it ends, it is the delivery of the packages of the stream one after the
  other, it does not matter how the stream is cut into arrivals, message pages are put
  together, and file pages end up as the file.
\<close>

lemma GetPackage_Some:
  "GetPackage L w = (Inr (Some p), w') \<longleftrightarrow>
     (\<exists>rest. decode_package (junk_int L) (m_strData w) = Some (p, rest) \<and> w' = w\<lparr>m_strData := rest\<rparr>)"
  by (auto simp: GetPackage_def decode_package_GetPackage split: prod.splits)

lemma GetPackage_None_data: "GetPackage_data junk d = (Inr None, d') \<Longrightarrow> d' = d"
  by (auto simp: GetPackage_data_def split: sum.splits option.splits prod.splits)

lemma GetPackage_None:
  "GetPackage L w = (Inr None, w') \<longleftrightarrow>
     GetPackage_data (junk_int L) (m_strData w) = (Inr None, m_strData w) \<and> w' = w"
  by (auto simp: GetPackage_def split: prod.splits dest: GetPackage_None_data)

lemma GetPackage_put:
  "GetPackage L (w\<lparr>m_strData := x\<rparr>) =
     (case GetPackage_data (junk_int L) x of (r, rest) \<Rightarrow> (r, w\<lparr>m_strData := rest\<rparr>))"
  by (simp add: GetPackage_def split: prod.split)

lemma GetPackage_data_error: "GetPackage_data junk d = (Inl e, d') \<Longrightarrow> e \<noteq> Out_of_fuel"
  by (auto simp: GetPackage_data_def cut_package_def parse_fields_def take_field_def Let_def
      cpp_substr_def cpp_substr_from_def split: sum.splits option.splits prod.splits if_splits)

lemma GetPackage_data_append:
  assumes "GetPackage_data junk d = (Inr (Some p), rest)" and "length (d @ d2) < 2147483648"
  shows "GetPackage_data junk (d @ d2) = (Inr (Some p), rest @ d2)"
  using assms pkg.decode_append [of junk d p rest d2] by (simp add: decode_package_GetPackage)

lemma GetPackage_data_shrinks:
  assumes "GetPackage_data junk d = (Inr (Some p), rest)" and "length d < 2147483648"
  shows "length rest < length d"
  using assms pkg.decode_shrinks [of junk d p rest] by (simp add: decode_package_GetPackage)

lemma Process_apply:
  "Process L H s (w, d) =
     Process_loop L H (Suc (length (m_strData w @ s))) (w\<lparr>m_strData := m_strData w @ s\<rparr>, d)"
  by (simp add: Process_def Let_def del: Process_loop.simps)

section \<open>The loop\<close>

context packet_handler
begin

lemma process_package_put:
  assumes "process_package L H p (w, d) = (r, (w', d'))"
  shows "process_package L H p (w\<lparr>m_strData := x\<rparr>, d) = (r, (w'\<lparr>m_strData := x\<rparr>, d'))"
  using blindD [OF blind_process_package assms, of x] by (simp add: put_data_def)

lemma deliver_put:
  assumes "deliver L H ps (w, d) = (r, (w', d'))"
  shows "deliver L H ps (w\<lparr>m_strData := x\<rparr>, d) = (r, (w'\<lparr>m_strData := x\<rparr>, d'))"
  using blindD [OF blind_deliver assms, of x] by (simp add: put_data_def)

text \<open>One more byte of fuel than the buffer has bytes is enough, and more changes nothing.\<close>

lemma Process_loop_fuel:
  "length (m_strData w) < n \<Longrightarrow> length (m_strData w) < 2147483648 \<Longrightarrow>
     fst (Process_loop L H n (w, d)) \<noteq> Inl Out_of_fuel"
proof (induction n arbitrary: w d)
  case 0
  then show ?case by simp
next
  case (Suc n)
  obtain r rest where g: "GetPackage_data (junk_int L) (m_strData w) = (r, rest)"
    by (cases "GetPackage_data (junk_int L) (m_strData w)") auto
  then have gp: "GetPackage L w = (r, w\<lparr>m_strData := rest\<rparr>)" by (simp add: GetPackage_def)
  consider e where "r = Inl e" | "r = Inr None" | p where "r = Inr (Some p)"
    by (cases r) auto
  then show ?case
  proof cases
    case 1
    with g gp show ?thesis by (auto dest: GetPackage_data_error)
  next
    case 2
    with gp show ?thesis by simp
  next
    case (3 p)
    with g Suc.prems(2) have sh: "length rest < length (m_strData w)"
      by (auto dest: GetPackage_data_shrinks)
    obtain r' w' d' where pp: "process_package L H p (w\<lparr>m_strData := rest\<rparr>, d) = (r', (w', d'))"
      by (cases "process_package L H p (w\<lparr>m_strData := rest\<rparr>, d)") auto
    have "m_strData w' = rest" using process_package_data [OF pp] by simp
    then have "fst (Process_loop L H n (w', d')) \<noteq> Inl Out_of_fuel"
      using Suc.prems sh by (intro Suc.IH) auto
    with 3 gp pp process_package_fuel [of L p "(w\<lparr>m_strData := rest\<rparr>, d)"] show ?thesis
      by (auto split: sum.split step_exit.split)
  qed
qed

lemma Process_loop_more_fuel:
  "length (m_strData w) < n \<Longrightarrow> length (m_strData w) < m \<Longrightarrow> length (m_strData w) < 2147483648 \<Longrightarrow>
     Process_loop L H n (w, d) = Process_loop L H m (w, d)"
proof (induction n arbitrary: m w d)
  case 0
  then show ?case by simp
next
  case (Suc n)
  then obtain m' where m: "m = Suc m'" by (cases m) auto
  obtain r rest where g: "GetPackage_data (junk_int L) (m_strData w) = (r, rest)"
    by (cases "GetPackage_data (junk_int L) (m_strData w)") auto
  then have gp: "GetPackage L w = (r, w\<lparr>m_strData := rest\<rparr>)" by (simp add: GetPackage_def)
  have "Process_loop L H n (w', d') = Process_loop L H m' (w', d')"
    if p: "r = Inr (Some p)"
      and pp: "process_package L H p (w\<lparr>m_strData := rest\<rparr>, d) = (Inr Continue, (w', d'))"
    for p w' d'
  proof -
    have "m_strData w' = rest" using process_package_data [OF pp] by simp
    moreover have "length rest < length (m_strData w)"
      using g p Suc.prems(3) by (auto dest: GetPackage_data_shrinks)
    ultimately show ?thesis using Suc.prems m by (intro Suc.IH) auto
  qed
  then show ?case
    by (auto simp: m gp split: sum.split option.split prod.split step_exit.split)
qed

text \<open>The buffer left by a round that found a package.\<close>

lemma Process_loop_step:
  assumes "GetPackage_data (junk_int L) (m_strData w) = (Inr (Some p), rest)"
    and "process_package L H p (w, d) = (Inr Continue, (w', d'))"
  shows "Process_loop L H (Suc n) (w, d) = Process_loop L H n (w'\<lparr>m_strData := rest\<rparr>, d')"
  using assms(1) process_package_put [OF assms(2), of rest] by (simp add: GetPackage_def)

text \<open>The loop is the delivery of the packages it can cut off the buffer.\<close>

lemma Process_loop_deliver:
  "length (m_strData w) < n \<Longrightarrow> length (m_strData w) < 2147483648 \<Longrightarrow>
   drain_all (decode_package (junk_int L)) (m_strData w) = (ps, rest) \<Longrightarrow>
   GetPackage_data (junk_int L) rest = (Inr None, rest) \<Longrightarrow>
   deliver L H ps (w, d) = (Inr Continue, (w', d')) \<Longrightarrow>
   Process_loop L H n (w, d) = (Inr Drained, (w'\<lparr>m_strData := rest\<rparr>, d'))"
proof (induction n arbitrary: w d ps w')
  case 0
  then show ?case by simp
next
  case (Suc n)
  let ?dec = "decode_package (junk_int L)"
  show ?case
  proof (cases "?dec (m_strData w)")
    case None
    with Suc.prems(3) have "ps = []" "rest = m_strData w"
      by (simp_all add: pkg.drain_all_stuck)
    with Suc.prems show ?thesis by (auto simp: GetPackage_def prog_simps)
  next
    case (Some pr)
    then obtain p rest1 where dec: "?dec (m_strData w) = Some (p, rest1)" by (cases pr) auto
    then have g: "GetPackage_data (junk_int L) (m_strData w) = (Inr (Some p), rest1)"
      by (simp add: decode_package_GetPackage)
    obtain ps1 where ps: "ps = p # ps1" and dr: "drain_all ?dec rest1 = (ps1, rest)"
      using Suc.prems(3) pkg.drain_all_step [OF dec Suc.prems(2)] by (auto split: prod.splits)
    obtain w1 d1 where pp: "process_package L H p (w, d) = (Inr Continue, (w1, d1))"
      and dl: "deliver L H ps1 (w1, d1) = (Inr Continue, (w', d'))"
      using Suc.prems(5)
      by (auto simp: ps prog_simps split: prod.splits sum.splits step_exit.splits)
    have sh: "length rest1 < length (m_strData w)"
      using GetPackage_data_shrinks [OF g Suc.prems(2)] .
    have "Process_loop L H n (w1\<lparr>m_strData := rest1\<rparr>, d1) =
        (Inr Drained, (w'\<lparr>m_strData := rest1, m_strData := rest\<rparr>, d'))"
      using Suc.prems(1,2,4) sh dr deliver_put [OF dl, of rest1] by (intro Suc.IH) auto
    then show ?thesis by (simp only: Process_loop_step [OF g pp]) simp
  qed
qed

text \<open>
  Cutting the stream: when the loop has drained the first part, going on with the second is
  the same as having had both at once.
\<close>

lemma Process_loop_append:
  "length (m_strData w) < n \<Longrightarrow> length (m_strData w @ b) < 2147483648 \<Longrightarrow>
   length (m_strData w @ b) < m \<Longrightarrow> length (m_strData w @ b) < k \<Longrightarrow>
   Process_loop L H n (w, d) = (Inr Drained, (w1, d1)) \<Longrightarrow>
   length (m_strData w1) \<le> length (m_strData w) \<and>
   Process_loop L H m (w\<lparr>m_strData := m_strData w @ b\<rparr>, d) =
     Process_loop L H k (w1\<lparr>m_strData := m_strData w1 @ b\<rparr>, d1)"
proof (induction n arbitrary: w d m)
  case 0
  then show ?case by simp
next
  case (Suc n)
  obtain r rest where g: "GetPackage_data (junk_int L) (m_strData w) = (r, rest)"
    by (cases "GetPackage_data (junk_int L) (m_strData w)") auto
  then have gp: "GetPackage L w = (r, w\<lparr>m_strData := rest\<rparr>)" by (simp add: GetPackage_def)
  consider e where "r = Inl e" | "r = Inr None" | p where "r = Inr (Some p)"
    by (cases r) auto
  then show ?case
  proof cases
    case 1
    with gp Suc.prems(5) show ?thesis by simp
  next
    case 2
    with g have "rest = m_strData w" by (auto dest: GetPackage_None_data)
    with 2 gp Suc.prems(5) have "w1 = w" "d1 = d" by auto
    then show ?thesis using Suc.prems by (auto intro: Process_loop_more_fuel)
  next
    case (3 p)
    have g: "GetPackage_data (junk_int L) (m_strData w) = (Inr (Some p), rest)" using g 3 by simp
    have sh: "length rest < length (m_strData w)"
      using g Suc.prems(2) by (intro GetPackage_data_shrinks) auto
    obtain w2 d2 where pp: "process_package L H p (w\<lparr>m_strData := rest\<rparr>, d) = (Inr Continue, (w2, d2))"
      and run: "Process_loop L H n (w2, d2) = (Inr Drained, (w1, d1))"
      using Suc.prems(5) 3 gp
      by (auto split: prod.splits sum.splits step_exit.splits)
    have w2: "m_strData w2 = rest" using process_package_data [OF pp] by simp
    have gb: "GetPackage_data (junk_int L) (m_strData (w\<lparr>m_strData := m_strData w @ b\<rparr>)) =
        (Inr (Some p), rest @ b)"
      using GetPackage_data_append [OF g Suc.prems(2)] by simp
    have ppb: "process_package L H p (w\<lparr>m_strData := m_strData w @ b\<rparr>, d) =
        (Inr Continue, (w2\<lparr>m_strData := m_strData w @ b\<rparr>, d2))"
      using process_package_put [OF pp, of "m_strData w @ b"] by simp
    obtain m' where m: "m = Suc m'" using Suc.prems(3) by (cases m) auto
    have "length (m_strData w1) \<le> length (m_strData w2) \<and>
        Process_loop L H m' (w2\<lparr>m_strData := m_strData w2 @ b\<rparr>, d2) =
          Process_loop L H k (w1\<lparr>m_strData := m_strData w1 @ b\<rparr>, d1)"
      using Suc.prems sh m w2 run by (intro Suc.IH) auto
    then show ?thesis
      using Process_loop_step [OF gb ppb, of m'] sh by (simp add: m w2)
  qed
qed

lemma Process_append:
  assumes "Process L H a (w, d) = (Inr Drained, (w1, d1))"
    and "length (m_strData w @ a @ b) < 2147483648"
  shows "Process L H (a @ b) (w, d) = Process L H b (w1, d1)"
proof -
  let ?w = "w\<lparr>m_strData := m_strData w @ a\<rparr>"
  have run: "Process_loop L H (Suc (length (m_strData ?w))) (?w, d) = (Inr Drained, (w1, d1))"
    using assms(1) by (simp add: Process_apply del: Process_loop.simps)
  let ?n = "Suc (length (m_strData ?w @ b))"
  have "length (m_strData w1) \<le> length (m_strData ?w) \<and>
      Process_loop L H ?n (?w\<lparr>m_strData := m_strData ?w @ b\<rparr>, d) =
        Process_loop L H ?n (w1\<lparr>m_strData := m_strData w1 @ b\<rparr>, d1)"
    using assms(2) by (intro Process_loop_append [OF _ _ _ _ run]) auto
  moreover from this have "Process_loop L H ?n (w1\<lparr>m_strData := m_strData w1 @ b\<rparr>, d1) =
      Process_loop L H (Suc (length (m_strData w1 @ b))) (w1\<lparr>m_strData := m_strData w1 @ b\<rparr>, d1)"
    using assms(2) by (intro Process_loop_more_fuel) auto
  ultimately show ?thesis by (simp add: Process_apply del: Process_loop.simps)
qed

lemma Process_terminates:
  assumes "length (m_strData w @ s) < 2147483648"
  shows "fst (Process L H s (w, d)) \<noteq> Inl Out_of_fuel"
  using assms Process_loop_fuel [of "w\<lparr>m_strData := m_strData w @ s\<rparr>"]
  by (simp add: Process_apply del: Process_loop.simps)

lemma Process_deliver:
  assumes "length (m_strData w @ s) < 2147483648"
    and "drain_all (decode_package (junk_int L)) (m_strData w @ s) = (ps, rest)"
    and "GetPackage_data (junk_int L) rest = (Inr None, rest)"
    and "deliver L H ps (w, d) = (Inr Continue, (w', d'))"
  shows "Process L H s (w, d) = (Inr Drained, (w'\<lparr>m_strData := rest\<rparr>, d'))"
proof -
  have "deliver L H ps (w\<lparr>m_strData := m_strData w @ s\<rparr>, d) =
      (Inr Continue, (w'\<lparr>m_strData := m_strData w @ s\<rparr>, d'))"
    using assms(4) by (rule deliver_put)
  then show ?thesis
    using Process_loop_deliver [of "w\<lparr>m_strData := m_strData w @ s\<rparr>"] assms(1,2,3)
    by (simp add: Process_apply del: Process_loop.simps)
qed

end

lemma GetPackage_data_no_head: "no_head s \<Longrightarrow> GetPackage_data junk s = (Inr None, s)"
  by (simp add: GetPackage_data_def no_head_def cut_package_no_head)

text \<open>A worker with an empty buffer that receives exactly written packages and then noise.\<close>

context packet_handler
begin

lemma Process_packages:
  assumes "m_strData w = []" and "\<forall>p \<in> set ps. wf_package p" and "no_head n"
    and "length (concat (map package_string ps) @ n) < 2147483648"
    and "deliver L H ps (w, d) = (Inr Continue, (w', d'))"
  shows "Process L H (concat (map package_string ps) @ n) (w, d) =
    (Inr Drained, (w'\<lparr>m_strData := n\<rparr>, d'))"
  using assms(1,4,5) pkg.drain_all_encoded [OF assms(2) pkg.decode_noise [OF assms(3)] assms(4)]
    GetPackage_data_no_head [OF assms(3)]
  by (intro Process_deliver) auto

end

end
