(* ===== verification/PageTransfer.thy ===== *)
theory PageTransfer
  imports Receive
begin

text \<open>
  Messages and files across the wire: what the sending methods hand to the socket, and what
  the receive loop makes of all the pages of a message or a file. The file lemmas rest on
  the documented behaviour of jsoncpp objects and of the \<open>BaseLib\<close> file helpers, collected
  in two predicates.
\<close>

section \<open>Sending a message\<close>

definition first_page :: "string \<Rightarrow> string \<Rightarrow> PagTCP" where
  "first_page label s = msg_page label (int (length s)) 0 (page_text s 0)"

lemma SendMsgTo_run:
  assumes "length s < 2147483648"
  shows "SendMsgTo L w label s =
    andThen (send_package L w (first_page label s)) (\<lambda>r.
      if r \<le> 0 then ret (-1)
      else SendMsgTo_loop L w label s (int (length s)) [Suc 0..<Suc (length s div 1024)])"
proof (rule ext)
  fix d
  have upt: "[0..<Suc (length s div 1024)] = 0 # [Suc 0..<Suc (length s div 1024)]"
    by (simp add: upt_conv_Cons del: upt_Suc)
  show "SendMsgTo L w label s d = andThen (send_package L w (first_page label s)) (\<lambda>r.
      if r \<le> 0 then ret (-1)
      else SendMsgTo_loop L w label s (int (length s)) [Suc 0..<Suc (length s div 1024)]) d"
    using page_text_substr [OF assms, of 0]
    by (simp add: SendMsgTo_def Let_def c_int_nat [OF assms] page_count_upt upt andThen_apply
        of_result_apply first_page_def del: upt_Suc)
qed

text \<open>
  \<open>SendMsgTo\<close> sends the first page and then always gives up with \<open>-1\<close>, because
  \<open>send_package\<close> answers \<open>0\<close> on success.
\<close>

lemma SendMsgTo_gives_up:
  assumes "length s < 2147483648" and "m_bev w = Some fd"
  shows "\<exists>r. SendMsgTo L w label s d =
    (Inr (-1), d\<lparr>w_sends := w_sends d @ [(fd, package_string (first_page label s), r)]\<rparr>)"
  using assms
  by (intro exI [of _ "c_int (sock_send L (w_sends d) fd (package_string (first_page label s)))"])
    (simp add: SendMsgTo_run send_package_def prog_simps SendMsgTo_raw_def Let_def)

lemma SendMsgTo_all:
  assumes "sends_all L" and "m_bev w = Some fd" and "length s < 2147483648"
    and "length (package_string (first_page label s)) < 2147483648"
  shows "SendMsgTo L w label s d =
    (Inr (-1), d\<lparr>w_sends := w_sends d @
       [(fd, package_string (first_page label s),
         int (length (package_string (first_page label s))))]\<rparr>)"
  using assms by (simp add: SendMsgTo_run send_package_all prog_simps)

section \<open>Receiving a message\<close>

definition msg_pages :: "string \<Rightarrow> string \<Rightarrow> PagTCP list" where
  "msg_pages label s =
     map (\<lambda>i. msg_page label (int (length s)) i (page_text s i)) [0..<Suc (length s div 1024)]"

lemma msg_pages_short: "length s < 1024 \<Longrightarrow> msg_pages label s = [first_page label s]"
  by (simp add: msg_pages_def first_page_def)

lemma first_page_short: "length s < 1024 \<Longrightarrow>
    first_page label s = \<lparr>pag_label = label, pag_src = TCPSOURCE_SERVER,
      pag_type = TCPPACKAGE_MSG, pag_num = 1, pag_allnum = 1, pag_content = s\<rparr>"
  by (simp add: first_page_def msg_page_def page_text_def page_count_nat)

text \<open>A page that is not the last is stored and nothing else happens.\<close>

lemma process_msg_middle:
  assumes "i < length s div 1024"
  shows "process_package L H (msg_page label (int (length s)) i c) (w, d) =
    (Inr Continue, (w\<lparr>m_strMsgContent := m_strMsgContent w @ c\<rparr>, d))"
  using assms
  by (simp add: process_package_def process_msg_def msg_page_def page_count_nat prog_simps)

lemma process_msg_last:
  "process_package L H (msg_page label (int (length s)) (length s div 1024) c) (w, d) =
     (case excuteCommand H label (m_strMsgContent w @ c)
             (w\<lparr>m_strMsgContent := m_strMsgContent w @ c\<rparr>, d) of
        (Inl e, st) \<Rightarrow> (Inl e, st)
      | (Inr _, (w', d')) \<Rightarrow> (Inr Continue, (w'\<lparr>m_strMsgContent := []\<rparr>, d')))"
  by (simp add: process_package_def process_msg_def msg_page_def page_count_nat prog_simps
      split: prod.split sum.split)

lemma deliver_append:
  "deliver L H (ps @ qs) =
     andThen (deliver L H ps) (\<lambda>e. case e of Break \<Rightarrow> ret Break | Continue \<Rightarrow> deliver L H qs)"
proof (induction ps)
  case Nil
  then show ?case by (rule ext) (simp add: prog_simps)
next
  case (Cons p ps)
  then show ?case
    by (simp add: andThen_assoc fun_eq_iff andThen_apply ret_apply
        split: prod.split sum.split step_exit.split)
qed

lemma deliver_msg_prefix:
  "k \<le> length s div 1024 \<Longrightarrow>
   deliver L H (map (\<lambda>i. msg_page label (int (length s)) i (page_text s i)) [0..<k]) (w, d) =
     (Inr Continue, (w\<lparr>m_strMsgContent := m_strMsgContent w @ take (k * 1024) s\<rparr>, d))"
proof (induction k)
  case 0
  then show ?case by (simp add: prog_simps)
next
  case (Suc k)
  then have "take (k * 1024) s @ page_text s k = take (Suc k * 1024) s"
    using page_text_prefix [of k s] page_text_prefix [of "Suc k" s] by simp
  with Suc show ?case by (simp add: deliver_append andThen_apply process_msg_middle prog_simps)
qed

text \<open>All pages of a message run its command once, on the whole text after what was pending.\<close>

lemma deliver_msg_pages:
  "deliver L H (msg_pages label s) (w, d) =
     (case excuteCommand H label (m_strMsgContent w @ s)
             (w\<lparr>m_strMsgContent := m_strMsgContent w @ s\<rparr>, d) of
        (Inl e, st) \<Rightarrow> (Inl e, st)
      | (Inr _, (w', d')) \<Rightarrow> (Inr Continue, (w'\<lparr>m_strMsgContent := []\<rparr>, d')))"
proof -
  let ?k = "length s div 1024"
  have "take (?k * 1024) s @ page_text s ?k = s"
    using page_text_prefix [of ?k s] page_text_concat [of s] by simp
  then show ?thesis
    by (simp add: msg_pages_def deliver_append deliver_msg_prefix andThen_apply process_msg_last
        ret_apply split: prod.split sum.split)
qed

text \<open>The pages are packages the receiver reads back.\<close>

lemma str_find_None_take_drop:
  assumes "pat \<noteq> []" and "str_find pat s = None"
  shows "str_find pat (take n (drop m s)) = None"
proof -
  have "\<not> occurs_at pat (take n (drop m s)) i" for i
  proof
    assume occ: "occurs_at pat (take n (drop m s)) i"
    then have "i + length pat \<le> length (take n (drop m s))" using assms(1) by (rule occurs_at_length)
    with occ have "occurs_at pat (take n (drop m s) @ drop n (drop m s)) i"
      by (simp only: occurs_at_append)
    then have occ': "occurs_at pat (drop m s) i" by (simp only: append_take_drop_id)
    moreover from this have "m \<le> length s"
      using occurs_at_length [OF occ' assms(1)] assms(1) by (cases pat) auto
    ultimately have "occurs_at pat (take m s @ drop m s) (length (take m s) + i)"
      by (simp only: occurs_at_shift)
    then show False using assms by (auto simp: str_find_None_iff)
  qed
  then show ?thesis using assms(1) by (simp add: str_find_None_iff)
qed

lemma page_text_no_tail: "str_find PAGTAIL s = None \<Longrightarrow> str_find PAGTAIL (page_text s i) = None"
  by (simp add: page_text_def str_find_None_take_drop)

lemma wf_msg_page:
  assumes "length label = 4" and "length s < 2147483648" and "i \<le> length s div 1024"
    and "str_find PAGTAIL c = None"
  shows "wf_package (msg_page label (int (length s)) i c)"
  using assms page_count_range [of "length s"]
  by (simp add: wf_package_def msg_page_def source_of_int_def package_type_of_int_def
      int_range_def page_count_nat)

lemma wf_msg_pages:
  assumes "length label = 4" and "length s < 2147483648" and "str_find PAGTAIL s = None"
  shows "\<forall>p \<in> set (msg_pages label s). wf_package p"
  using assms by (auto simp: msg_pages_def page_text_no_tail intro!: wf_msg_page)

lemma wf_first_page:
  assumes "length label = 4" and "length s < 2147483648" and "str_find PAGTAIL s = None"
  shows "wf_package (first_page label s)"
  using assms by (simp add: first_page_def page_text_no_tail wf_msg_page)

section \<open>JSON pages\<close>

definition member_str :: "'j jsonlib \<Rightarrow> 'j \<Rightarrow> string \<Rightarrow> string \<Rightarrow> bool" where
  "member_str J v k s \<longleftrightarrow>
     (case js_index J v k of None \<Rightarrow> False
      | Some (v', x) \<Rightarrow> v' = v \<and> js_asString J x = Some s)"

definition member_int :: "'j jsonlib \<Rightarrow> 'j \<Rightarrow> string \<Rightarrow> int \<Rightarrow> bool" where
  "member_int J v k i \<longleftrightarrow>
     (case js_index J v k of None \<Rightarrow> False
      | Some (v', x) \<Rightarrow> v' = v \<and> js_asInt J x = Some i)"

lemma member_strE:
  assumes "member_str J v k s"
  obtains x where "js_index J v k = Some (v, x)" and "js_asString J x = Some s"
  using assms by (auto simp: member_str_def split: option.splits)

lemma member_intE:
  assumes "member_int J v k i"
  obtains x where "js_index J v k = Some (v, x)" and "js_asInt J x = Some i"
  using assms by (auto simp: member_int_def split: option.splits)

text \<open>A file page value: its description and its content.\<close>

definition page_view :: "'j jsonlib \<Rightarrow> ('j \<Rightarrow> bool) \<Rightarrow> 'j \<Rightarrow> 'j \<Rightarrow> string \<Rightarrow> bool" where
  "page_view J is_obj v describe c \<longleftrightarrow>
     is_obj v \<and> js_index J v FILE_DESCRIBE = Some (v, describe) \<and> member_str J v FILE_CONTENT c"

lemma page_view_put_describe:
  assumes J: "json_objects J is_obj" and v: "page_view J is_obj v describe c"
  obtains w where "js_put J v FILE_DESCRIBE x = Some w" and "page_view J is_obj w x c"
proof -
  have "is_obj v" using v by (simp add: page_view_def)
  then obtain w where w: "js_put J v FILE_DESCRIBE x = Some w" "is_obj w"
    "js_index J w FILE_DESCRIBE = Some (w, x)"
    using json_objects_set [OF J, of v FILE_DESCRIBE x] by blast
  obtain y where y: "js_index J v FILE_CONTENT = Some (v, y)" "js_asString J y = Some c"
    using v by (auto simp: page_view_def elim: member_strE)
  have "js_index J w FILE_CONTENT = Some (w, y)" 
    using \<open>is_obj v\<close> y(1) by (intro json_objects_keep [OF J _ w(1)]) (simp_all add: json_keys)
  with w y(2) have "page_view J is_obj w x c" by (simp add: page_view_def member_str_def)
  with w(1) show thesis by (rule that)
qed

lemma page_json_view:
  assumes J: "json_objects (json L) is_obj"
  obtains v where "page_json L describe c = Some v" and "page_view (json L) is_obj v describe c"
proof -
  obtain v1 where v1: "js_put (json L) (js_null (json L)) FILE_DESCRIBE describe = Some v1"
    "is_obj v1" "js_index (json L) v1 FILE_DESCRIBE = Some (v1, describe)"
    using json_objects_set [OF J disjI2 [OF refl], of FILE_DESCRIBE describe] by blast
  obtain v where v: "js_put (json L) v1 FILE_CONTENT (js_of_string (json L) c) = Some v" "is_obj v"
    "js_index (json L) v FILE_CONTENT = Some (v, js_of_string (json L) c)"
    using json_objects_set [OF J disjI1 [OF v1(2)], of FILE_CONTENT "js_of_string (json L) c"] by blast
  have "js_index (json L) v FILE_DESCRIBE = Some (v, describe)"
    using v1(3) by (intro json_objects_keep [OF J disjI1 [OF v1(2)] v(1)]) (simp_all add: json_keys)
  with v have "page_view (json L) is_obj v describe c"
    by (simp add: page_view_def member_str_def json_objects_values [OF J])
  moreover have "page_json L describe c = Some v" using v1(1) v(1) by (simp add: page_json_def)
  ultimately show thesis by (intro that)
qed

lemma json_str2_view:
  assumes J: "json_objects J is_obj" and v: "page_view J is_obj v describe c"
    and m: "member_str J describe k s"
  obtains v' where "json_str2 J v FILE_DESCRIBE k = Some (v', s)" and "page_view J is_obj v' describe c"
proof -
  obtain w where "js_put J v FILE_DESCRIBE describe = Some w" "page_view J is_obj w describe c"
    using J v by (rule page_view_put_describe)
  with v m show thesis
    by (intro that [of w])
      (auto simp: json_str2_def json_at2_def page_view_def elim: member_strE)
qed

lemma json_int2_view:
  assumes J: "json_objects J is_obj" and v: "page_view J is_obj v describe c"
    and m: "member_int J describe k s"
  obtains v' where "json_int2 J v FILE_DESCRIBE k = Some (v', s)" and "page_view J is_obj v' describe c"
proof -
  obtain w where "js_put J v FILE_DESCRIBE describe = Some w" "page_view J is_obj w describe c"
    using J v by (rule page_view_put_describe)
  with v m show thesis
    by (intro that [of w])
      (auto simp: json_int2_def json_at2_def page_view_def elim: member_intE)
qed

lemma json_set2_view:
  assumes J: "json_objects J is_obj" and v: "page_view J is_obj v describe c"
    and p: "js_put J describe k x = Some describe'"
  obtains v' where "json_set2 J v FILE_DESCRIBE k x = Some v'" and "page_view J is_obj v' describe' c"
proof -
  obtain w where "js_put J v FILE_DESCRIBE describe' = Some w" "page_view J is_obj w describe' c"
    using J v by (rule page_view_put_describe)
  with v p show thesis
    by (intro that [of w]) (auto simp: json_set2_def page_view_def)
qed

text \<open>The file name a description leads to, on the server and on the client.\<close>

definition describes_name :: "('j, 'd) libs \<Rightarrow> 'j \<Rightarrow> string \<Rightarrow> bool" where
  "describes_name L describe name \<longleftrightarrow>
     (if SERVER L then
        (\<exists>course student nType. member_str (json L) describe FILE_COURES course \<and>
           member_str (json L) describe FILE_STUDENT student \<and>
           member_int (json L) describe FILE_TYPE nType \<and>
           name = course @ ''_'' @ student @ GetExtension nType)
      else member_str (json L) describe FILE_NAME name)"

lemma describes_server_name:
  assumes "SERVER L" and "member_str (json L) describe FILE_COURES course"
    and "member_str (json L) describe FILE_STUDENT student" and "member_int (json L) describe FILE_TYPE nType"
    and "name = course @ ''_'' @ student @ GetExtension nType"
  shows "describes_name L describe name"
  using assms by (auto simp: describes_name_def)

lemma upload_name_view:
  assumes J: "json_objects (json L) is_obj" and v: "page_view (json L) is_obj v describe c"
    and n: "describes_name L describe name"
  obtains v' where "upload_name L v = Some (v', name)" and "page_view (json L) is_obj v' describe c"
proof (cases "SERVER L")
  case True
  with n obtain course student nType
    where m: "member_str (json L) describe FILE_COURES course"
      "member_str (json L) describe FILE_STUDENT student"
      "member_int (json L) describe FILE_TYPE nType"
      and name: "name = course @ ''_'' @ student @ GetExtension nType"
    by (auto simp: describes_name_def)
  obtain v1 where v1: "json_str2 (json L) v FILE_DESCRIBE FILE_COURES = Some (v1, course)"
    "page_view (json L) is_obj v1 describe c"
    using J v m(1) by (rule json_str2_view)
  obtain v2 where v2: "json_str2 (json L) v1 FILE_DESCRIBE FILE_STUDENT = Some (v2, student)"
    "page_view (json L) is_obj v2 describe c"
    using J v1(2) m(2) by (rule json_str2_view)
  obtain v3 where v3: "json_int2 (json L) v2 FILE_DESCRIBE FILE_TYPE = Some (v3, nType)"
    "page_view (json L) is_obj v3 describe c"
    using J v2(2) m(3) by (rule json_int2_view)
  show thesis
    by (rule that [of v3]) (simp_all add: upload_name_def True v1(1) v2(1) v3 name)
next
  case False
  with n have "member_str (json L) describe FILE_NAME name" by (simp add: describes_name_def)
  with J v obtain v' where "json_str2 (json L) v FILE_DESCRIBE FILE_NAME = Some (v', name)"
    "page_view (json L) is_obj v' describe c"
    by (rule json_str2_view)
  with False show thesis by (intro that [of v']) (simp_all add: upload_name_def)
qed

section \<open>Receiving a file\<close>

text \<open>
  The files of the receiver behave at the path \<open>p\<close>: it can be opened for appending, it exists
  exactly when it has contents, removing it removes it, and making a directory does not touch
  it.
\<close>

definition files_at :: "('j, 'd) libs \<Rightarrow> string \<Rightarrow> bool" where
  "files_at L p \<longleftrightarrow>
     (\<forall>fs. can_append L fs p \<and> (IsFileExist L fs p \<longleftrightarrow> fs p \<noteq> None) \<and>
        CxxDeleteFile L fs p p = None \<and> (\<forall>q. CxxCreateDirectory L fs q p = fs p))"

text \<open>The JSON text of a page survives writing and parsing.\<close>

definition page_roundtrip :: "('j, 'd) libs \<Rightarrow> 'j \<Rightarrow> string \<Rightarrow> bool" where
  "page_roundtrip L describe tmp \<longleftrightarrow>
     (case page_json L describe tmp of None \<Rightarrow> False
      | Some v \<Rightarrow> StringToJson L (js_write (json L) v) = Some v)"

definition file_page_of :: "('j, 'd) libs \<Rightarrow> string \<Rightarrow> 'j \<Rightarrow> string \<Rightarrow> nat \<Rightarrow> PagTCP" where
  "file_page_of L label describe c i =
     file_page label (int (length c)) i
       (case page_json L describe (page_text c i) of None \<Rightarrow> [] | Some v \<Rightarrow> js_write (json L) v)"

definition file_pages :: "('j, 'd) libs \<Rightarrow> string \<Rightarrow> 'j \<Rightarrow> string \<Rightarrow> PagTCP list" where
  "file_pages L label describe c =
     map (file_page_of L label describe c) [0..<Suc (length c div 1024)]"

text \<open>The path a received file is stored at.\<close>

definition upload_path :: "('j, 'd) libs \<Rightarrow> string \<Rightarrow> string \<Rightarrow> string" where
  "upload_path L cls name = DIRECTORY_ROOT_UP L @ cls @ [PATH_SEPARATOR L] @ name"

definition same_elsewhere :: "'d world \<Rightarrow> 'd world \<Rightarrow> bool" where
  "same_elsewhere d d' \<longleftrightarrow> w_sends d' = w_sends d \<and> w_db d' = w_db d"

lemma same_elsewhere_refl [simp]: "same_elsewhere d d"
  by (simp add: same_elsewhere_def)

lemma same_elsewhere_trans: "same_elsewhere a b \<Longrightarrow> same_elsewhere b c \<Longrightarrow> same_elsewhere a c"
  by (simp add: same_elsewhere_def)

text \<open>One file page: the page is appended to what the path held, or replaces it when it is the
  first.\<close>

lemma write_page_view:
  assumes J: "json_objects (json L) is_obj" and v: "page_view (json L) is_obj v describe c"
    and p: "can_append L (w_fs d) (c_str strPath)"
    and d': "d' = d\<lparr>w_fs := fs_append (fs_append (w_fs d) (c_str strPath) []) (c_str strPath) c\<rparr>"
  shows "write_page L H pag strPath v (w, d) =
    (if pag_num pag < pag_allnum pag then (Inr Continue, (w, d'))
     else (case excuteFile H (pag_label pag) describe (w, d') of
             (Inl e, st) \<Rightarrow> (Inl e, st) | (Inr _, st) \<Rightarrow> (Inr Continue, st)))"
proof -
  obtain x where x: "js_index (json L) v FILE_CONTENT = Some (v, x)" "js_asString (json L) x = Some c"
    using v by (auto simp: page_view_def elim: member_strE)
  have "js_index (json L) v FILE_DESCRIBE = Some (v, describe)" using v by (simp add: page_view_def)
  with x p show ?thesis
    by (simp add: write_page_def on_fs_def prog_simps json_str_def d'
        split: prod.split sum.split)
qed

lemma process_file_page:
  assumes J: "json_objects (json L) is_obj" and d: "is_obj describe"
    and cls: "member_str (json L) describe FILE_CLASS cls"
    and name: "describes_name L describe name"
    and fs: "files_at L (c_str (upload_path L cls name))"
    and rt: "page_roundtrip L describe (page_text c i)"
    and i: "i \<le> length c div 1024"
  obtains describe' dd' where
    "js_put (json L) describe FILE_PATH (js_of_string (json L) (upload_path L cls name)) = Some describe'"
    and "w_fs dd' (c_str (upload_path L cls name)) =
      Some ((if i = 0 then []
             else case w_fs dd (c_str (upload_path L cls name)) of None \<Rightarrow> [] | Some x \<Rightarrow> x) @
            page_text c i)"
    and "same_elsewhere dd dd'"
    and "process_package L H (file_page_of L label describe c i) (w, dd) =
      (if i < length c div 1024 then (Inr Continue, (w, dd'))
       else (case excuteFile H label describe' (w, dd') of
               (Inl e, st) \<Rightarrow> (Inl e, st) | (Inr _, st) \<Rightarrow> (Inr Continue, st)))"
proof -
  let ?p = "upload_path L cls name"
  obtain v where v: "page_json L describe (page_text c i) = Some v"
    "page_view (json L) is_obj v describe (page_text c i)"
    using J by (rule page_json_view)
  then have parse: "StringToJson L (js_write (json L) v) = Some v"
    using rt by (simp add: page_roundtrip_def)
  obtain v1 where v1: "json_str2 (json L) v FILE_DESCRIBE FILE_CLASS = Some (v1, cls)"
    "page_view (json L) is_obj v1 describe (page_text c i)"
    using J v(2) cls by (rule json_str2_view)
  obtain v2 where v2: "upload_name L v1 = Some (v2, name)"
    "page_view (json L) is_obj v2 describe (page_text c i)"
    using J v1(2) name by (rule upload_name_view)
  obtain describe' where d': "js_put (json L) describe FILE_PATH (js_of_string (json L) ?p) = Some describe'"
    using json_objects_set [OF J disjI1 [OF d]] by blast
  obtain v3 where v3: "json_set2 (json L) v2 FILE_DESCRIBE FILE_PATH (js_of_string (json L) ?p) = Some v3"
    "page_view (json L) is_obj v3 describe' (page_text c i)"
    using J v2(2) d' by (rule json_set2_view)
  define pag where "pag = file_page_of L label describe c i"
  define dir where "dir = DIRECTORY_ROOT_UP L @ cls @ [PATH_SEPARATOR L]"
  define dd1 where "dd1 = dd\<lparr>w_fs := ensure_directory L dir (w_fs dd)\<rparr>"
  define dd2 where "dd2 = dd1\<lparr>w_fs := drop_old_file L (pag_num pag) ?p (w_fs dd1)\<rparr>"
  define dd3 where "dd3 = dd2\<lparr>w_fs := fs_append (fs_append (w_fs dd2) (c_str ?p) []) (c_str ?p) (page_text c i)\<rparr>"
  have pag: "pag_type pag = TCPPACKAGE_FILE" "pag_content pag = js_write (json L) v"
    "pag_label pag = label" "pag_num pag = int i + 1" "pag_allnum pag = int (length c div 1024) + 1"
    by (simp_all add: pag_def file_page_of_def file_page_def v(1) page_count_nat zdiv_int)
  have "process_package L H pag (w, dd) = write_page L H pag ?p v3 (w, dd2)"
    using parse v1(1) v2(1) v3(1)
    by (simp add: process_package_def process_file_def pag(1,2) on_fs_def prog_simps Let_def
        upload_path_def dir_def dd1_def dd2_def)
  also have "\<dots> = (if pag_num pag < pag_allnum pag then (Inr Continue, (w, dd3))
     else (case excuteFile H (pag_label pag) describe' (w, dd3) of
             (Inl e, st) \<Rightarrow> (Inl e, st) | (Inr _, st) \<Rightarrow> (Inr Continue, st)))"
    using fs by (intro write_page_view [OF J v3(2)]) (simp_all add: files_at_def dd3_def)
  finally have run: "process_package L H (file_page_of L label describe c i) (w, dd) =
      (if i < length c div 1024 then (Inr Continue, (w, dd3))
       else (case excuteFile H label describe' (w, dd3) of
               (Inl e, st) \<Rightarrow> (Inl e, st) | (Inr _, st) \<Rightarrow> (Inr Continue, st)))"
    by (simp add: pag flip: pag_def)
  have old: "w_fs dd1 (c_str ?p) = w_fs dd (c_str ?p)"
    using fs by (simp add: dd1_def ensure_directory_def files_at_def)
  have "w_fs dd2 (c_str ?p) = (if i = 0 then None else w_fs dd (c_str ?p))"
    using fs old by (simp add: dd2_def drop_old_file_def files_at_def pag(4))
  then have "w_fs dd3 (c_str ?p) =
      Some ((if i = 0 then [] else case w_fs dd (c_str ?p) of None \<Rightarrow> [] | Some x \<Rightarrow> x) @ page_text c i)"
    by (simp add: dd3_def split: option.split)
  moreover have "same_elsewhere dd dd3"
    by (simp add: same_elsewhere_def dd3_def dd2_def dd1_def)
  ultimately show thesis using d' run by (intro that)
qed

lemma deliver_file_prefix:
  assumes J: "json_objects (json L) is_obj" and d: "is_obj describe"
    and cls: "member_str (json L) describe FILE_CLASS cls"
    and name: "describes_name L describe name"
    and fs: "files_at L (c_str (upload_path L cls name))"
    and rt: "\<And>i. i \<le> length c div 1024 \<Longrightarrow> page_roundtrip L describe (page_text c i)"
  shows "k \<le> length c div 1024 \<Longrightarrow>
    \<exists>dd'. deliver L H (map (file_page_of L label describe c) [0..<k]) (w, dd) = (Inr Continue, (w, dd')) \<and>
      same_elsewhere dd dd' \<and>
      (0 < k \<longrightarrow> w_fs dd' (c_str (upload_path L cls name)) = Some (take (k * 1024) c))"
proof (induction k)
  case 0
  then show ?case by (auto simp: prog_simps)
next
  case (Suc k)
  let ?p = "c_str (upload_path L cls name)"
  obtain dd1 where run: "deliver L H (map (file_page_of L label describe c) [0..<k]) (w, dd) = (Inr Continue, (w, dd1))"
    and se: "same_elsewhere dd dd1" and pre: "0 < k \<longrightarrow> w_fs dd1 ?p = Some (take (k * 1024) c)"
    using Suc by auto
  obtain describe' dd2 where
    fs2: "w_fs dd2 ?p = Some ((if k = 0 then [] else case w_fs dd1 ?p of None \<Rightarrow> [] | Some x \<Rightarrow> x) @ page_text c k)"
    and se2: "same_elsewhere dd1 dd2"
    and pp: "process_package L H (file_page_of L label describe c k) (w, dd1) =
      (if k < length c div 1024 then (Inr Continue, (w, dd2))
       else (case excuteFile H label describe' (w, dd2) of
               (Inl e, st) \<Rightarrow> (Inl e, st) | (Inr _, st) \<Rightarrow> (Inr Continue, st)))"
    using process_file_page [where i = k and dd = dd1 and H = H and label = label and w = w,
        OF J d cls name fs rt] Suc.prems by auto
  have "take (k * 1024) c @ page_text c k = take (Suc k * 1024) c"
    using page_text_prefix [of k c] page_text_prefix [of "Suc k" c] Suc.prems by simp
  then have "w_fs dd2 ?p = Some (take (Suc k * 1024) c)"
    using fs2 pre by (cases "k = 0") simp_all
  moreover have "deliver L H (map (file_page_of L label describe c) [0..<Suc k]) (w, dd) =
      (Inr Continue, (w, dd2))"
    using run pp Suc.prems by (simp add: deliver_append andThen_apply ret_apply)
  moreover have "same_elsewhere dd dd2" using se se2 by (rule same_elsewhere_trans)
  ultimately show ?case by blast
qed

text \<open>
  All pages of a file: the path holds exactly the file, and \<open>excuteFile\<close> runs once, on the
  description completed with that path.
\<close>

lemma deliver_file_pages:
  assumes J: "json_objects (json L) is_obj" and d: "is_obj describe"
    and cls: "member_str (json L) describe FILE_CLASS cls"
    and name: "describes_name L describe name"
    and fs: "files_at L (c_str (upload_path L cls name))"
    and rt: "\<And>i. i \<le> length c div 1024 \<Longrightarrow> page_roundtrip L describe (page_text c i)"
  obtains describe' dd' where
    "js_put (json L) describe FILE_PATH (js_of_string (json L) (upload_path L cls name)) = Some describe'"
    and "w_fs dd' (c_str (upload_path L cls name)) = Some c"
    and "same_elsewhere dd dd'"
    and "deliver L H (file_pages L label describe c) (w, dd) =
      (case excuteFile H label describe' (w, dd') of
         (Inl e, st) \<Rightarrow> (Inl e, st) | (Inr _, st) \<Rightarrow> (Inr Continue, st))"
proof -
  let ?k = "length c div 1024" and ?p = "c_str (upload_path L cls name)"
  obtain dd1 where run: "deliver L H (map (file_page_of L label describe c) [0..<?k]) (w, dd) = (Inr Continue, (w, dd1))"
    and se: "same_elsewhere dd dd1" and pre: "0 < ?k \<longrightarrow> w_fs dd1 ?p = Some (take (?k * 1024) c)"
    using deliver_file_prefix [where k = ?k and dd = dd and H = H and label = label and w = w,
        OF J d cls name fs rt] by auto
  obtain describe' dd2 where
    d': "js_put (json L) describe FILE_PATH (js_of_string (json L) (upload_path L cls name)) = Some describe'"
    and fs2: "w_fs dd2 ?p = Some ((if ?k = 0 then [] else case w_fs dd1 ?p of None \<Rightarrow> [] | Some x \<Rightarrow> x) @ page_text c ?k)"
    and se2: "same_elsewhere dd1 dd2"
    and pp: "process_package L H (file_page_of L label describe c ?k) (w, dd1) =
      (if ?k < ?k then (Inr Continue, (w, dd2))
       else (case excuteFile H label describe' (w, dd2) of
               (Inl e, st) \<Rightarrow> (Inl e, st) | (Inr _, st) \<Rightarrow> (Inr Continue, st)))"
    by (rule process_file_page [where i = ?k and dd = dd1 and H = H and label = label and w = w,
        OF J d cls name fs rt]) auto
  have "take (?k * 1024) c @ page_text c ?k = c"
    using page_text_prefix [of ?k c] page_text_concat [of c] by simp
  then have "w_fs dd2 ?p = Some c" using fs2 pre by (cases "?k = 0") simp_all
  moreover have "deliver L H (file_pages L label describe c) (w, dd) =
      (case excuteFile H label describe' (w, dd2) of
         (Inl e, st) \<Rightarrow> (Inl e, st) | (Inr _, st) \<Rightarrow> (Inr Continue, st))"
    using run pp
    by (simp add: file_pages_def deliver_append andThen_apply ret_apply split: prod.split sum.split)
  ultimately show thesis using d' same_elsewhere_trans [OF se se2] by (intro that)
qed

section \<open>Sending a file\<close>

text \<open>The description names the file and has the members the receiver asks for.\<close>

lemma file_buffer_text: "NUL \<notin> set c \<Longrightarrow> file_buffer L c = c @ c_str (heap_after L)"
  by (simp add: file_buffer_def c_str_append)

text \<open>Whatever follows the array in memory, the pages cut from the buffer are those of the file.\<close>

lemma page_text_buffer:
  assumes "length c < 2147483648" and "i \<le> length c div 1024"
  shows "cpp_substr (c @ t) (i * PAGSIZE) (size_of (page_length (int (length c)) (int i))) = Inr (page_text c i)"
proof -
  have le: "i * 1024 \<le> length c" using assms(2) by (metis div_times_less_eq_dividend le_trans mult_le_mono1)
  have "size_of (int (length c mod 1024)) = length c mod 1024"
    by (simp add: size_of_int order.strict_trans [OF mod_less_divisor])
  moreover have "size_of 1024 = 1024" by (simp add: size_of_def)
  moreover have "length c mod 1024 \<le> length c - i * 1024" if "i = length c div 1024"
    by (simp add: that minus_div_mult_eq_mod)
  moreover have "1024 \<le> length c - i * 1024" if "i < length c div 1024"
  proof -
    have "Suc i * 1024 \<le> length c"
      using that by (metis Suc_leI div_times_less_eq_dividend le_trans mult_le_mono1)
    then show ?thesis by simp
  qed
  ultimately show ?thesis
    using le assms(2)
    by (auto simp: cpp_substr_def page_text_def PAGSIZE_def page_length_nat simp del: of_nat_mod zmod_int)
qed

definition sent :: "int \<Rightarrow> PagTCP \<Rightarrow> send_call" where
  "sent fd p = (fd, package_string p, int (length (package_string p)))"

lemma wire_sent: "wire fd (map (sent fd) ps) = concat (map package_string ps)"
  by (induction ps) (simp_all add: wire_def sent_def accepted_def)

lemma SendFileTo_loop_all:
  assumes s: "sends_all L" and w: "m_bev w = Some fd" and len: "length c < 2147483648"
    and J: "\<And>i. i \<le> length c div 1024 \<Longrightarrow> page_json L describe (page_text c i) \<noteq> None"
    and p: "\<And>i. i \<le> length c div 1024 \<Longrightarrow>
      length (package_string (file_page_of L label describe c i)) < 2147483648"
  shows "\<forall>i \<in> set is. i \<le> length c div 1024 \<Longrightarrow>
    SendFileTo_loop L w label describe (c @ t) (int (length c)) is d =
      (Inr (), d\<lparr>w_sends := w_sends d @ map (\<lambda>i. sent fd (file_page_of L label describe c i)) is\<rparr>)"
proof (induction "is" arbitrary: d)
  case Nil
  then show ?case by (simp add: prog_simps)
next
  case (Cons i js)
  obtain v where v: "page_json L describe (page_text c i) = Some v" using J Cons.prems by fastforce
  then have fp: "file_page_of L label describe c i =
      file_page label (int (length c)) i (js_write (json L) v)"
    by (simp add: file_page_of_def)
  have "cpp_substr (c @ t) (i * PAGSIZE) (size_of (page_length (int (length c)) (int i))) = Inr (page_text c i)"
    using len Cons.prems by (intro page_text_buffer) auto
  with v fp Cons p [of i] show ?case
    by (simp add: prog_simps send_package_all [OF s w] sent_def)
qed

text \<open>A page is no longer than all the pages.\<close>

lemma file_page_short:
  assumes "i \<le> length c div 1024"
    and "length (concat (map package_string (file_pages L label describe c))) < n"
  shows "length (package_string (file_page_of L label describe c i)) < n"
proof -
  have "file_page_of L label describe c i \<in> set (file_pages L label describe c)"
    using assms(1) by (simp add: file_pages_def del: upt_Suc)
  then have "length (package_string (file_page_of L label describe c i)) \<le>
      length (concat (map package_string (file_pages L label describe c)))"
    unfolding length_concat by (intro member_le_sum_list) auto
  with assms(2) show ?thesis by simp
qed

text \<open>
  A file without zero bytes is sent page by page, completely, on a socket that accepts
  everything.
\<close>

lemma SendFileTo_all:
  assumes s: "sends_all L" and w: "m_bev w = Some fd" and len: "length c < 2147483648"
    and nul: "NUL \<notin> set c"
    and parse: "StringToJson L strMsg = Some js0"
    and path: "json_str2 (json L) js0 FILE_DESCRIBE FILE_PATH = Some (js1, filePath)"
    and content: "w_fs d (c_str filePath) = Some c"
    and desc: "js_index (json L) js1 FILE_DESCRIBE = Some (js2, describe)"
    and J: "\<And>i. i \<le> length c div 1024 \<Longrightarrow> page_json L describe (page_text c i) \<noteq> None"
    and p: "\<And>i. i \<le> length c div 1024 \<Longrightarrow>
      length (package_string (file_page_of L label describe c i)) < 2147483648"
  shows "SendFileTo L w label strMsg d =
    (Inr (), d\<lparr>w_sends := w_sends d @ map (sent fd) (file_pages L label describe c)\<rparr>)"
proof -
  have "SendFileTo_loop L w label describe (c @ c_str (heap_after L)) (int (length c))
      [0..<Suc (length c div 1024)] d =
    (Inr (), d\<lparr>w_sends := w_sends d @
      map (\<lambda>i. sent fd (file_page_of L label describe c i)) [0..<Suc (length c div 1024)]\<rparr>)"
    by (rule SendFileTo_loop_all [OF s w len J p]) auto
  then show ?thesis
    using parse path content desc nul
    by (simp add: SendFileTo_def prog_simps Let_def c_int_nat [OF len] file_buffer_text
        page_count_upt file_pages_def comp_def del: upt_Suc)
qed

text \<open>
  A file with a zero byte: the buffer ends there, and so do the pages cut from it. \<open>sz\<close> is the
  size of the whole file.
\<close>

definition cut_text :: "string \<Rightarrow> nat \<Rightarrow> nat \<Rightarrow> string" where
  "cut_text buf sz i = take (if i = sz div 1024 then sz mod 1024 else 1024) (drop (i * 1024) buf)"

definition cut_page ::
    "('j, 'd) libs \<Rightarrow> string \<Rightarrow> 'j \<Rightarrow> string \<Rightarrow> nat \<Rightarrow> nat \<Rightarrow> PagTCP" where
  "cut_page L label describe buf sz i =
     file_page label (int sz) i
       (case page_json L describe (cut_text buf sz i) of None \<Rightarrow> [] | Some v \<Rightarrow> js_write (json L) v)"

lemma cut_text_substr:
  assumes "sz < 2147483648" and "i * 1024 \<le> length buf"
  shows "cpp_substr buf (i * PAGSIZE) (size_of (page_length (int sz) (int i))) = Inr (cut_text buf sz i)"
proof -
  have "size_of (int (sz mod 1024)) = sz mod 1024"
    by (simp add: size_of_int order.strict_trans [OF mod_less_divisor])
  moreover have "size_of 1024 = 1024" by (simp add: size_of_def)
  ultimately show ?thesis
    using assms(2) by (simp add: cpp_substr_def cut_text_def PAGSIZE_def page_length_nat del: of_nat_mod zmod_int)
qed

lemma substr_past_end: "length buf < i * 1024 \<Longrightarrow> cpp_substr buf (i * PAGSIZE) n = Inl Out_of_range"
  by (simp add: cpp_substr_def PAGSIZE_def)

lemma SendFileTo_loop_cut:
  assumes s: "sends_all L" and w: "m_bev w = Some fd" and sz: "sz < 2147483648"
    and J: "\<And>t. page_json L describe t \<noteq> None"
    and p: "\<And>i. i * 1024 \<le> length buf \<Longrightarrow> length (package_string (cut_page L label describe buf sz i)) < 2147483648"
  shows "\<forall>i \<in> set is. i * 1024 \<le> length buf \<Longrightarrow>
    SendFileTo_loop L w label describe buf (int sz) (is @ js) d =
      SendFileTo_loop L w label describe buf (int sz) js
        (d\<lparr>w_sends := w_sends d @ map (\<lambda>i. sent fd (cut_page L label describe buf sz i)) is\<rparr>)"
proof (induction "is" arbitrary: d)
  case Nil
  then show ?case by simp
next
  case (Cons i ks)
  obtain v where v: "page_json L describe (cut_text buf sz i) = Some v" using J by fastforce
  then have cp: "cut_page L label describe buf sz i = file_page label (int sz) i (js_write (json L) v)"
    by (simp add: cut_page_def)
  have "cpp_substr buf (i * PAGSIZE) (size_of (page_length (int sz) (int i))) = Inr (cut_text buf sz i)"
    using Cons.prems by (intro cut_text_substr [OF sz]) simp
  with v cp Cons p [of i] show ?case
    by (simp add: prog_simps send_package_all [OF s w] sent_def)
qed

text \<open>
  \<open>substr\<close> throws at the first page that starts behind the zero byte; when there is none, the
  last page is cut short.
\<close>

lemma SendFileTo_zero_byte:
  assumes s: "sends_all L" and w: "m_bev w = Some fd"
    and c: "c = a @ NUL # b" "NUL \<notin> set a" "length c < 2147483648"
    and parse: "StringToJson L strMsg = Some js0"
    and path: "json_str2 (json L) js0 FILE_DESCRIBE FILE_PATH = Some (js1, filePath)"
    and content: "w_fs d (c_str filePath) = Some c"
    and desc: "js_index (json L) js1 FILE_DESCRIBE = Some (js2, describe)"
    and J: "\<And>t. page_json L describe t \<noteq> None"
    and p: "\<And>i. i * 1024 \<le> length a \<Longrightarrow>
      length (package_string (cut_page L label describe a (length c) i)) < 2147483648"
  shows "SendFileTo L w label strMsg d =
    (if length a div 1024 < length c div 1024 then Inl Out_of_range else Inr (),
     d\<lparr>w_sends := w_sends d @ map (\<lambda>i. sent fd (cut_page L label describe a (length c) i))
       [0..<Suc (length a div 1024)]\<rparr>)"
proof -
  let ?k = "length a div 1024" and ?n = "length c div 1024"
  let ?d = "d\<lparr>w_sends := w_sends d @ map (\<lambda>i. sent fd (cut_page L label describe a (length c) i)) [0..<Suc ?k]\<rparr>"
  have buf: "file_buffer L c = a"
    using c(2) by (simp add: c(1) file_buffer_def c_str_append) (simp add: c_str_def)
  have le: "?k \<le> ?n" using c(1) by (simp add: div_le_mono)
  have split: "[0..<Suc ?n] = [0..<Suc ?k] @ [Suc ?k..<Suc ?n]"
    using upt_add_eq_append [of 0 "Suc ?k" "?n - ?k"] le by simp
  have pre: "\<forall>i \<in> set [0..<Suc ?k]. i * 1024 \<le> length a"
    by (auto simp: less_Suc_eq_le less_eq_div_iff_mult_less_eq simp del: upt_Suc)
  have "SendFileTo_loop L w label describe a (int (length c)) [0..<Suc ?n] d =
      SendFileTo_loop L w label describe a (int (length c)) [Suc ?k..<Suc ?n] ?d"
    unfolding split by (rule SendFileTo_loop_cut [OF s w c(3) J p pre])
  also have "\<dots> = (if ?k < ?n then Inl Out_of_range else Inr (), ?d)"
  proof (cases "?k < ?n")
    case True
    have "length a < Suc ?k * 1024" by (simp add: div_less_iff_less_mult flip: less_Suc_eq_le)
    then have "cpp_substr a (Suc ?k * PAGSIZE) n = Inl Out_of_range" for n by (rule substr_past_end)
    moreover have "[Suc ?k..<Suc ?n] = Suc ?k # [Suc (Suc ?k)..<Suc ?n]" using True by (intro upt_conv_Cons) simp
    ultimately show ?thesis using True by (simp add: prog_simps del: upt_Suc mult_Suc)
  next
    case False
    then show ?thesis using le by (simp add: prog_simps)
  qed
  finally show ?thesis
    using parse path content desc
    by (simp add: SendFileTo_def prog_simps Let_def c_int_nat [OF c(3)] buf page_count_upt del: upt_Suc)
qed

end
