(* ===== verification/DemoLibs.thy ===== *)
theory DemoLibs
  imports PageTransfer
begin

text \<open>
  One concrete environment, so that the theorems about an arbitrary environment can be applied
  to inputs and evaluated. JSON values are trees; the parser knows the texts it is given in a
  table. The database answers every statement from a script of results, and sockets take all
  bytes unless told otherwise. None of this models a library: it only shows that hypotheses
  can hold together.
\<close>

section \<open>JSON trees\<close>

datatype jval = JNull | JStr string | JInt int | JObj "(string \<times> jval) list"

fun demo_index :: "jval \<Rightarrow> string \<Rightarrow> (jval \<times> jval) option" where
  "demo_index JNull k = Some (JObj [(k, JNull)], JNull)"
| "demo_index (JObj kvs) k =
     (case map_of kvs k of
        Some x \<Rightarrow> Some (JObj kvs, x)
      | None \<Rightarrow> Some (JObj (kvs @ [(k, JNull)]), JNull))"
| "demo_index v k = None"

fun demo_assign :: "(string \<times> jval) list \<Rightarrow> string \<Rightarrow> jval \<Rightarrow> (string \<times> jval) list" where
  "demo_assign [] k x = [(k, x)]"
| "demo_assign ((j, y) # kvs) k x = (if j = k then (j, x) # kvs else (j, y) # demo_assign kvs k x)"

fun demo_put :: "jval \<Rightarrow> string \<Rightarrow> jval \<Rightarrow> jval option" where
  "demo_put JNull k x = Some (JObj [(k, x)])"
| "demo_put (JObj kvs) k x = Some (JObj (demo_assign kvs k x))"
| "demo_put v k x = None"

fun demo_string :: "jval \<Rightarrow> string option" where
  "demo_string JNull = Some []"
| "demo_string (JStr s) = Some s"
| "demo_string (JInt i) = Some (num_to_string i)"
| "demo_string (JObj kvs) = None"

fun demo_int :: "jval \<Rightarrow> int option" where
  "demo_int JNull = Some 0"
| "demo_int (JInt i) = Some i"
| "demo_int v = None"

text \<open>A text for a value; the parser finds a value by its text.\<close>

fun demo_text :: "jval \<Rightarrow> string" and demo_members :: "(string \<times> jval) list \<Rightarrow> string" where
  "demo_text JNull = ''null''"
| "demo_text (JStr s) = CHR 0x22 # s @ [CHR 0x22]"
| "demo_text (JInt i) = num_to_string i"
| "demo_text (JObj kvs) = ''{'' @ demo_members kvs @ ''}''"
| "demo_members [] = []"
| "demo_members ((k, v) # kvs) = k @ '':'' @ demo_text v @ '','' @ demo_members kvs"

definition demo_json :: "jval list \<Rightarrow> jval jsonlib" where
  "demo_json vs =
     \<lparr>js_null = JNull, js_of_string = JStr, js_of_int = JInt,
      js_parse = map_of (map (\<lambda>v. (demo_text v, v)) vs),
      js_write = demo_text, js_write_indented = demo_text,
      js_index = demo_index, js_put = demo_put, js_asString = demo_string, js_asInt = demo_int,
      js_isNull = (\<lambda>v. v = JNull)\<rparr>"

definition is_JObj :: "jval \<Rightarrow> bool" where
  "is_JObj v \<longleftrightarrow> (case v of JObj kvs \<Rightarrow> True | _ \<Rightarrow> False)"

lemma is_JObj_simps [simp]: "is_JObj (JObj kvs)" "\<not> is_JObj JNull"
  by (simp_all add: is_JObj_def)

lemma demo_assign_get: "map_of (demo_assign kvs k x) j = (if j = k then Some x else map_of kvs j)"
  by (induction kvs k x rule: demo_assign.induct) auto

lemma demo_index_member: "js_index (demo_json vs) v k = Some (v, y) \<longleftrightarrow> demo_index v k = Some (v, y)"
  by (simp add: demo_json_def)

lemma demo_index_assign:
  assumes "j \<noteq> k" and "demo_index (JObj kvs) j = Some (JObj kvs, y)"
  shows "demo_index (JObj (demo_assign kvs k x)) j = Some (JObj (demo_assign kvs k x), y)"
  using assms by (auto simp: demo_assign_get split: option.splits)

lemma demo_json_objects: "json_objects (demo_json vs) is_JObj"
  unfolding json_objects_def
proof (intro conjI allI impI)
  fix v k x
  assume "is_JObj v \<or> v = js_null (demo_json vs)"
  then consider kvs where "v = JObj kvs" | "v = JNull"
    by (cases v) (auto simp: is_JObj_def demo_json_def)
  then show "\<exists>w. js_put (demo_json vs) v k x = Some w \<and> is_JObj w \<and>
      js_index (demo_json vs) w k = Some (w, x) \<and>
      (\<forall>k' y. k' \<noteq> k \<longrightarrow> js_index (demo_json vs) v k' = Some (v, y) \<longrightarrow>
        js_index (demo_json vs) w k' = Some (w, y))"
  proof cases
    case 1
    then show ?thesis
      using demo_index_assign [of _ k kvs]
      by (intro exI [of _ "JObj (demo_assign kvs k x)"])
        (auto simp: demo_json_def demo_assign_get simp del: demo_index.simps(2)
          intro: demo_index.simps(2) [THEN trans])
  next
    case 2
    then show ?thesis by (intro exI [of _ "JObj [(k, x)]"]) (auto simp: demo_json_def)
  qed
qed (simp_all add: demo_json_def)

section \<open>The database and the rest\<close>

text \<open>The database state is the list of results still to come and a count of connections.\<close>

type_synonym demo_db = "myres option list"

definition demo_mysql :: "bool \<Rightarrow> demo_db \<Rightarrow> demo_db mysqllib" where
  "demo_mysql up script =
     \<lparr>my_raw = script, my_library_init = 0, my_init = (\<lambda>d. (True, d)), my_options = (\<lambda>d. (0, d)),
      my_real_connect = (\<lambda>ip account password name port d. (up, d)),
      my_close = (\<lambda>d. d), my_query = (\<lambda>s d. (0, d)),
      my_store_result = (\<lambda>d. case d of [] \<Rightarrow> (None, []) | r # rs \<Rightarrow> (r, rs))\<rparr>"

definition demo_libs ::
    "bool \<Rightarrow> jval list \<Rightarrow> bool \<Rightarrow> demo_db \<Rightarrow> (send_call list \<Rightarrow> int \<Rightarrow> string \<Rightarrow> int) \<Rightarrow>
       (jval, demo_db) libs" where
  "demo_libs server vs up script snd_fun =
     \<lparr>json = demo_json vs, mysql = demo_mysql up script,
      IsFileExist = (\<lambda>fs p. fs p \<noteq> None), CxxCreateDirectory = (\<lambda>fs p. fs),
      CxxDeleteFile = (\<lambda>fs p. fs(p := None)),
      CxxCopyFile = (\<lambda>fs a b. case fs a of None \<Rightarrow> (False, fs) | Some c \<Rightarrow> (True, fs(b \<mapsto> c))),
      can_append = (\<lambda>fs p. True), StringReplaceAll = (\<lambda>s a b. s), GetModuleFullPath = ''/opt'',
      ReadString = (\<lambda>f s k d. d), ReadInteger = (\<lambda>f s k d. d),
      PATH_SEPARATOR = CHR ''/'', PATH_SEP_STRING = ''/'', WIN32 = False, SERVER = server,
      sock_send = snd_fun, bufferevent_socket_new = (\<lambda>fd opts. Some fd), heap_after = [],
      junk_int = (\<lambda>n. 0), no_return = 0\<rparr>"

definition send_whole :: "send_call list \<Rightarrow> int \<Rightarrow> string \<Rightarrow> int" where
  "send_whole calls fd s = int (length s)"

definition send_never :: "send_call list \<Rightarrow> int \<Rightarrow> string \<Rightarrow> int" where
  "send_never calls fd s = -1"

abbreviation server_demo :: "jval list \<Rightarrow> (jval, demo_db) libs" where
  "server_demo vs \<equiv> demo_libs True vs True [] send_whole"

abbreviation client_demo :: "jval list \<Rightarrow> (jval, demo_db) libs" where
  "client_demo vs \<equiv> demo_libs False vs True [] send_whole"

lemma demo_sends_all [simp]: "sends_all (demo_libs server vs up script send_whole)"
  by (simp add: sends_all_def demo_libs_def send_whole_def)

text \<open>A connected handle with a script of results.\<close>

definition fresh_db :: "demo_db \<Rightarrow> demo_db datahelper" where
  "fresh_db script = \<lparr>m_bConnect = True, m_mydata = script, sql_log = []\<rparr>"

definition demo_world :: "fsys \<Rightarrow> demo_db world" where
  "demo_world fs = \<lparr>w_fs = fs, w_sends = [], w_db = fresh_db []\<rparr>"

section \<open>A file of one page\<close>

text \<open>The request that describes a file by \<open>d\<close>, and the page of the three-byte file so described.\<close>

definition demo_request :: "jval \<Rightarrow> jval" where
  "demo_request d = JObj [(FILE_DESCRIBE, d)]"

definition demo_page :: "jval \<Rightarrow> jval" where
  "demo_page d = JObj [(FILE_DESCRIBE, d), (FILE_CONTENT, JStr ''abc'')]"

lemma demo_libs_json: "json (demo_libs server vs up script f) = demo_json vs"
  by (simp add: demo_libs_def)

lemma page_text_abc: "page_text ''abc'' 0 = ''abc''"
  by (simp add: page_text_def)

lemma demo_request_text: "demo_text (demo_request d) \<noteq> demo_text (demo_page d)" "demo_text (demo_request d) \<noteq> []"
  by (simp_all add: demo_request_def demo_page_def json_keys)

lemma demo_page_json: "json L = demo_json vs \<Longrightarrow> page_json L d ''abc'' = Some (demo_page d)"
  by (simp add: page_json_def demo_json_def demo_page_def json_keys)

lemma demo_page_roundtrips:
  assumes "json L = demo_json (demo_page d # vs)"
  shows "\<forall>i \<le> length ''abc'' div 1024. page_roundtrip L d (page_text ''abc'' i)"
proof -
  have "demo_text (demo_page d) \<noteq> []" by (simp add: demo_page_def)
  then have "StringToJson L (js_write (json L) (demo_page d)) = Some (demo_page d)"
    by (simp add: StringToJson_def assms) (simp add: demo_json_def)
  then show ?thesis by (simp add: page_text_abc page_roundtrip_def demo_page_json [OF assms])
qed

lemma demo_request_parse:
  assumes "json L = demo_json (demo_page d # demo_request d # vs)"
  shows "StringToJson L (demo_text (demo_request d)) = Some (demo_request d)"
  using demo_request_text [of d] by (simp add: StringToJson_def assms) (simp add: demo_json_def)

lemma demo_request_describes: "js_index (demo_json vs) (demo_request d) FILE_DESCRIBE = Some (demo_request d, d)"
  by (simp add: demo_json_def demo_request_def)

lemma demo_file_pages:
  assumes "json L = demo_json vs"
  shows "file_pages L ''CXWJ'' d ''abc'' =
     [\<lparr>pag_label = ''CXWJ'', pag_src = TCPSOURCE_CLIENT, pag_type = TCPPACKAGE_FILE, pag_num = 1,
       pag_allnum = 1, pag_content = demo_text (demo_page d)\<rparr>]"
  by (simp add: file_pages_def file_page_of_def demo_page_json [OF assms] page_text_abc file_page_def
      page_count_nat [of 3, simplified]) (simp add: assms demo_json_def)

text \<open>What the witnesses evaluate packages with.\<close>

lemmas wire_eval = wf_package_def source_of_int_def package_type_of_int_def int_range_def no_head_def
  package_string_def package_body_def num_to_string_def nat_digits.simps wire_consts

lemma demo_pages_wire:
  assumes "json L = demo_json vs" and "str_find PAGTAIL (demo_text (demo_page d)) = None"
    and "length (demo_text (demo_page d)) < 500"
  shows "\<forall>p \<in> set (file_pages L ''CXWJ'' d ''abc''). wf_package p"
    and "length (concat (map package_string (file_pages L ''CXWJ'' d ''abc''))) < 2147483648"
  using assms(2,3) by (simp_all add: demo_file_pages [OF assms(1)] wire_eval)

lemma demo_pages_no_nul:
  assumes "json L = demo_json vs" and "NUL \<notin> set (demo_text (demo_page d))"
  shows "NUL \<notin> set (concat (map package_string (file_pages L ''CXWJ'' d ''abc'')))"
proof -
  have "NUL \<notin> set (num_to_string n)" for n
    by (rule num_to_string_avoids) (simp_all add: NUL_def is_digit_def)
  then show ?thesis
    using assms(2) by (simp add: demo_file_pages [OF assms(1)] package_string_def package_body_def wire_consts NUL_def)
qed

end
