(* ===== verification/Exchange.thy ===== *)
theory Exchange
  imports PageTransfer
begin

text \<open>
  One side's sending methods and the other side's receive loop together, for any worker class
  that keeps the contract \<open>packet_handler\<close>: input cut into reads, a short message, a message
  of several pages, a file, and a malformed package.
\<close>

text \<open>Several reads in a row, as the bufferevent callbacks deliver them.\<close>

fun feed ::
    "('j, 'd) libs \<Rightarrow> ('a, 'j, 'd) handlers \<Rightarrow> string list \<Rightarrow> (('a, 'd) wstate, loop_exit) prog" where
  "feed L H [] = ret Drained"
| "feed L H (c # cs) =
     andThen (Process L H c) (\<lambda>e.
     case e of Drained \<Rightarrow> feed L H cs | Open_failed \<Rightarrow> ret Open_failed)"

lemma feed_single: "feed L H [c] = Process L H c"
  by (rule ext) (simp add: prog_simps split: prod.split sum.split loop_exit.split)

lemma file_pages_cong:
  assumes "json L = json L'"
  shows "file_pages L label describe c = file_pages L' label describe c"
proof -
  have "page_json L v t = page_json L' v t" for v t
    unfolding page_json_def assms by simp
  then show ?thesis unfolding file_pages_def file_page_of_def assms by simp
qed

lemma first_page_short_length:
  "length s < 1024 \<Longrightarrow> length label = 4 \<Longrightarrow> length (package_string (first_page label s)) < 2147483648"
  by (simp add: first_page_short package_string_def package_body_def num_to_string_def
      nat_digits.simps wire_consts)

text \<open>What \<open>SendMsgTo\<close> puts on the wire when the socket takes everything.\<close>

lemma SendMsgTo_wire:
  assumes "sends_all L" and "m_bev w = Some fd" and "length s < 2147483648"
    and "length (package_string (first_page label s)) < 2147483648"
  shows "\<exists>d'. SendMsgTo L w label s d = (Inr (-1), d') \<and>
    wire fd (drop (length (w_sends d)) (w_sends d')) = package_string (first_page label s)"
  using SendMsgTo_all [OF assms, of d] by (simp add: wire_def accepted_def)

context packet_handler begin

lemma Process_drained_length:
  assumes "Process L H a (w, d) = (Inr Drained, (w1, d1))" and "length (m_strData w @ a) < 2147483648"
  shows "length (m_strData w1) \<le> length (m_strData w @ a)"
proof -
  let ?w = "w\<lparr>m_strData := m_strData w @ a\<rparr>"
  have run: "Process_loop L H (Suc (length (m_strData ?w))) (?w, d) = (Inr Drained, (w1, d1))"
    using assms(1) by (simp add: Process_apply del: Process_loop.simps)
  have "length (m_strData w1) \<le> length (m_strData ?w) \<and>
      Process_loop L H (Suc (length (m_strData ?w))) (?w\<lparr>m_strData := m_strData ?w @ []\<rparr>, d) =
        Process_loop L H (Suc (length (m_strData ?w))) (w1\<lparr>m_strData := m_strData w1 @ []\<rparr>, d1)"
    using assms(2) by (intro Process_loop_append [OF _ _ _ _ run]) auto
  then show ?thesis by simp
qed

text \<open>The cut into reads does not matter.\<close>

lemma feed_Process:
  assumes "cs \<noteq> []" and "length (m_strData w @ concat cs) < 2147483648"
    and "feed L H cs (w, d) = (Inr Drained, st)"
  shows "Process L H (concat cs) (w, d) = (Inr Drained, st)"
  using assms
proof (induction cs arbitrary: w d)
  case Nil
  then show ?case by simp
next
  case (Cons c cs)
  show ?case
  proof (cases "cs = []")
    case True
    then show ?thesis using Cons.prems(3) feed_single [of L H c] by simp
  next
    case False
    obtain w1 d1 where p: "Process L H c (w, d) = (Inr Drained, (w1, d1))"
      and f: "feed L H cs (w1, d1) = (Inr Drained, st)"
      using Cons.prems(3)
      by (auto simp: prog_simps split: prod.splits sum.splits loop_exit.splits)
    have len: "length (m_strData w @ c @ concat cs) < 2147483648" using Cons.prems(2) by simp
    have "length (m_strData w1) \<le> length (m_strData w @ c)"
      using len by (intro Process_drained_length [OF p]) simp
    then have "Process L H (concat cs) (w1, d1) = (Inr Drained, st)"
      using len by (intro Cons.IH [OF False _ f]) simp
    then show ?thesis using Process_append [OF p len] by simp
  qed
qed

text \<open>A message below the page size runs its command, on exactly its text.\<close>

lemma receive_short:
  assumes "length label = 4" and "length s < 1024" and "str_find PAGTAIL s = None"
    and "m_strData w = []"
    and "excuteCommand H label (m_strMsgContent w @ s)
           (w\<lparr>m_strMsgContent := m_strMsgContent w @ s\<rparr>, d) = (Inr (), (w', d'))"
  shows "Process L H (package_string (first_page label s)) (w, d) =
    (Inr Drained, (w'\<lparr>m_strMsgContent := [], m_strData := []\<rparr>, d'))"
proof -
  have "deliver L H (msg_pages label s) (w, d) = (Inr Continue, (w'\<lparr>m_strMsgContent := []\<rparr>, d'))"
    using assms(5) by (simp add: deliver_msg_pages)
  then have dl: "deliver L H [first_page label s] (w, d) = (Inr Continue, (w'\<lparr>m_strMsgContent := []\<rparr>, d'))"
    using assms(2) by (simp only: msg_pages_short)
  have wf: "\<forall>p \<in> set [first_page label s]. wf_package p"
    using wf_first_page [OF assms(1) _ assms(3)] assms(2) by simp
  have "length (concat (map package_string [first_page label s]) @ []) < 2147483648"
    using first_page_short_length [OF assms(2,1)] by simp
  from Process_packages [OF assms(4) wf _ this dl] show ?thesis by (simp add: no_head_def)
qed

text \<open>All pages of a message run its command once, on the whole text.\<close>

lemma receive_all_pages:
  assumes "length label = 4" and "length s < 2147483648" and "str_find PAGTAIL s = None"
    and "length (concat (map package_string (msg_pages label s))) < 2147483648"
    and "m_strData w = []"
    and "excuteCommand H label (m_strMsgContent w @ s)
           (w\<lparr>m_strMsgContent := m_strMsgContent w @ s\<rparr>, d) = (Inr (), (w', d'))"
  shows "Process L H (concat (map package_string (msg_pages label s))) (w, d) =
    (Inr Drained, (w'\<lparr>m_strMsgContent := [], m_strData := []\<rparr>, d'))"
proof -
  have dl: "deliver L H (msg_pages label s) (w, d) = (Inr Continue, (w'\<lparr>m_strMsgContent := []\<rparr>, d'))"
    using assms(6) by (simp add: deliver_msg_pages)
  from Process_packages [OF assms(5) wf_msg_pages [OF assms(1-3)] _ _ dl, of "[]"] assms(4)
  show ?thesis by (simp add: no_head_def)
qed

text \<open>The first page of a longer message runs nothing and stays pending.\<close>

lemma receive_first_page:
  assumes "length label = 4" and "1024 \<le> length s" and "length s < 2147483648"
    and "str_find PAGTAIL s = None" and "m_strData w = []"
    and "length (package_string (first_page label s)) < 2147483648"
  shows "Process L H (package_string (first_page label s)) (w, d) =
    (Inr Drained, (w\<lparr>m_strMsgContent := m_strMsgContent w @ take 1024 s, m_strData := []\<rparr>, d))"
proof -
  have "1 \<le> length s div 1024" using assms(2) by (simp add: Suc_leI div_greater_zero_iff)
  from deliver_msg_prefix [OF this]
  have dl: "deliver L H [first_page label s] (w, d) =
      (Inr Continue, (w\<lparr>m_strMsgContent := m_strMsgContent w @ take 1024 s\<rparr>, d))"
    by (simp add: first_page_def)
  have wf: "\<forall>p \<in> set [first_page label s]. wf_package p"
    using wf_first_page [OF assms(1,3,4)] by simp
  from Process_packages [OF assms(5) wf _ _ dl, of "[]"] assms(6) show ?thesis
    by (simp add: no_head_def)
qed

text \<open>A body below four bytes ends in an exception.\<close>

lemma receive_malformed:
  assumes "m_strData w = []" and "length body < 4" and "str_find PAGTAIL body = None"
    and "length rest < 1073741824"
  shows "fst (Process L H (PAGHEAD @ body @ PAGTAIL @ rest) (w, d)) = Inl Out_of_range"
proof -
  have len: "length (PAGHEAD @ body @ PAGTAIL @ rest) < 2147483648" using assms(2,4) by simp
  have "str_find PAGHEAD [] = None" by (simp add: str_find_short)
  from cut_package_written [OF this assms(3), of rest] len
  have "cut_package (PAGHEAD @ body @ PAGTAIL @ rest) = Inr (Some (body, rest))" by simp
  moreover have "parse_fields (junk_int L) body = Inl Out_of_range"
    using parse_fields_throws_iff(2) assms(2) by simp
  ultimately have "GetPackage_data (junk_int L) (PAGHEAD @ body @ PAGTAIL @ rest) =
      (Inl Out_of_range, rest)"
    by (simp add: GetPackage_data_def)
  then show ?thesis using assms(1) by (simp add: Process_def GetPackage_def)
qed

text \<open>The pages of a file rebuild it under the upload directory, and the command runs then.\<close>

lemma receive_file:
  assumes J: "json_objects (json L) is_obj" and d: "is_obj describe"
    and cls: "member_str (json L) describe FILE_CLASS cls"
    and name: "describes_name L describe name"
    and fs: "files_at L (c_str (upload_path L cls name))"
    and rt: "\<forall>i \<le> length c div 1024. page_roundtrip L describe (page_text c i)"
    and wf: "\<forall>p \<in> set (file_pages L label describe c). wf_package p"
    and len: "length (concat (map package_string (file_pages L label describe c))) < 2147483648"
    and w: "m_strData w = []"
  shows "\<exists>describe' dd'.
    js_put (json L) describe FILE_PATH (js_of_string (json L) (upload_path L cls name)) = Some describe' \<and>
    w_fs dd' (c_str (upload_path L cls name)) = Some c \<and> same_elsewhere dd dd' \<and>
    (\<forall>w' d'. excuteFile H label describe' (w, dd') = (Inr (), (w', d')) \<longrightarrow>
       Process L H (concat (map package_string (file_pages L label describe c))) (w, dd) =
         (Inr Drained, (w'\<lparr>m_strData := []\<rparr>, d')))"
proof -
  obtain describe' dd' where r:
    "js_put (json L) describe FILE_PATH (js_of_string (json L) (upload_path L cls name)) = Some describe'"
    "w_fs dd' (c_str (upload_path L cls name)) = Some c" "same_elsewhere dd dd'"
    "deliver L H (file_pages L label describe c) (w, dd) =
      (case excuteFile H label describe' (w, dd') of
         (Inl e, st) \<Rightarrow> (Inl e, st) | (Inr _, st) \<Rightarrow> (Inr Continue, st))"
    using rt by (elim deliver_file_pages [where c = c and label = label and H = H and w = w and dd = dd,
        OF J d cls name fs, rotated]) blast+
  have "Process L H (concat (map package_string (file_pages L label describe c))) (w, dd) =
      (Inr Drained, (w'\<lparr>m_strData := []\<rparr>, d'))"
    if "excuteFile H label describe' (w, dd') = (Inr (), (w', d'))" for w' d'
  proof -
    have dl: "deliver L H (file_pages L label describe c) (w, dd) = (Inr Continue, (w', d'))"
      using r(4) that by simp
    from Process_packages [OF w wf _ _ dl, of "[]"] len show ?thesis by (simp add: no_head_def)
  qed
  then show ?thesis using r by (intro exI [of _ describe'] exI [of _ dd']) simp
qed

end

end
