(* ===== verification/StudentManager.thy ===== *)
theory StudentManager
  imports DataHelper
begin

text \<open>
  Src/StudentManager.cpp: the record keeping on top of \<open>DataHelper\<close>. Each method takes a JSON
  text and an operation number (0 add, 1 delete, 2 view into the text, 3 modify), builds SQL
  statements by concatenation and runs them. The statements are separate definitions. The
  result is the return value and the text, which \<open>view\<close> replaces; an exception of jsoncpp
  and a \<open>sprintf\<close> that runs over its buffer are errors.
\<close>

definition QUOTE :: string where
  "QUOTE = [CHR 0x27]"

definition quoted :: "string \<Rightarrow> string" where
  "quoted s = QUOTE @ s @ QUOTE"

text \<open>\<open>sprintf\<close> into \<open>char buff[128]\<close>: text and terminator must fit.\<close>

definition sprintf128 :: "string \<Rightarrow> error + string" where
  "sprintf128 text = (if length text < 128 then Inr text else Inl (UB Buffer_overflow))"

text \<open>Reading members of the parsed value, which \<open>operator[]\<close> may extend.\<close>

definition get_str :: "('j, 'd) libs \<Rightarrow> 'j \<Rightarrow> string \<Rightarrow> ('s, 'j \<times> string) prog" where
  "get_str L v k = of_option Json_error (json_str (json L) v k)"

definition get_int :: "('j, 'd) libs \<Rightarrow> 'j \<Rightarrow> string \<Rightarrow> ('s, 'j \<times> int) prog" where
  "get_int L v k = of_option Json_error (json_int (json L) v k)"

definition get_null :: "('j, 'd) libs \<Rightarrow> 'j \<Rightarrow> string \<Rightarrow> ('s, 'j \<times> bool) prog" where
  "get_null L v k = of_option Json_error (json_null (json L) v k)"

text \<open>An optional integer member: read when the test on null has the outcome \<open>b\<close>.\<close>

definition get_int_when_null_is ::
    "bool \<Rightarrow> ('j, 'd) libs \<Rightarrow> 'j \<Rightarrow> string \<Rightarrow> ('s, 'j \<times> int) prog" where
  "get_int_when_null_is b L v k =
     andThen (get_null L v k) (\<lambda>(v, isnull).
     if isnull = b then get_int L v k else ret (v, -1))"

definition with_out :: "string \<Rightarrow> ('s, int) prog \<Rightarrow> ('s, int \<times> string) prog" where
  "with_out out m = andThen m (\<lambda>r. ret (r, out))"

section \<open>Devices\<close>

definition device_exists_sql :: "string \<Rightarrow> string \<Rightarrow> string" where
  "device_exists_sql strIP strNumber =
     ''select deviceNumber,ipaddr from devices where ipaddr='' @ quoted strIP @
     '' or deviceNumber='' @ quoted strNumber @ '';''"

definition device_insert_sql :: "string \<Rightarrow> string \<Rightarrow> int \<Rightarrow> string" where
  "device_insert_sql strIP strNumber type =
     ''insert into devices(ipaddr,deviceNumber,type) values('' @ quoted (c_str strIP) @ '','' @
     quoted (c_str strNumber) @ '','' @ num_to_string type @ '')''"

definition device_update_text :: "string \<Rightarrow> string \<Rightarrow> int \<Rightarrow> int \<Rightarrow> string" where
  "device_update_text strIP strNumber type number =
     ''update devices set'' @
     (if strIP \<noteq> [] then '' ipaddr='' @ quoted strIP else []) @
     (if type \<ge> 0 then '', type='' @ num_to_string type else []) @
     (if number \<ge> 0 then '', numble='' @ num_to_string number else []) @
     '' where deviceNumber='' @ quoted strNumber @ '';''"

text \<open>
  The member \<open>number\<close> is read when it is null and left at \<open>-1\<close> when it is there (lines 31
  to 33), unlike \<open>type\<close> two lines above.
\<close>

definition Device ::
    "('j, 'd) libs \<Rightarrow> string \<Rightarrow> int \<Rightarrow> ('d datahelper, int \<times> string) prog" where
  "Device L strDevice op =
     (case js_parse (json L) strDevice of
        None \<Rightarrow> ret (-1, strDevice)
      | Some device \<Rightarrow>
          andThen (get_str L device ''ipaddr'') (\<lambda>(device, strIP).
          andThen (get_str L device ''deviceNumber'') (\<lambda>(device, strNumber).
          andThen (get_int_when_null_is False L device ''type'') (\<lambda>(device, type).
          andThen (get_int_when_null_is True L device ''number'') (\<lambda>(device, number).
          if op = 0 then
            andThen (IsExistData L (device_exists_sql strIP strNumber)) (\<lambda>bRt.
            if bRt then ret (-1, strDevice)
            else
              andThen (of_result (sprintf128 (device_insert_sql strIP strNumber type))) (\<lambda>buff.
              with_out strDevice (excuteSql L buff)))
          else if op = 1 then
            (if strIP \<noteq> [] then
               with_out strDevice (excuteSql L (''delete from devices where ipaddr='' @ quoted strIP @ '';''))
             else if strNumber \<noteq> [] then
               with_out strDevice
                 (excuteSql L (''delete from devices where deviceNumber='' @ quoted strNumber @ '';''))
             else ret (-1, strDevice))
          else if op = 2 then
            andThen (get_null L device ''ipaddr'') (\<lambda>(device, no_ip).
            if \<not> no_ip \<and> strIP \<noteq> [] then
              Display L (''select * from devices where ipaddr='' @ quoted strIP @ '';'') strDevice
            else
              andThen (get_null L device ''deviceNumber'') (\<lambda>(device, no_number).
              if \<not> no_number \<and> strNumber \<noteq> [] then
                Display L (''select * from devices where deviceNumber='' @ quoted strNumber @ '';'') strDevice
              else
                andThen (get_null L device ''type'') (\<lambda>(device, no_type).
                if \<not> no_type \<and> type \<ge> 0 then
                  Display L (''select * from devices where type='' @ quoted (num_to_string type) @ '';'') strDevice
                else Display L ''select * from devices ;'' strDevice)))
          else if op = 3 \<or> strDevice \<noteq> [] then
            with_out strDevice
              (excuteSql L (StringReplaceAll L (device_update_text strIP strNumber type number)
                 ''set,'' ''set ''))
          else ret (-1, strDevice))))))"

section \<open>Students\<close>

definition student_exists_sql :: "string \<Rightarrow> string \<Rightarrow> string" where
  "student_exists_sql strClassName strName =
     ''select className, name from studentinfo where className = '' @ quoted (c_str strClassName) @
     '' and name='' @ quoted (c_str strName) @ '';''"

definition student_insert_sql :: "string \<Rightarrow> string \<Rightarrow> string \<Rightarrow> string \<Rightarrow> string" where
  "student_insert_sql strName strClassName strDeviceNumber strDeviceIP =
     ''insert into studentinfo (name,className,deviceNumber,deviceIP) '' @
     replicate 5 (CHR 0x09) @ ''values('' @ quoted (c_str strName) @ '','' @
     quoted (c_str strClassName) @ '','' @ quoted (c_str strDeviceNumber) @ '','' @
     quoted (c_str strDeviceIP) @ '');''"

definition student_device_sql :: "string \<Rightarrow> string \<Rightarrow> string" where
  "student_device_sql strDeviceIP strDeviceNumber =
     ''select deviceNumber,ipaddr from devices where ipaddr='' @ quoted strDeviceIP @
     '' or numble='' @ quoted strDeviceNumber @ '';''"

definition student_update_text :: "string \<Rightarrow> string \<Rightarrow> string \<Rightarrow> string \<Rightarrow> string" where
  "student_update_text strName strClassName strDeviceNumber strDeviceIP =
     ''update studentinfo set'' @
     (if strDeviceNumber \<noteq> [] then '' deviceNumber='' @ quoted strDeviceNumber else []) @
     (if strDeviceIP \<noteq> [] then '', deviceIP='' @ quoted strDeviceIP else []) @
     '' where className='' @ quoted strClassName @ '' and name='' @ quoted strName @ '';''"

text \<open>The branch that views students (lines 173 to 194).\<close>

definition student_view ::
    "('j, 'd) libs \<Rightarrow> 'j \<Rightarrow> string \<Rightarrow> string \<Rightarrow> string \<Rightarrow> string \<Rightarrow> string \<Rightarrow>
       ('d datahelper, int \<times> string) prog" where
  "student_view L student strName strClassName strDeviceIP strDeviceNumber strStudent =
     andThen (get_null L student ''name'') (\<lambda>(student, no_name).
     if \<not> no_name then
       Display L (''select * from studentinfo where name='' @ quoted strName @ '';'') strStudent
     else
       andThen (get_null L student ''className'') (\<lambda>(student, no_class).
       if \<not> no_class then
         Display L (''select * from studentinfo where className='' @ quoted strClassName @ '';'') strStudent
       else
         andThen (get_null L student ''deviceIP'') (\<lambda>(student, no_ip).
         if \<not> no_ip then
           Display L (''select * from studentinfo where deviceIP='' @ quoted strDeviceIP @ '';'') strStudent
         else
           andThen (get_null L student ''deviceNumber'') (\<lambda>(student, no_number).
           if \<not> no_number then
             Display L (''select * from studentinfo where deviceNumber='' @ quoted strDeviceNumber @ '';'')
               strStudent
           else Display L ''select * from studentinfo;'' strStudent))))"

text \<open>
  The statement that looks for the student is printed into a 128-byte buffer before the
  operation is looked at.
\<close>

definition Student ::
    "('j, 'd) libs \<Rightarrow> string \<Rightarrow> int \<Rightarrow> ('d datahelper, int \<times> string) prog" where
  "Student L strStudent op =
     (case js_parse (json L) strStudent of
        None \<Rightarrow> ret (-1, strStudent)
      | Some student \<Rightarrow>
          andThen (get_str L student ''name'') (\<lambda>(student, strName).
          andThen (get_str L student ''className'') (\<lambda>(student, strClassName).
          andThen (get_str L student ''deviceIP'') (\<lambda>(student, strDeviceIP).
          andThen (get_str L student ''deviceNumber'') (\<lambda>(student, strDeviceNumber).
          andThen (of_result (sprintf128 (student_exists_sql strClassName strName))) (\<lambda>buff.
          andThen (if op \<noteq> 2 then IsExistData L buff else ret False) (\<lambda>bRt.
          if \<not> bRt \<and> op = 0 then
            (if strDeviceIP = [] then ret (-1, strStudent)
             else
               andThen (of_result (sprintf128
                   (student_insert_sql strName strClassName strDeviceNumber strDeviceIP))) (\<lambda>buff.
               andThen (IsExistData L (student_device_sql strDeviceIP strDeviceNumber)) (\<lambda>bRt.
               if bRt then with_out strStudent (excuteSql L buff)
               else ret (-1, strStudent))))
          else if bRt \<and> op = 1 then
            with_out strStudent
              (excuteSql L (''delete from studentinfo where name='' @ quoted strName @
                 '' and className='' @ quoted strClassName @ '';''))
          else if op = 2 then
            student_view L student strName strClassName strDeviceIP strDeviceNumber strStudent
          else if op = 3 then
            with_out strStudent
              (excuteSql L (StringReplaceAll L
                 (student_update_text strName strClassName strDeviceNumber strDeviceIP)
                 ''set,'' ''set ''))
          else ret (-1, strStudent))))))))"

section \<open>Classes\<close>

definition class_exists_sql :: "string \<Rightarrow> string" where
  "class_exists_sql strName = ''select * from class where name='' @ quoted strName @ '';''"

definition Class ::
    "('j, 'd) libs \<Rightarrow> string \<Rightarrow> int \<Rightarrow> ('d datahelper, int \<times> string) prog" where
  "Class L strClass op =
     (case js_parse (json L) strClass of
        None \<Rightarrow> ret (-1, strClass)
      | Some classJs \<Rightarrow>
          andThen (get_str L classJs ''name'') (\<lambda>(classJs, strName).
          andThen (if strName \<noteq> [] then IsExistData L (class_exists_sql strName) else ret True)
            (\<lambda>bRt.
          if \<not> bRt \<and> op = 0 then
            with_out strClass (excuteSql L (''insert into class(name) values('' @ quoted strName @ '');''))
          else if bRt \<and> op = 1 then
            with_out strClass (excuteSql L (''delete from class where name='' @ quoted strName @ '';''))
          else if op = 2 then Display L ''select * from class;'' strClass
          else if op = 3 then
            andThen (get_str L classJs ''newName'') (\<lambda>(classJs, strNewName).
            andThen (get_str L classJs ''oldName'') (\<lambda>(classJs, strOldName).
            with_out strClass
              (excuteSql L (''update class set name='' @ quoted strNewName @ '' where name='' @
                 quoted strOldName @ '';''))))
          else ret (-1, strClass))))"

section \<open>Uploaded files\<close>

definition BACKSLASH :: string where
  "BACKSLASH = [CHR 0x5C]"

definition upfile_exists_sql :: "string \<Rightarrow> string" where
  "upfile_exists_sql strPath = ''select * from upfile where path='' @ quoted strPath @ '';''"

definition upfile_insert_sql ::
    "string \<Rightarrow> string \<Rightarrow> string \<Rightarrow> string \<Rightarrow> string \<Rightarrow> string \<Rightarrow> int \<Rightarrow> string" where
  "upfile_insert_sql strFileName strStudentName strClassName strPath strDeviceNumber strCourse nType =
     ''insert into upfile(fileName,studentName,className,path,deviceNumber,course,type,time) values('' @
     quoted strFileName @ '','' @ quoted strStudentName @ '','' @ quoted strClassName @ '','' @
     quoted strPath @ '','' @ quoted strDeviceNumber @ '','' @ quoted strCourse @ '','' @
     num_to_string nType @ '',now());''"

definition upfile_update_text ::
    "string \<Rightarrow> string \<Rightarrow> string \<Rightarrow> string \<Rightarrow> string \<Rightarrow> int \<Rightarrow> string" where
  "upfile_update_text strFileName strStudentName strPath strDeviceNumber strCourse nType =
     ''update upfile set'' @
     (if strStudentName \<noteq> [] then '' studentName='' @ quoted strStudentName else []) @
     (if strCourse \<noteq> [] then '', course='' @ quoted strCourse else []) @
     (if nType \<ge> 0 then '', type='' @ num_to_string nType else []) @
     (if strFileName \<noteq> [] then '', fileName='' @ quoted strFileName else []) @
     (if strDeviceNumber \<noteq> [] then '', deviceNumber='' @ quoted strDeviceNumber else []) @
     '', time=now() where path='' @ quoted strPath @ '';''"

text \<open>The branch that views uploaded files (lines 316 to 341).\<close>

definition upfile_view ::
    "('j, 'd) libs \<Rightarrow> 'j \<Rightarrow> string \<Rightarrow> string \<Rightarrow> string \<Rightarrow> string \<Rightarrow> int \<Rightarrow> string \<Rightarrow>
       ('d datahelper, int \<times> string) prog" where
  "upfile_view L upfile strStudentName strClassName strCourse strDeviceNumber nType out =
     andThen (get_null L upfile ''studentName'') (\<lambda>(upfile, no_student).
     if \<not> no_student then
       Display L (''select * from upfile where studentName='' @ quoted strStudentName @ '';'') out
     else
       andThen (get_null L upfile ''className'') (\<lambda>(upfile, no_class).
       if \<not> no_class then
         Display L (''select * from upfile where className='' @ quoted strClassName @ '';'') out
       else
         andThen (get_null L upfile ''course'') (\<lambda>(upfile, no_course).
         if \<not> no_course then
           Display L (''select * from upfile where course='' @ quoted strCourse @ '';'') out
         else
           andThen (get_null L upfile ''deviceNumber'') (\<lambda>(upfile, no_number).
           if \<not> no_number then
             Display L (''select * from upfile where deviceNumber='' @ quoted strDeviceNumber @ '';'') out
           else
             andThen (get_null L upfile ''type'') (\<lambda>(upfile, no_type).
             if \<not> no_type then
               Display L (''select * from upfile where type='' @ quoted (num_to_string nType) @ '';'') out
             else Display L ''select * from upfile ;'' out)))))"

text \<open>
  \<open>UpFile\<close> adds a file that is on the disk; when the table already has its path it calls
  itself once with the operation 3.
\<close>

function UpFile ::
    "('j, 'd) libs \<Rightarrow> fsys \<Rightarrow> string \<Rightarrow> int \<Rightarrow> ('d datahelper, int \<times> string) prog" where
  "UpFile L fs strClass op =
     (case js_parse (json L) strClass of
        None \<Rightarrow> ret (-1, strClass)
      | Some upfile \<Rightarrow>
          andThen (get_str L upfile FILE_NAME) (\<lambda>(upfile, strFileName).
          andThen (get_str L upfile FILE_STUDENT) (\<lambda>(upfile, strStudentName).
          andThen (get_str L upfile FILE_CLASS) (\<lambda>(upfile, strClassName).
          andThen (get_str L upfile FILE_PATH) (\<lambda>(upfile, strPath).
          andThen (get_str L upfile DEVICE_NUMBER) (\<lambda>(upfile, strDeviceNumber).
          andThen (get_str L upfile FILE_COURES) (\<lambda>(upfile, strCourse).
          andThen (get_int L upfile FILE_TYPE) (\<lambda>(upfile, nType).
          if op = 0 then
            (if \<not> IsFileExist L fs (c_str strPath) then ret (0, strClass)
             else
               let strPath = StringReplaceAll L strPath BACKSLASH (BACKSLASH @ BACKSLASH) in
               andThen (IsExistData L (upfile_exists_sql strPath)) (\<lambda>bRt.
               if bRt then UpFile L fs strClass 3
               else
                 with_out strClass
                   (excuteSql L (upfile_insert_sql strFileName strStudentName strClassName strPath
                      strDeviceNumber strCourse nType))))
          else if op = 1 then
            with_out strClass
              (excuteSql L (''delete from upfile where path='' @ quoted strPath @ '';''))
          else if op = 2 then
            upfile_view L upfile strStudentName strClassName strCourse strDeviceNumber nType strClass
          else if op = 3 then
            with_out strClass
              (excuteSql L (StringReplaceAll L
                 (upfile_update_text strFileName strStudentName
                   (StringReplaceAll L strPath BACKSLASH (BACKSLASH @ BACKSLASH))
                   strDeviceNumber strCourse nType)
                 ''set,'' ''set ''))
          else ret (-1, strClass)))))))))"
  by pat_completeness auto
termination
  by (relation "measure (\<lambda>(L, fs, s, op). if op = 0 then 1 else 0)") auto

declare UpFile.simps [simp del]

section \<open>Files for download\<close>

definition downfile_insert_sql ::
    "string \<Rightarrow> string \<Rightarrow> string \<Rightarrow> string \<Rightarrow> int \<Rightarrow> string" where
  "downfile_insert_sql strFileName strPath strAccess strCourse nType =
     ''insert into downfile(fileName,path,access,course,type,time) values('' @
     quoted strFileName @ '','' @ quoted strPath @ '','' @ quoted strAccess @ '','' @
     quoted strCourse @ '','' @ num_to_string nType @ '',now());''"

definition downfile_update_text ::
    "bool \<Rightarrow> string \<Rightarrow> string \<Rightarrow> string \<Rightarrow> string \<Rightarrow> int \<Rightarrow> string" where
  "downfile_update_text no_access strFileName strPath strAccess strCourse nType =
     ''update downfile set'' @
     (if \<not> no_access then '' access='' @ quoted strAccess else []) @
     (if strCourse \<noteq> [] then '', course='' @ quoted strCourse else []) @
     (if nType \<ge> 0 then '', type='' @ num_to_string nType else []) @
     (if strPath \<noteq> [] then '', path='' @ quoted strPath else []) @
     '', time=now() where fileName='' @ quoted strFileName @ '';''"

definition DownFile ::
    "('j, 'd) libs \<Rightarrow> string \<Rightarrow> int \<Rightarrow> ('d datahelper, int \<times> string) prog" where
  "DownFile L strClass op =
     (case js_parse (json L) strClass of
        None \<Rightarrow> ret (-1, strClass)
      | Some downfile \<Rightarrow>
          andThen (get_str L downfile ''fileName'') (\<lambda>(downfile, strFileName).
          andThen (get_str L downfile ''path'') (\<lambda>(downfile, strPath).
          andThen (get_str L downfile ''access'') (\<lambda>(downfile, strAccess).
          andThen (get_int_when_null_is False L downfile ''type'') (\<lambda>(downfile, nType).
          andThen (get_str L downfile ''course'') (\<lambda>(downfile, strCourse).
          if op = 0 then
            with_out strClass
              (excuteSql L (downfile_insert_sql strFileName strPath strAccess strCourse nType))
          else if op = 1 then
            (if strFileName = [] then
               with_out strClass
                 (excuteSql L (''delete from downfile where path='' @ quoted strPath @ '';''))
             else
               with_out strClass
                 (excuteSql L (''delete from downfile where fileName='' @ quoted strFileName @ '';'')))
          else if op = 2 then
            andThen (get_null L downfile ''course'') (\<lambda>(downfile, no_course).
            if \<not> no_course then
              Display L (''select * from downfile where course='' @ quoted strCourse @ '';'') strClass
            else
              andThen (get_null L downfile ''fileName'') (\<lambda>(downfile, no_name).
              if \<not> no_name then
                Display L (''select * from downfile where fileName='' @ quoted strFileName @ '';'') strClass
              else
                andThen (get_null L downfile ''type'') (\<lambda>(downfile, no_type).
                if \<not> no_type then
                  Display L (''select * from downfile where type='' @ quoted (num_to_string nType) @ '';'')
                    strClass
                else Display L ''select * from downfile ;'' strClass)))
          else if op = 3 then
            andThen (get_null L downfile ''access'') (\<lambda>(downfile, no_access).
            with_out strClass
              (excuteSql L (StringReplaceAll L
                 (downfile_update_text no_access strFileName strPath strAccess strCourse nType)
                 ''set,'' ''set '')))
          else ret (-1, strClass)))))))"

section \<open>Lists and plain statements\<close>

definition files_sql :: "string \<Rightarrow> string \<Rightarrow> string" where
  "files_sql strClass strStudent =
     ''select fileName, path,type,course, 1 from upfile where '' @
     ''className='' @ quoted strClass @ '' and studentName='' @ quoted strStudent @
     '' union '' @
     '' select fileName, path,type,course, 2 from downfile where access REGEXP '' @
     quoted strClass @ '';''"

definition GetFiles ::
    "('j, 'd) libs \<Rightarrow> string \<Rightarrow> string \<Rightarrow> string \<Rightarrow> ('d datahelper, int \<times> string) prog" where
  "GetFiles L strClass strStudent strOut = Display L (files_sql strClass strStudent) strOut"

definition manager_excuteSql :: "('j, 'd) libs \<Rightarrow> string \<Rightarrow> ('d datahelper, int) prog" where
  "manager_excuteSql L strSql = excuteSql L strSql"

definition manager_query ::
    "('j, 'd) libs \<Rightarrow> string \<Rightarrow> string \<Rightarrow> ('d datahelper, int \<times> string) prog" where
  "manager_query L strSql strOut = Display L strSql strOut"

section \<open>No fuel is spent\<close>

lemma fuel_free_get [fuel_free_intros]:
  "fuel_free (get_str L v k)" "fuel_free (get_int L v k)" "fuel_free (get_null L v k)"
  unfolding get_str_def get_int_def get_null_def by (intro fuel_free_intros; simp)+

lemma fuel_free_helpers [fuel_free_intros]:
  "fuel_free (get_int_when_null_is b L v k)"
  "fuel_free m \<Longrightarrow> fuel_free (with_out out m)"
  "fuel_free (of_result (sprintf128 s))"
  unfolding get_int_when_null_is_def with_out_def sprintf128_def
  by (intro fuel_free_intros fuel_free_of_result; simp)+

lemma fuel_free_Device [fuel_free_intros]: "fuel_free (Device L s op)"
  unfolding Device_def by (intro fuel_free_intros)

lemma fuel_free_upfile_view [fuel_free_intros]: "fuel_free (upfile_view L v a b c d n out)"
  unfolding upfile_view_def by (intro fuel_free_intros)

lemma fuel_free_UpFile_update: "fuel_free (UpFile L fs s 3)"
  by (subst UpFile.simps) (intro fuel_free_intros, simp_all)

lemma fuel_free_UpFile [fuel_free_intros]: "fuel_free (UpFile L fs s op)"
  by (subst UpFile.simps) (intro fuel_free_intros fuel_free_UpFile_update)

lemma fuel_free_GetFiles [fuel_free_intros]: "fuel_free (GetFiles L c s out)"
  unfolding GetFiles_def by (intro fuel_free_intros)

end
