(* ===== verification/StdMap.thy ===== *)
theory StdMap
  imports Main "HOL-Library.List_Lexorder" "HOL-Library.Char_ord"
begin

text \<open>
  \<open>std::map\<close>: an association list in ascending order of the keys, as an iteration over the
  map sees it. \<open>sm_at\<close> is \<open>operator[]\<close>, which inserts a value-initialised entry for a
  missing key; the program relies on it without noticing in its command tables. The locale
  states what a map promises its users, the interpretation proves it.
\<close>

type_synonym ('k, 'v) stdmap = "('k \<times> 'v) list"

definition sm_ok :: "('k::linorder, 'v) stdmap \<Rightarrow> bool" where
  "sm_ok m = sorted_wrt (<) (map fst m)"

fun sm_find :: "'k::linorder \<Rightarrow> ('k, 'v) stdmap \<Rightarrow> 'v option" where
  "sm_find k [] = None"
| "sm_find k ((j, v) # m) = (if k = j then Some v else sm_find k m)"

fun sm_put :: "'k::linorder \<Rightarrow> 'v \<Rightarrow> ('k, 'v) stdmap \<Rightarrow> ('k, 'v) stdmap" where
  "sm_put k x [] = [(k, x)]"
| "sm_put k x ((j, v) # m) =
     (if k < j then (k, x) # (j, v) # m
      else if k = j then (k, x) # m
      else (j, v) # sm_put k x m)"

fun sm_erase :: "'k::linorder \<Rightarrow> ('k, 'v) stdmap \<Rightarrow> ('k, 'v) stdmap" where
  "sm_erase k [] = []"
| "sm_erase k ((j, v) # m) = (if k = j then m else (j, v) # sm_erase k m)"

definition sm_at :: "'v \<Rightarrow> 'k::linorder \<Rightarrow> ('k, 'v) stdmap \<Rightarrow> 'v \<times> ('k, 'v) stdmap" where
  "sm_at dflt k m = (case sm_find k m of Some v \<Rightarrow> (v, m) | None \<Rightarrow> (dflt, sm_put k dflt m))"

text \<open>The contract of an ordered map with keys \<open>'k\<close>.\<close>

locale ordered_map =
  fixes emp :: 'm
    and find :: "'k \<Rightarrow> 'm \<Rightarrow> 'v option"
    and put :: "'k \<Rightarrow> 'v \<Rightarrow> 'm \<Rightarrow> 'm"
    and erase :: "'k \<Rightarrow> 'm \<Rightarrow> 'm"
    and ok :: "'m \<Rightarrow> bool"
  assumes find_emp: "find k emp = None"
    and find_put: "find k (put j v m) = (if k = j then Some v else find k m)"
    and find_erase: "ok m \<Longrightarrow> find k (erase j m) = (if k = j then None else find k m)"
    and ok_emp: "ok emp"
    and ok_put: "ok m \<Longrightarrow> ok (put j v m)"
    and ok_erase: "ok m \<Longrightarrow> ok (erase j m)"
begin

text \<open>A table built by a list of assignments, later ones winning.\<close>

lemma find_table:
  "find k (fold (\<lambda>(j, v). put j v) kvs m) =
     (case map_of (rev kvs) k of None \<Rightarrow> find k m | Some v \<Rightarrow> Some v)"
  by (induction kvs arbitrary: m) (auto simp: find_put map_add_def split: option.split)

lemma ok_table: "ok m \<Longrightarrow> ok (fold (\<lambda>(j, v). put j v) kvs m)"
  by (induction kvs arbitrary: m) (auto simp: ok_put)

lemma find_emp_table: "find k (fold (\<lambda>(j, v). put j v) kvs emp) = map_of (rev kvs) k"
  by (simp add: find_table find_emp split: option.split)

lemma put_erase: "ok m \<Longrightarrow> find k (erase j (put j v m)) = (if k = j then None else find k m)"
  by (simp add: find_erase ok_put find_put)

end

lemma sm_find_put: "sm_find k (sm_put j v m) = (if k = j then Some v else sm_find k m)"
  by (induction j v m rule: sm_put.induct) auto

lemma sm_find_None: "k \<notin> fst ` set m \<Longrightarrow> sm_find k m = None"
  by (induction m) auto

lemma sm_find_mem: "sm_find k m \<noteq> None \<longleftrightarrow> k \<in> fst ` set m"
  by (induction m) (auto split: if_splits)

lemma sm_find_below: "\<forall>x \<in> set m. k < fst x \<Longrightarrow> sm_find k m = None"
  by (induction m) auto

lemma sm_find_erase: "sm_ok m \<Longrightarrow> sm_find k (sm_erase j m) = (if k = j then None else sm_find k m)"
  by (induction m) (auto simp: sm_ok_def sm_find_below)

lemma fst_sm_put: "fst ` set (sm_put k v m) = insert k (fst ` set m)"
  by (induction k v m rule: sm_put.induct) auto

lemma set_sm_erase: "x \<in> set (sm_erase k m) \<Longrightarrow> x \<in> set m"
  by (induction m) (auto split: if_splits)

lemma sm_ok_put: "sm_ok m \<Longrightarrow> sm_ok (sm_put k v m)"
proof (induction k v m rule: sm_put.induct)
  case (1 k x)
  then show ?case by (simp add: sm_ok_def)
next
  case (2 k x j v m)
  then have IH: "\<not> k < j \<Longrightarrow> k \<noteq> j \<Longrightarrow> sorted_wrt (<) (map fst (sm_put k x m))"
    and ord: "\<forall>i \<in> fst ` set m. j < i" "sorted_wrt (<) (map fst m)"
    by (auto simp: sm_ok_def)
  show ?case
    using IH ord fst_sm_put [of k x m] by (auto simp: sm_ok_def)
qed

lemma sm_ok_erase: "sm_ok m \<Longrightarrow> sm_ok (sm_erase k m)"
proof (induction m)
  case Nil
  then show ?case by simp
next
  case (Cons a m)
  then show ?case by (cases a) (auto simp: sm_ok_def dest: set_sm_erase)
qed

interpretation sm: ordered_map "[]" sm_find sm_put sm_erase sm_ok
  by unfold_locales
    (simp_all add: sm_find_put sm_find_erase sm_ok_put sm_ok_erase, simp add: sm_ok_def)

text \<open>\<open>operator[]\<close>.\<close>

lemma sm_at_value: "fst (sm_at dflt k m) = (case sm_find k m of Some v \<Rightarrow> v | None \<Rightarrow> dflt)"
  by (simp add: sm_at_def split: option.split)

lemma sm_at_keeps: "sm_find j m = Some v \<Longrightarrow> sm_find j (snd (sm_at dflt k m)) = Some v"
  by (auto simp: sm_at_def sm_find_put split: option.split)

lemma sm_at_find: "sm_find j (snd (sm_at dflt k m)) =
    (if j = k \<and> sm_find k m = None then Some dflt else sm_find j m)"
  by (auto simp: sm_at_def sm_find_put split: option.split)

lemma sm_at_ok: "sm_ok m \<Longrightarrow> sm_ok (snd (sm_at dflt k m))"
  by (simp add: sm_at_def sm_ok_put split: option.split)

lemma sm_find_member: "sm_ok m \<Longrightarrow> (k, v) \<in> set m \<Longrightarrow> sm_find k m = Some v"
  by (induction m) (force simp: sm_ok_def)+

lemma sm_ok_distinct: "sm_ok m \<Longrightarrow> distinct (map fst m)"
  by (simp add: sm_ok_def strict_sorted_iff)

end
