(* ===== verification/ServerWorker.thy ===== *)
theory ServerWorker
  imports Exchange StudentManager StdMap
begin

text \<open>
  \<open>CServerWorker\<close> (server/work.cpp, server/work.h): the worker the server keeps for each
  connection. It dispatches commands through two maps and answers from the database and the
  disk.
\<close>

datatype server_file_type = SF_CXWJ

datatype server_command_type =
  S_WCZL | S_MSQL | S_WJLB | S_XZWJ | S_SBBH | S_TEST

record server_worker = cworker +
  s_fileType :: "(string, server_file_type) stdmap"
  s_commandType :: "(string, server_command_type) stdmap"

text \<open>\<open>initParameter\<close>, lines 48 to 54; \<open>TEST\<close> is not entered.\<close>

definition server_files :: "(string \<times> server_file_type) list" where
  "server_files = [(''CXWJ'', SF_CXWJ)]"

definition server_commands :: "(string \<times> server_command_type) list" where
  "server_commands =
     [(''WCZL'', S_WCZL), (''MSQL'', S_MSQL), (''XZWJ'', S_XZWJ), (''SBBH'', S_SBBH),
      (''WJLB'', S_WJLB)]"

definition CServerWorker_new :: server_worker where
  "CServerWorker_new = cworker.extend CWorker_new
     \<lparr>s_fileType = fold (\<lambda>(k, v). sm_put k v) server_files [],
      s_commandType = fold (\<lambda>(k, v). sm_put k v) server_commands []\<rparr>"

text \<open>Database calls from a worker.\<close>

definition on_db :: "('d datahelper, 'b) prog \<Rightarrow> ('d world, 'b) prog" where
  "on_db m = zoom w_db (\<lambda>h d. d\<lparr>w_db := h\<rparr>) m"

type_synonym 'd sstate = "server_worker \<times> 'd world"

definition server_CommanCXWJ :: "('j, 'd) libs \<Rightarrow> 'j \<Rightarrow> ('d sstate, unit) prog" where
  "server_CommanCXWJ L fileJson =
     andThen (query (\<lambda>(w, d). w_fs d)) (\<lambda>fs.
     andThen (with_worker (\<lambda>_. on_db (UpFile L fs (js_write (json L) fileJson) 0))) (\<lambda>_.
     ret ()))"

definition server_CommanTEST :: "string \<Rightarrow> ('d sstate, unit) prog" where
  "server_CommanTEST strContent = ret ()"

definition send_done :: "('j, 'd) libs \<Rightarrow> ('d sstate, unit) prog" where
  "send_done L = andThen (with_worker (\<lambda>w. SendWCZL L w)) (\<lambda>_. ret ())"

definition server_CommanWCZL :: "('j, 'd) libs \<Rightarrow> string \<Rightarrow> ('d sstate, unit) prog" where
  "server_CommanWCZL L strContent =
     andThen (modify (\<lambda>(w, d). (setCMDFinishFlag 1 w, d))) (\<lambda>_. send_done L)"

definition server_CommanMSQL :: "('j, 'd) libs \<Rightarrow> string \<Rightarrow> ('d sstate, unit) prog" where
  "server_CommanMSQL L strContent =
     andThen (with_worker (\<lambda>_. on_db (excuteSql L strContent))) (\<lambda>_. send_done L)"

definition SendCXWJ ::
    "('j, 'd) libs \<Rightarrow> 'a cworker_scheme \<Rightarrow> string \<Rightarrow> ('d world, unit) prog" where
  "SendCXWJ L w strContent = SendFileTo L w ''CXWJ'' strContent"

definition server_CommanXZWJ :: "('j, 'd) libs \<Rightarrow> string \<Rightarrow> ('d sstate, unit) prog" where
  "server_CommanXZWJ L strContent =
     (case StringToJson L strContent of
        None \<Rightarrow> ret ()
      | Some fileJson \<Rightarrow>
          andThen (of_option Json_error (json_str2 (json L) fileJson FILE_DESCRIBE FILE_PATH))
            (\<lambda>(_, strPath).
          andThen (query (\<lambda>(w, d). IsFileExist L (w_fs d) (c_str strPath))) (\<lambda>bRt.
          if bRt then with_worker (\<lambda>w. SendCXWJ L w strContent) else ret ())))"

definition server_CommanWJLB :: "('j, 'd) libs \<Rightarrow> string \<Rightarrow> ('d sstate, unit) prog" where
  "server_CommanWJLB L strContent =
     (case StringToJson L strContent of
        None \<Rightarrow> ret ()
      | Some msgJs \<Rightarrow>
          andThen (of_option Json_error (json_str (json L) msgJs FILE_CLASS)) (\<lambda>(msgJs, strClass).
          andThen (of_option Json_error (json_str (json L) msgJs FILE_STUDENT)) (\<lambda>(msgJs, strStudent).
          andThen (with_worker (\<lambda>_. on_db (GetFiles L strClass strStudent []))) (\<lambda>(_, strFileList).
          andThen (of_option Json_error
              (js_put (json L) msgJs FILE_LIST (js_of_string (json L) strFileList))) (\<lambda>msgJs.
          andThen (with_worker (\<lambda>w. SendMsgTo L w ''WJLB'' (JsonToString L msgJs))) (\<lambda>_.
          ret ()))))))"

text \<open>The JSON text \<open>CommanSBBH\<close> builds by concatenation.\<close>

definition DQUOTE :: string where
  "DQUOTE = [CHR 0x22]"

definition sbbh_request :: "string \<Rightarrow> string" where
  "sbbh_request strContent =
     ''{'' @ DQUOTE @ ''deviceNumber'' @ DQUOTE @ '':'' @ DQUOTE @ DQUOTE @ '', '' @
     DQUOTE @ ''ipaddr'' @ DQUOTE @ '': '' @ DQUOTE @ strContent @ DQUOTE @ ''}''"

definition server_CommanSBBH :: "('j, 'd) libs \<Rightarrow> string \<Rightarrow> ('d sstate, unit) prog" where
  "server_CommanSBBH L strContent =
     andThen (with_worker (\<lambda>_. on_db (Device L (sbbh_request strContent) 2))) (\<lambda>(_, str).
     andThen (with_worker (\<lambda>w. SendMsgTo L w ''SBBH'' str)) (\<lambda>_.
     ret ()))"

text \<open>\<open>SendSKBJ\<close> tells a client the class, the course and the students of the class.\<close>

definition skbj_sql :: "string \<Rightarrow> string" where
  "skbj_sql strClass = ''select * from studentinfo where className='' @ quoted strClass"

definition skbj_json :: "('j, 'd) libs \<Rightarrow> string \<Rightarrow> string \<Rightarrow> string \<Rightarrow> 'j option" where
  "skbj_json L strClass strCourse strOut =
     (case js_put (json L) (js_null (json L)) FILE_CLASS (js_of_string (json L) strClass) of
        None \<Rightarrow> None
      | Some js \<Rightarrow>
     (case js_put (json L) js FILE_COURES (js_of_string (json L) strCourse) of
        None \<Rightarrow> None
      | Some js \<Rightarrow> js_put (json L) js CLASS_INFO (js_of_string (json L) strOut)))"

definition SendSKBJ ::
    "('j, 'd) libs \<Rightarrow> 'a cworker_scheme \<Rightarrow> string \<Rightarrow> string \<Rightarrow> ('d world, unit) prog" where
  "SendSKBJ L w strClass strCourse =
     andThen (on_db (Display L (skbj_sql strClass) [])) (\<lambda>(_, strOut).
     andThen (of_option Json_error (skbj_json L strClass strCourse strOut)) (\<lambda>js.
     andThen (SendMsgTo L w ''SKBJ'' (JsonToString L js)) (\<lambda>_.
     ret ())))"

text \<open>
  The dispatch. \<open>m_commandType[command]\<close> inserts the first enumerator for an unknown
  command, so an unknown command runs as \<open>WCZL\<close> and the map grows.
\<close>

definition lookup_server_command :: "string \<Rightarrow> ('d sstate, server_command_type) prog" where
  "lookup_server_command command = (\<lambda>(w, d).
     case sm_at S_WCZL command (s_commandType w) of
       (t, m) \<Rightarrow> (Inr t, (w\<lparr>s_commandType := m\<rparr>, d)))"

definition lookup_server_file :: "string \<Rightarrow> ('d sstate, server_file_type) prog" where
  "lookup_server_file command = (\<lambda>(w, d).
     case sm_at SF_CXWJ command (s_fileType w) of
       (t, m) \<Rightarrow> (Inr t, (w\<lparr>s_fileType := m\<rparr>, d)))"

definition server_excuteCommand ::
    "('j, 'd) libs \<Rightarrow> string \<Rightarrow> string \<Rightarrow> ('d sstate, unit) prog" where
  "server_excuteCommand L command content =
     andThen (lookup_server_command command) (\<lambda>t.
     case t of
       S_WCZL \<Rightarrow> server_CommanWCZL L content
     | S_MSQL \<Rightarrow> server_CommanMSQL L content
     | S_WJLB \<Rightarrow> server_CommanWJLB L content
     | S_XZWJ \<Rightarrow> server_CommanXZWJ L content
     | S_SBBH \<Rightarrow> server_CommanSBBH L content
     | S_TEST \<Rightarrow> server_CommanTEST content)"

definition server_excuteFile ::
    "('j, 'd) libs \<Rightarrow> string \<Rightarrow> 'j \<Rightarrow> ('d sstate, unit) prog" where
  "server_excuteFile L command describeJson =
     andThen (lookup_server_file command) (\<lambda>t.
     case t of SF_CXWJ \<Rightarrow> server_CommanCXWJ L describeJson)"

text \<open>The overload with a source: every case of its switch is commented out.\<close>

definition server_excuteFile_src :: "TCPSOURCETYPE \<Rightarrow> string \<Rightarrow> ('d sstate, unit) prog" where
  "server_excuteFile_src src command = andThen (lookup_server_file command) (\<lambda>_. ret ())"

definition server_handlers ::
    "('j, 'd) libs \<Rightarrow> (unit server_worker_ext, 'j, 'd) handlers" where
  "server_handlers L =
     \<lparr>excuteCommand = server_excuteCommand L, excuteFile = server_excuteFile L\<rparr>"

section \<open>The contract of the receive loop\<close>

lemma SendCXWJ_data [simp]: "SendCXWJ L (w\<lparr>m_strData := x\<rparr>) = SendCXWJ L w"
  by (simp add: SendCXWJ_def fun_eq_iff)

lemma blind_lookup_server [blind_intros]:
  "blind (lookup_server_command command)" "blind (lookup_server_file command)"
  by (simp_all add: blind_def lookup_server_command_def lookup_server_file_def put_data_def
      split: prod.split)

lemma blind_flag [blind_intros]: "blind (modify (\<lambda>(w, d). (setCMDFinishFlag n w, d)))"
  by (rule blind_modify) (simp add: put_data_def setCMDFinishFlag_def split: prod.split)

lemma blind_fs_query [blind_intros]: "blind (query (\<lambda>(w, d). f (w_fs d)))"
  by (rule blind_query) (simp add: put_data_def split: prod.split)

lemma blind_server_command_case [blind_intros]:
  "blind a \<Longrightarrow> blind b \<Longrightarrow> blind c \<Longrightarrow> blind d \<Longrightarrow> blind e \<Longrightarrow> blind f \<Longrightarrow>
   blind (case t of S_WCZL \<Rightarrow> a | S_MSQL \<Rightarrow> b | S_WJLB \<Rightarrow> c | S_XZWJ \<Rightarrow> d | S_SBBH \<Rightarrow> e | S_TEST \<Rightarrow> f)"
  by (cases t) simp_all

lemma blind_server_file_case [blind_intros]: "blind a \<Longrightarrow> blind (case t of SF_CXWJ \<Rightarrow> a)"
  by (cases t) simp

lemma blind_fs [blind_intros]: "blind (query (\<lambda>(w, d). w_fs d))"
  by (rule blind_query) (simp add: put_data_def split: prod.split)

lemma blind_server_excuteCommand: "blind (server_excuteCommand L command content)"
  unfolding server_excuteCommand_def server_CommanWCZL_def server_CommanMSQL_def
    server_CommanWJLB_def server_CommanXZWJ_def server_CommanSBBH_def server_CommanTEST_def
    send_done_def
  by (intro blind_intros blind_with_worker) simp_all

lemma blind_server_excuteFile: "blind (server_excuteFile L command desc)"
  unfolding server_excuteFile_def server_CommanCXWJ_def
  by (intro blind_intros blind_with_worker refl)


lemma fuel_free_on_db [fuel_free_intros]: "fuel_free m \<Longrightarrow> fuel_free (on_db m)"
  unfolding on_db_def by (intro fuel_free_intros)

lemma fuel_free_lookup_server [fuel_free_intros]:
  "fuel_free (lookup_server_command command)" "fuel_free (lookup_server_file command)"
  by (simp_all add: fuel_free_def lookup_server_command_def lookup_server_file_def split: prod.split)

lemma fuel_free_SendCXWJ [fuel_free_intros]: "fuel_free (SendCXWJ L w s)"
  unfolding SendCXWJ_def by (intro fuel_free_intros)

lemma fuel_free_server_commands [fuel_free_intros]:
  "fuel_free (server_CommanWCZL L c)" "fuel_free (server_CommanMSQL L c)"
  "fuel_free (server_CommanWJLB L c)" "fuel_free (server_CommanXZWJ L c)"
  "fuel_free (server_CommanSBBH L c)" "fuel_free (server_CommanTEST c)"
  "fuel_free (server_CommanCXWJ L v)"
  unfolding server_CommanWCZL_def server_CommanMSQL_def server_CommanWJLB_def
    server_CommanXZWJ_def server_CommanSBBH_def server_CommanTEST_def server_CommanCXWJ_def
    send_done_def
  by (intro fuel_free_intros; simp)+

lemma fuel_free_server_excuteCommand: "fuel_free (server_excuteCommand L command content)"
  unfolding server_excuteCommand_def
  by (rule fuel_free_andThen)
    (auto intro: fuel_free_intros split: server_command_type.split)

lemma fuel_free_server_excuteFile: "fuel_free (server_excuteFile L command v)"
  unfolding server_excuteFile_def
  by (rule fuel_free_andThen) (auto intro: fuel_free_intros split: server_file_type.split)

text \<open>The server's handlers keep the contract.\<close>

interpretation srv: packet_handler "server_handlers L" for L :: "('j, 'd) libs"
  by unfold_locales
    (simp_all add: server_handlers_def blind_server_excuteCommand blind_server_excuteFile
      fuel_free_server_excuteCommand fuel_free_server_excuteFile)

section \<open>Dispatch\<close>

text \<open>A worker's table: every command \<open>initParameter\<close> enters has its own entry.\<close>

definition server_tables_ok :: "server_worker \<Rightarrow> bool" where
  "server_tables_ok w \<longleftrightarrow>
     sm_ok (s_commandType w) \<and> sm_ok (s_fileType w) \<and>
     (\<forall>k t. (k, t) \<in> set server_commands \<longrightarrow> sm_find k (s_commandType w) = Some t) \<and>
     (\<forall>k t. (k, t) \<in> set server_files \<longrightarrow> sm_find k (s_fileType w) = Some t) \<and>
     (\<forall>k. k \<notin> fst ` set server_commands \<longrightarrow> sm_find k (s_commandType w) \<in> {None, Some S_WCZL})"

lemma server_tables_new: "server_tables_ok CServerWorker_new"
proof -
  have c: "s_commandType CServerWorker_new = fold (\<lambda>(k, v). sm_put k v) server_commands []"
    and f: "s_fileType CServerWorker_new = fold (\<lambda>(k, v). sm_put k v) server_files []"
    by (simp_all add: CServerWorker_new_def cworker.defs)
  have "sm_ok (s_commandType CServerWorker_new)" "sm_ok (s_fileType CServerWorker_new)"
    unfolding c f by (intro sm.ok_table sm.ok_emp)+
  moreover have "sm_find k (s_commandType CServerWorker_new) = map_of (rev server_commands) k"
    and "sm_find k (s_fileType CServerWorker_new) = map_of (rev server_files) k" for k
    unfolding c f by (rule sm.find_emp_table)+
  ultimately show ?thesis
    by (simp add: server_tables_ok_def server_commands_def server_files_def)
qed

lemma server_tables_lookup:
  assumes "server_tables_ok w" and "lookup_server_command command (w, d) = (Inr t, (w', d'))"
  shows "server_tables_ok w'" and "d' = d"
    and "t = (case map_of server_commands command of None \<Rightarrow> S_WCZL | Some t \<Rightarrow> t)"
proof -
  have w': "w' = w\<lparr>s_commandType := snd (sm_at S_WCZL command (s_commandType w))\<rparr>"
    and t: "t = fst (sm_at S_WCZL command (s_commandType w))" and d: "d' = d"
    using assms(2) by (auto simp: lookup_server_command_def split: prod.splits)
  show "d' = d" by (rule d)
  show "server_tables_ok w'"
    using assms(1) unfolding w'
    by (fastforce simp: server_tables_ok_def sm_at_ok sm_at_find)
  show "t = (case map_of server_commands command of None \<Rightarrow> S_WCZL | Some t \<Rightarrow> t)"
  proof (cases "map_of server_commands command")
    case None
    then have "command \<notin> fst ` set server_commands" by (simp add: map_of_eq_None_iff)
    with assms(1) have "sm_find command (s_commandType w) \<in> {None, Some S_WCZL}"
      by (auto simp: server_tables_ok_def)
    with None show ?thesis by (auto simp: t sm_at_value)
  next
    case (Some u)
    then have "(command, u) \<in> set server_commands" by (rule map_of_SomeD)
    with assms(1) have "sm_find command (s_commandType w) = Some u"
      by (auto simp: server_tables_ok_def)
    with Some show ?thesis by (simp add: t sm_at_value)
  qed
qed

end
