(* ===== verification/ClientWorker.thy ===== *)
theory ClientWorker
  imports Exchange StdMap
begin

text \<open>
  \<open>CClientWorker\<close> (client/work.cpp, client/work.h): the worker of the client's one
  connection. It stores the answers of the server in its fields and raises the finish flag
  that the requesting thread polls.
\<close>

datatype client_file_type = CF_CXWJ

datatype client_command_type =
  C_WCZL | C_MSQL | C_WJLB | C_SBBH | C_SKBJ | C_TEST

record client_worker = cworker +
  c_fileType :: "(string, client_file_type) stdmap"
  c_commandType :: "(string, client_command_type) stdmap"
  c_strFileList :: string
  c_strDeviceNum :: string
  c_strClass :: string
  c_strCourse :: string
  c_strClassInfo :: string

definition client_files :: "(string \<times> client_file_type) list" where
  "client_files = [(''CXWJ'', CF_CXWJ)]"

definition client_commands :: "(string \<times> client_command_type) list" where
  "client_commands =
     [(''WCZL'', C_WCZL), (''MSQL'', C_MSQL), (''WJLB'', C_WJLB), (''SBBH'', C_SBBH),
      (''SKBJ'', C_SKBJ)]"

definition CClientWorker_new :: client_worker where
  "CClientWorker_new = cworker.extend CWorker_new
     \<lparr>c_fileType = fold (\<lambda>(k, v). sm_put k v) client_files [],
      c_commandType = fold (\<lambda>(k, v). sm_put k v) client_commands [],
      c_strFileList = [], c_strDeviceNum = [], c_strClass = [], c_strCourse = [],
      c_strClassInfo = []\<rparr>"

type_synonym 'd cstate = "client_worker \<times> 'd world"

definition on_client :: "(client_worker \<Rightarrow> client_worker) \<Rightarrow> ('d cstate, unit) prog" where
  "on_client f = modify (\<lambda>(w, d). (f w, d))"

definition client_CommanTEST :: "string \<Rightarrow> ('d cstate, unit) prog" where
  "client_CommanTEST strContent = ret ()"

definition client_CommanWCZL :: "string \<Rightarrow> ('d cstate, unit) prog" where
  "client_CommanWCZL strContent = on_client (setCMDFinishFlag 1)"

definition client_CommanMSQL :: "string \<Rightarrow> ('d cstate, unit) prog" where
  "client_CommanMSQL strContent = ret ()"

definition client_CommanWJLB :: "('j, 'd) libs \<Rightarrow> string \<Rightarrow> ('d cstate, unit) prog" where
  "client_CommanWJLB L strContent =
     andThen
       (case StringToJson L strContent of
          None \<Rightarrow> ret ()
        | Some fileListJs \<Rightarrow>
            andThen (of_option Json_error (json_str (json L) fileListJs FILE_LIST)) (\<lambda>(_, s).
            on_client (\<lambda>w. w\<lparr>c_strFileList := s\<rparr>)))
       (\<lambda>_. on_client (setCMDFinishFlag 1))"

definition client_CommanSBBH :: "string \<Rightarrow> ('d cstate, unit) prog" where
  "client_CommanSBBH strContent =
     on_client (\<lambda>w. setCMDFinishFlag 1 (w\<lparr>c_strDeviceNum := strContent\<rparr>))"

definition client_CommanSKBJ :: "('j, 'd) libs \<Rightarrow> string \<Rightarrow> ('d cstate, unit) prog" where
  "client_CommanSKBJ L strContent =
     (case StringToJson L strContent of
        None \<Rightarrow> ret ()
      | Some js \<Rightarrow>
          andThen (of_option Json_error (json_str (json L) js FILE_CLASS)) (\<lambda>(js, cls).
          andThen (on_client (\<lambda>w. w\<lparr>c_strClass := cls\<rparr>)) (\<lambda>_.
          andThen (of_option Json_error (json_str (json L) js FILE_COURES)) (\<lambda>(js, course).
          andThen (on_client (\<lambda>w. w\<lparr>c_strCourse := course\<rparr>)) (\<lambda>_.
          andThen (of_option Json_error (json_str (json L) js CLASS_INFO)) (\<lambda>(js, info).
          on_client (\<lambda>w. w\<lparr>c_strClassInfo := info\<rparr>)))))))"

text \<open>A received teaching file is copied into the directory for its type; the flag is raised
  whether the copy succeeds or not.\<close>

definition copy_file :: "('j, 'd) libs \<Rightarrow> string \<Rightarrow> string \<Rightarrow> ('d cstate, unit) prog" where
  "copy_file L strSrc strDir =
     modify (\<lambda>(w, d). (w, d\<lparr>w_fs := snd (CxxCopyFile L (w_fs d) (c_str strSrc) (c_str strDir))\<rparr>))"

definition client_CommanCXWJ :: "('j, 'd) libs \<Rightarrow> 'j \<Rightarrow> ('d cstate, unit) prog" where
  "client_CommanCXWJ L describeJson =
     andThen (of_option Json_error (json_int (json L) describeJson FILE_TYPE)) (\<lambda>(js, nType).
     andThen (of_option Json_error (json_str (json L) js FILE_PATH)) (\<lambda>(js, strSrc).
     andThen (of_option Json_error (json_str (json L) js FILE_NAME)) (\<lambda>(js, strName).
     andThen (of_result (GetDirectory L nType strName)) (\<lambda>strDir.
     andThen (copy_file L strSrc strDir) (\<lambda>_.
     on_client (setCMDFinishFlag 1))))))"

definition lookup_client_command :: "string \<Rightarrow> ('d cstate, client_command_type) prog" where
  "lookup_client_command command = (\<lambda>(w, d).
     case sm_at C_WCZL command (c_commandType w) of
       (t, m) \<Rightarrow> (Inr t, (w\<lparr>c_commandType := m\<rparr>, d)))"

definition lookup_client_file :: "string \<Rightarrow> ('d cstate, client_file_type) prog" where
  "lookup_client_file command = (\<lambda>(w, d).
     case sm_at CF_CXWJ command (c_fileType w) of
       (t, m) \<Rightarrow> (Inr t, (w\<lparr>c_fileType := m\<rparr>, d)))"

definition client_excuteCommand ::
    "('j, 'd) libs \<Rightarrow> string \<Rightarrow> string \<Rightarrow> ('d cstate, unit) prog" where
  "client_excuteCommand L command content =
     andThen (lookup_client_command command) (\<lambda>t.
     case t of
       C_WCZL \<Rightarrow> client_CommanWCZL content
     | C_MSQL \<Rightarrow> client_CommanMSQL content
     | C_WJLB \<Rightarrow> client_CommanWJLB L content
     | C_SBBH \<Rightarrow> client_CommanSBBH content
     | C_SKBJ \<Rightarrow> client_CommanSKBJ L content
     | C_TEST \<Rightarrow> ret ())"

definition client_excuteFile ::
    "('j, 'd) libs \<Rightarrow> string \<Rightarrow> 'j \<Rightarrow> ('d cstate, unit) prog" where
  "client_excuteFile L command describeJson =
     andThen (lookup_client_file command) (\<lambda>t.
     case t of CF_CXWJ \<Rightarrow> client_CommanCXWJ L describeJson)"

definition client_handlers ::
    "('j, 'd) libs \<Rightarrow> (unit client_worker_ext, 'j, 'd) handlers" where
  "client_handlers L =
     \<lparr>excuteCommand = client_excuteCommand L, excuteFile = client_excuteFile L\<rparr>"

section \<open>Requests\<close>

text \<open>\<open>SendToServer\<close> is the same \<open>send\<close> call as \<open>CWorker::SendMsgTo(string&)\<close>.\<close>

definition worker_SendToServer ::
    "('j, 'd) libs \<Rightarrow> 'a cworker_scheme \<Rightarrow> string \<Rightarrow> ('d world, int) prog" where
  "worker_SendToServer L w strMsg = SendMsgTo_raw L w strMsg"

definition SendXZWJ :: "('j, 'd) libs \<Rightarrow> 'a cworker_scheme \<Rightarrow> string \<Rightarrow> ('d world, int) prog" where
  "SendXZWJ L w strsql = SendMsgTo L w ''XZWJ'' strsql"

definition SendWJLB :: "('j, 'd) libs \<Rightarrow> 'a cworker_scheme \<Rightarrow> string \<Rightarrow> ('d world, int) prog" where
  "SendWJLB L w strMsg = SendMsgTo L w ''WJLB'' strMsg"

definition SendSBBH :: "('j, 'd) libs \<Rightarrow> 'a cworker_scheme \<Rightarrow> string \<Rightarrow> ('d world, int) prog" where
  "SendSBBH L w strIP = SendMsgTo L w ''SBBH'' strIP"

text \<open>
  \<open>SendMSQL\<close> waits for the flag when sending answered a negative number. \<open>flags\<close> are the
  values the polls find; \<open>None\<close> is a wait without end.
\<close>

definition SendMSQL ::
    "('j, 'd) libs \<Rightarrow> (nat \<Rightarrow> int) \<Rightarrow> string \<Rightarrow> ('d cstate, int option) prog" where
  "SendMSQL L flags strsql =
     andThen (on_client (setCMDFinishFlag (-1))) (\<lambda>_.
     andThen (with_worker (\<lambda>w. SendMsgTo L w ''MSQL'' strsql)) (\<lambda>nRt.
     if nRt < 0
     then ret (case waitCMDFinishFlag flags of None \<Rightarrow> None | Some _ \<Rightarrow> Some nRt)
     else ret (Some nRt)))"

definition worker_GetFileList :: "client_worker \<Rightarrow> string" where
  "worker_GetFileList w = c_strFileList w"

definition worker_GetDeviceNumber :: "client_worker \<Rightarrow> string" where
  "worker_GetDeviceNumber w = c_strDeviceNum w"

definition worker_GetClass :: "client_worker \<Rightarrow> string" where
  "worker_GetClass w = c_strClass w"

definition worker_GetCourse :: "client_worker \<Rightarrow> string" where
  "worker_GetCourse w = c_strCourse w"

definition worker_GetClassStudent :: "client_worker \<Rightarrow> string" where
  "worker_GetClassStudent w = c_strClassInfo w"

section \<open>The contract of the receive loop\<close>

lemma blind_on_client [blind_intros]:
  "(\<And>x w. f (w\<lparr>m_strData := x\<rparr>) = (f w)\<lparr>m_strData := x\<rparr>) \<Longrightarrow> blind (on_client f)"
  unfolding on_client_def by (rule blind_modify) (simp add: put_data_def split: prod.split)

lemma blind_copy_file [blind_intros]: "blind (copy_file L a b)"
  unfolding copy_file_def by (rule blind_modify) (simp add: put_data_def split: prod.split)

lemma blind_lookup_client [blind_intros]:
  "blind (lookup_client_command command)" "blind (lookup_client_file command)"
  by (simp_all add: blind_def lookup_client_command_def lookup_client_file_def put_data_def
      split: prod.split)

lemma blind_client_command_case [blind_intros]:
  "blind a \<Longrightarrow> blind b \<Longrightarrow> blind c \<Longrightarrow> blind d \<Longrightarrow> blind e \<Longrightarrow> blind f \<Longrightarrow>
   blind (case t of C_WCZL \<Rightarrow> a | C_MSQL \<Rightarrow> b | C_WJLB \<Rightarrow> c | C_SBBH \<Rightarrow> d | C_SKBJ \<Rightarrow> e | C_TEST \<Rightarrow> f)"
  by (cases t) simp_all

lemma blind_client_file_case [blind_intros]: "blind a \<Longrightarrow> blind (case t of CF_CXWJ \<Rightarrow> a)"
  by (cases t) simp

lemma blind_client_excuteCommand: "blind (client_excuteCommand L command content)"
  unfolding client_excuteCommand_def client_CommanWCZL_def client_CommanMSQL_def
    client_CommanWJLB_def client_CommanSBBH_def client_CommanSKBJ_def
  by (intro blind_intros) (simp_all add: setCMDFinishFlag_def)

lemma blind_client_excuteFile: "blind (client_excuteFile L command desc)"
  unfolding client_excuteFile_def client_CommanCXWJ_def
  by (intro blind_intros) (simp add: setCMDFinishFlag_def)

lemma fuel_free_client_steps [fuel_free_intros]:
  "fuel_free (on_client f)" "fuel_free (copy_file L a b)"
  "fuel_free (lookup_client_command command)" "fuel_free (lookup_client_file command)"
  by (simp_all add: fuel_free_def on_client_def copy_file_def modify_def
      lookup_client_command_def lookup_client_file_def split: prod.split)

lemma fuel_free_GetDirectory [fuel_free_intros]: "fuel_free (of_result (GetDirectory L n s))"
  by (rule fuel_free_of_result) (simp add: GetDirectory_def Let_def)

lemma fuel_free_client_commands [fuel_free_intros]:
  "fuel_free (client_CommanWCZL c)" "fuel_free (client_CommanMSQL c)"
  "fuel_free (client_CommanWJLB L c)" "fuel_free (client_CommanSBBH c)"
  "fuel_free (client_CommanSKBJ L c)" "fuel_free (client_CommanCXWJ L v)"
  unfolding client_CommanWCZL_def client_CommanMSQL_def client_CommanWJLB_def
    client_CommanSBBH_def client_CommanSKBJ_def client_CommanCXWJ_def
  by (intro fuel_free_intros; simp)+

lemma fuel_free_client_excuteCommand: "fuel_free (client_excuteCommand L command content)"
  unfolding client_excuteCommand_def
  by (rule fuel_free_andThen) (auto intro: fuel_free_intros split: client_command_type.split)

lemma fuel_free_client_excuteFile: "fuel_free (client_excuteFile L command v)"
  unfolding client_excuteFile_def
  by (rule fuel_free_andThen) (auto intro: fuel_free_intros split: client_file_type.split)

text \<open>The client's handlers keep the contract.\<close>

interpretation cli: packet_handler "client_handlers L" for L :: "('j, 'd) libs"
  by unfold_locales
    (simp_all add: client_handlers_def blind_client_excuteCommand blind_client_excuteFile
      fuel_free_client_excuteCommand fuel_free_client_excuteFile)

section \<open>Dispatch\<close>

definition client_tables_ok :: "client_worker \<Rightarrow> bool" where
  "client_tables_ok w \<longleftrightarrow>
     sm_ok (c_commandType w) \<and> sm_ok (c_fileType w) \<and>
     (\<forall>k t. (k, t) \<in> set client_commands \<longrightarrow> sm_find k (c_commandType w) = Some t) \<and>
     (\<forall>k t. (k, t) \<in> set client_files \<longrightarrow> sm_find k (c_fileType w) = Some t) \<and>
     (\<forall>k. k \<notin> fst ` set client_commands \<longrightarrow> sm_find k (c_commandType w) \<in> {None, Some C_WCZL})"

lemma client_tables_new: "client_tables_ok CClientWorker_new"
proof -
  have c: "c_commandType CClientWorker_new = fold (\<lambda>(k, v). sm_put k v) client_commands []"
    and f: "c_fileType CClientWorker_new = fold (\<lambda>(k, v). sm_put k v) client_files []"
    by (simp_all add: CClientWorker_new_def cworker.defs)
  have "sm_ok (c_commandType CClientWorker_new)" "sm_ok (c_fileType CClientWorker_new)"
    unfolding c f by (intro sm.ok_table sm.ok_emp)+
  moreover have "sm_find k (c_commandType CClientWorker_new) = map_of (rev client_commands) k"
    and "sm_find k (c_fileType CClientWorker_new) = map_of (rev client_files) k" for k
    unfolding c f by (rule sm.find_emp_table)+
  ultimately show ?thesis
    by (simp add: client_tables_ok_def client_commands_def client_files_def)
qed

lemma client_tables_lookup:
  assumes "client_tables_ok w" and "lookup_client_command command (w, d) = (Inr t, (w', d'))"
  shows "client_tables_ok w'" and "d' = d"
    and "t = (case map_of client_commands command of None \<Rightarrow> C_WCZL | Some t \<Rightarrow> t)"
proof -
  have w': "w' = w\<lparr>c_commandType := snd (sm_at C_WCZL command (c_commandType w))\<rparr>"
    and t: "t = fst (sm_at C_WCZL command (c_commandType w))" and d: "d' = d"
    using assms(2) by (auto simp: lookup_client_command_def split: prod.splits)
  show "d' = d" by (rule d)
  show "client_tables_ok w'"
    using assms(1) unfolding w'
    by (fastforce simp: client_tables_ok_def sm_at_ok sm_at_find)
  show "t = (case map_of client_commands command of None \<Rightarrow> C_WCZL | Some t \<Rightarrow> t)"
  proof (cases "map_of client_commands command")
    case None
    then have "command \<notin> fst ` set client_commands" by (simp add: map_of_eq_None_iff)
    with assms(1) have "sm_find command (c_commandType w) \<in> {None, Some C_WCZL}"
      by (auto simp: client_tables_ok_def)
    with None show ?thesis by (auto simp: t sm_at_value)
  next
    case (Some u)
    then have "(command, u) \<in> set client_commands" by (rule map_of_SomeD)
    with assms(1) have "sm_find command (c_commandType w) = Some u"
      by (auto simp: client_tables_ok_def)
    with Some show ?thesis by (simp add: t sm_at_value)
  qed
qed

section \<open>Waiting\<close>

lemma wait_from_first:
  "n \<le> k \<Longrightarrow> flags k \<ge> 0 \<Longrightarrow> (\<And>i. n \<le> i \<Longrightarrow> i < k \<Longrightarrow> flags i < 0) \<Longrightarrow>
     wait_from flags n = Some (flags k)"
proof (induction "k - n" arbitrary: n)
  case 0
  then show ?case by (subst wait_from.simps) simp
next
  case (Suc m)
  then have "flags n < 0" by auto
  moreover have "wait_from flags (Suc n) = Some (flags k)" using Suc by auto
  ultimately show ?case by (subst wait_from.simps) simp
qed

lemma wait_from_returns: "wait_from flags n = Some r \<Longrightarrow> \<exists>k \<ge> n. flags k = r \<and> flags k \<ge> 0"
proof (rule wait_from.raw_induct [where P = "\<lambda>flags n r. \<exists>k \<ge> n. flags k = r \<and> flags k \<ge> 0"])
  fix f :: "(nat \<Rightarrow> int) \<Rightarrow> nat \<Rightarrow> int option" and flags :: "nat \<Rightarrow> int" and n r
  assume IH: "\<And>flags n r. f flags n = Some r \<Longrightarrow> \<exists>k \<ge> n. flags k = r \<and> flags k \<ge> 0"
    and eq: "(if flags n \<ge> 0 then Some (flags n) else f flags (Suc n)) = Some r"
  show "\<exists>k \<ge> n. flags k = r \<and> flags k \<ge> 0"
  proof (cases "flags n \<ge> 0")
    case True
    with eq show ?thesis by auto
  next
    case False
    with eq IH [of flags "Suc n" r] show ?thesis by (auto intro: Suc_leD)
  qed
qed

text \<open>The poll ends exactly when a flag that is not negative is ever found.\<close>

lemma waitCMDFinishFlag_iff:
  "(\<exists>r. waitCMDFinishFlag flags = Some r) \<longleftrightarrow> (\<exists>k. flags k \<ge> 0)"
proof
  assume "\<exists>r. waitCMDFinishFlag flags = Some r"
  then show "\<exists>k. flags k \<ge> 0" by (auto simp: waitCMDFinishFlag_def dest: wait_from_returns)
next
  assume "\<exists>k. flags k \<ge> 0"
  define k where "k = (LEAST k. flags k \<ge> 0)"
  have "flags k \<ge> 0" unfolding k_def by (rule LeastI_ex) fact
  moreover have "flags i < 0" if "i < k" for i
    using not_less_Least [of i "\<lambda>k. flags k \<ge> 0"] that by (simp add: k_def)
  ultimately have "wait_from flags 0 = Some (flags k)" by (intro wait_from_first) auto
  then show "\<exists>r. waitCMDFinishFlag flags = Some r" by (simp add: waitCMDFinishFlag_def)
qed

end
