(* ===== verification/Preserve.thy ===== *)
theory Preserve
  imports ServerWorker ClientWorker
begin

text \<open>
  Properties that no received byte can break. The locale \<open>state_handler\<close> extends the contract of
  the receive loop with a predicate on worker and world that the handlers keep; the loop then
  keeps it for every input. \<open>stable_handler\<close> is the case of a predicate on the worker alone; its
  instances are the dispatch tables and the socket of the server's and of the client's workers.
\<close>

definition worker_pred :: "('a cworker_scheme \<Rightarrow> bool) \<Rightarrow> ('a, 'd) wstate \<Rightarrow> bool" where
  "worker_pred Q s \<longleftrightarrow> Q (fst s)"

lemma keeps_option [keeps_intros]:
  "keeps P m \<Longrightarrow> (\<And>a. keeps P (f a)) \<Longrightarrow> keeps P (case x of None \<Rightarrow> m | Some a \<Rightarrow> f a)"
  by (cases x) simp_all

lemma keeps_prod [keeps_intros]: "(\<And>a b. keeps P (f a b)) \<Longrightarrow> keeps P (case x of (a, b) \<Rightarrow> f a b)"
  by (cases x) simp

lemma keeps_Let [keeps_intros]: "(\<And>a. keeps P (f a)) \<Longrightarrow> keeps P (let a = x in f a)"
  by simp

lemma keeps_with_worker [keeps_intros]: "keeps (worker_pred Q) (with_worker f)"
  by (auto simp: keeps_def worker_pred_def with_worker_apply split: prod.split)

lemma keeps_on_fs [keeps_intros]: "keeps (worker_pred Q) (on_fs f)"
  by (auto simp: keeps_def worker_pred_def on_fs_def modify_def)

lemma keeps_worker_modify:
  "(\<And>w d. Q w \<Longrightarrow> Q (f w)) \<Longrightarrow> keeps (worker_pred Q) (modify (\<lambda>(w, d). (f w, d)))"
  by (auto simp: keeps_def worker_pred_def modify_def)

locale state_handler = packet_handler H for H :: "('a, 'j, 'd) handlers" +
  fixes P :: "('a, 'd) wstate \<Rightarrow> bool"
  assumes P_data: "P (w\<lparr>m_strData := x\<rparr>, d) = P (w, d)"
    and P_content: "P (w\<lparr>m_strMsgContent := x\<rparr>, d) = P (w, d)"
    and P_flag: "P (w\<lparr>m_cmdFinishFlag := n\<rparr>, d) = P (w, d)"
    and P_fs: "P (w, d\<lparr>w_fs := fs\<rparr>) = P (w, d)"
    and keeps_command: "keeps P (excuteCommand H label content)"
    and keeps_file: "keeps P (excuteFile H label describe)"
begin

lemma keeps_files: "keeps P (on_fs f)"
  by (auto simp: keeps_def on_fs_def modify_def P_fs)

lemma keeps_msg: "keeps P (process_msg H pag)"
  unfolding process_msg_def
  by (intro keeps_intros keeps_modify keeps_command) (auto simp: P_content)

lemma keeps_write_page: "keeps P (write_page L H pag strPath js)"
  unfolding write_page_def
  by (intro keeps_intros keeps_modify keeps_files keeps_file) (auto simp: P_flag setCMDFinishFlag_def)

lemma keeps_process_package: "keeps P (process_package L H pag)"
  unfolding process_package_def process_file_def
  by (intro keeps_intros keeps_msg keeps_write_page keeps_files)

lemma Process_loop_keeps: "P (w, d) \<Longrightarrow> P (snd (Process_loop L H n (w, d)))"
proof (induction n arbitrary: w d)
  case 0
  then show ?case by simp
next
  case (Suc n)
  obtain r w' where g: "GetPackage L w = (r, w')" by fastforce
  then have q: "P (w', d)" using Suc.prems by (auto simp: GetPackage_def P_data split: prod.splits)
  have next_round: "P (snd (Process_loop L H n s))" if "process_package L H pag (w', d) = (y, s)" for pag y s
    using keepsD [OF keeps_process_package q, of L pag] Suc.IH that by (cases s) simp
  have left: "P s" if "process_package L H pag (w', d) = (y, s)" for pag y s
    using keepsD [OF keeps_process_package q, of L pag] that by simp
  show ?case
    using g q next_round left
    by (auto split: sum.split option.split prod.split step_exit.split)
qed

lemma keeps_Process: "keeps P (Process L H strData)"
proof (rule keepsI)
  fix s :: "('a, 'd) wstate"
  assume "P s"
  then show "P (snd (Process L H strData s))"
    by (cases s) (simp add: Process_apply Process_loop_keeps P_data del: Process_loop.simps)
qed

end

text \<open>The special case of a predicate on the worker alone.\<close>

locale stable_handler = packet_handler H for H :: "('a, 'j, 'd) handlers" +
  fixes Q :: "'a cworker_scheme \<Rightarrow> bool"
  assumes Q_data: "Q (w\<lparr>m_strData := x\<rparr>) = Q w"
    and Q_content: "Q (w\<lparr>m_strMsgContent := x\<rparr>) = Q w"
    and Q_flag: "Q (w\<lparr>m_cmdFinishFlag := n\<rparr>) = Q w"
    and keeps_worker_command: "keeps (worker_pred Q) (excuteCommand H label content)"
    and keeps_worker_file: "keeps (worker_pred Q) (excuteFile H label describe)"

sublocale stable_handler \<subseteq> state_handler H "worker_pred Q"
  by unfold_locales
    (simp_all add: worker_pred_def Q_data Q_content Q_flag keeps_worker_command keeps_worker_file)

context stable_handler begin

lemma Process_keeps:
  assumes "Q w" and "Process L H strData (w, d) = (r, (w', d'))"
  shows "Q w'"
  using keepsD [OF keeps_Process, of "(w, d)" L strData] assms by (simp add: worker_pred_def)

end

section \<open>The server's workers\<close>

text \<open>The tables, and the socket the worker answers on.\<close>

definition server_worker_ok :: "int option \<Rightarrow> server_worker \<Rightarrow> bool" where
  "server_worker_ok bev w \<longleftrightarrow> server_tables_ok w \<and> m_bev w = bev"

lemma server_worker_ok_fields [simp]:
  "server_worker_ok bev (w\<lparr>m_strData := x\<rparr>) = server_worker_ok bev w"
  "server_worker_ok bev (w\<lparr>m_strMsgContent := x\<rparr>) = server_worker_ok bev w"
  "server_worker_ok bev (w\<lparr>m_cmdFinishFlag := n\<rparr>) = server_worker_ok bev w"
  by (simp_all add: server_worker_ok_def server_tables_ok_def)

lemma keeps_lookup_server_command:
  "keeps (worker_pred (server_worker_ok bev)) (lookup_server_command command)"
proof (rule keepsI)
  fix s :: "'d sstate"
  assume Q: "worker_pred (server_worker_ok bev) s"
  obtain w d where s: "s = (w, d)" by (cases s)
  obtain t w' d' where l: "lookup_server_command command (w, d) = (Inr t, (w', d'))"
    by (cases "sm_at S_WCZL command (s_commandType w)") (auto simp: lookup_server_command_def)
  have "server_tables_ok w'"
    using server_tables_lookup(1) [OF _ l] Q s by (simp add: worker_pred_def server_worker_ok_def)
  moreover have "m_bev w' = m_bev w"
    using l by (auto simp: lookup_server_command_def split: prod.splits)
  ultimately show "worker_pred (server_worker_ok bev) (snd (lookup_server_command command s))"
    using Q s l by (simp add: worker_pred_def server_worker_ok_def)
qed

lemma server_tables_file:
  "server_tables_ok w \<Longrightarrow>
   server_tables_ok (w\<lparr>s_fileType := snd (sm_at SF_CXWJ command (s_fileType w))\<rparr>)"
  by (fastforce simp: server_tables_ok_def sm_at_ok sm_at_find)

lemma keeps_lookup_server_file:
  "keeps (worker_pred (server_worker_ok bev)) (lookup_server_file command)"
proof (rule keepsI)
  fix s :: "'d sstate"
  assume Q: "worker_pred (server_worker_ok bev) s"
  obtain w d where s: "s = (w, d)" by (cases s)
  have "snd (lookup_server_file command s) =
      (w\<lparr>s_fileType := snd (sm_at SF_CXWJ command (s_fileType w))\<rparr>, d)"
    unfolding s lookup_server_file_def by (simp split: prod.split)
  then show "worker_pred (server_worker_ok bev) (snd (lookup_server_file command s))"
    using Q s server_tables_file by (simp add: worker_pred_def server_worker_ok_def)
qed

interpretation srv_stable: stable_handler "server_handlers L" "server_worker_ok bev"
  for L :: "('j, 'd) libs" and bev :: "int option"
proof unfold_locales
  show "keeps (worker_pred (server_worker_ok bev)) (excuteCommand (server_handlers L) label content)"
    for label content
    unfolding server_handlers_def server_excuteCommand_def handlers.select_convs
      server_CommanWCZL_def server_CommanMSQL_def server_CommanXZWJ_def server_CommanWJLB_def
      server_CommanSBBH_def server_CommanTEST_def send_done_def
    by (rule keeps_andThen [OF keeps_lookup_server_command])
       (auto intro!: keeps_intros keeps_worker_modify simp: setCMDFinishFlag_def
         split: server_command_type.split)
  show "keeps (worker_pred (server_worker_ok bev)) (excuteFile (server_handlers L) label describe)"
    for label describe
    unfolding server_handlers_def server_excuteFile_def handlers.select_convs server_CommanCXWJ_def
    by (rule keeps_andThen [OF keeps_lookup_server_file])
       (auto intro!: keeps_intros split: server_file_type.split)
qed simp_all

section \<open>The client's worker\<close>

definition client_worker_ok :: "int option \<Rightarrow> client_worker \<Rightarrow> bool" where
  "client_worker_ok bev w \<longleftrightarrow> client_tables_ok w \<and> m_bev w = bev"

lemma client_worker_ok_fields [simp]:
  "client_worker_ok bev (w\<lparr>m_strData := x\<rparr>) = client_worker_ok bev w"
  "client_worker_ok bev (w\<lparr>m_strMsgContent := x\<rparr>) = client_worker_ok bev w"
  "client_worker_ok bev (w\<lparr>m_cmdFinishFlag := n\<rparr>) = client_worker_ok bev w"
  "client_worker_ok bev (w\<lparr>c_strFileList := x\<rparr>) = client_worker_ok bev w"
  "client_worker_ok bev (w\<lparr>c_strDeviceNum := x\<rparr>) = client_worker_ok bev w"
  "client_worker_ok bev (w\<lparr>c_strClass := x\<rparr>) = client_worker_ok bev w"
  "client_worker_ok bev (w\<lparr>c_strCourse := x\<rparr>) = client_worker_ok bev w"
  "client_worker_ok bev (w\<lparr>c_strClassInfo := x\<rparr>) = client_worker_ok bev w"
  by (simp_all add: client_worker_ok_def client_tables_ok_def)

lemma keeps_on_client [keeps_intros]:
  "(\<And>w. Q w \<Longrightarrow> Q (f w)) \<Longrightarrow> keeps (worker_pred Q) (on_client f)"
  unfolding on_client_def by (rule keeps_worker_modify)

lemma keeps_copy_file [keeps_intros]: "keeps (worker_pred Q) (copy_file L a b)"
  by (auto simp: keeps_def worker_pred_def copy_file_def modify_def)

lemma keeps_lookup_client_command:
  "keeps (worker_pred (client_worker_ok bev)) (lookup_client_command command)"
proof (rule keepsI)
  fix s :: "'d cstate"
  assume Q: "worker_pred (client_worker_ok bev) s"
  obtain w d where s: "s = (w, d)" by (cases s)
  obtain t w' d' where l: "lookup_client_command command (w, d) = (Inr t, (w', d'))"
    by (cases "sm_at C_WCZL command (c_commandType w)") (auto simp: lookup_client_command_def)
  have "client_tables_ok w'"
    using client_tables_lookup(1) [OF _ l] Q s by (simp add: worker_pred_def client_worker_ok_def)
  moreover have "m_bev w' = m_bev w"
    using l by (auto simp: lookup_client_command_def split: prod.splits)
  ultimately show "worker_pred (client_worker_ok bev) (snd (lookup_client_command command s))"
    using Q s l by (simp add: worker_pred_def client_worker_ok_def)
qed

lemma client_tables_file:
  "client_tables_ok w \<Longrightarrow>
   client_tables_ok (w\<lparr>c_fileType := snd (sm_at CF_CXWJ command (c_fileType w))\<rparr>)"
  by (fastforce simp: client_tables_ok_def sm_at_ok sm_at_find)

lemma keeps_lookup_client_file:
  "keeps (worker_pred (client_worker_ok bev)) (lookup_client_file command)"
proof (rule keepsI)
  fix s :: "'d cstate"
  assume Q: "worker_pred (client_worker_ok bev) s"
  obtain w d where s: "s = (w, d)" by (cases s)
  have "snd (lookup_client_file command s) =
      (w\<lparr>c_fileType := snd (sm_at CF_CXWJ command (c_fileType w))\<rparr>, d)"
    unfolding s lookup_client_file_def by (simp split: prod.split)
  then show "worker_pred (client_worker_ok bev) (snd (lookup_client_file command s))"
    using Q s client_tables_file by (simp add: worker_pred_def client_worker_ok_def)
qed

interpretation cli_stable: stable_handler "client_handlers L" "client_worker_ok bev"
  for L :: "('j, 'd) libs" and bev :: "int option"
proof unfold_locales
  show "keeps (worker_pred (client_worker_ok bev)) (excuteCommand (client_handlers L) label content)"
    for label content
    unfolding client_handlers_def client_excuteCommand_def handlers.select_convs
      client_CommanWCZL_def client_CommanMSQL_def client_CommanWJLB_def client_CommanSBBH_def
      client_CommanSKBJ_def
    by (rule keeps_andThen [OF keeps_lookup_client_command])
       (auto intro!: keeps_intros simp: setCMDFinishFlag_def split: client_command_type.split)
  show "keeps (worker_pred (client_worker_ok bev)) (excuteFile (client_handlers L) label describe)"
    for label describe
    unfolding client_handlers_def client_excuteFile_def handlers.select_convs client_CommanCXWJ_def
    by (rule keeps_andThen [OF keeps_lookup_client_file])
       (auto intro!: keeps_intros simp: setCMDFinishFlag_def split: client_file_type.split)
qed simp_all

end
