(* ===== verification/WireProps.thy ===== *)
theory WireProps
  imports DemoLibs Preserve
begin

text \<open>
  Properties of the wire protocol: packages, messages and files from the sending methods of
  \<open>CWorker\<close> through the receive loop of the other side.
\<close>

section \<open>Samples for the witnesses\<close>

text \<open>A worker of the server on socket 7, and a file page for the environment \<open>page_libs\<close>.\<close>

definition sample_worker :: server_worker where
  "sample_worker = SetBev (Some 7) CServerWorker_new"

definition sample_client :: cworker where
  "sample_client = SetBev (Some 5) CWorker_new"

abbreviation sample_world :: "demo_db world" where
  "sample_world \<equiv> demo_world Map.empty"

lemma sample_worker_fields [simp]:
  "m_strData sample_worker = []" "m_strMsgContent sample_worker = []" "m_bev sample_worker = Some 7"
  by (simp_all add: sample_worker_def SetBev_def CServerWorker_new_def cworker.defs CWorker_new_def)

lemma sample_client_bev [simp]: "m_bev sample_client = Some 5"
  by (simp add: sample_client_def SetBev_def)

text \<open>The command \<open>XZWJ\<close> with a text that is no JSON does nothing.\<close>

lemma sample_lookup:
  "sm_at S_WCZL ''XZWJ'' (s_commandType (sample_worker\<lparr>m_strMsgContent := c\<rparr>)) =
     (S_XZWJ, s_commandType sample_worker)"
proof -
  have "sm_at S_WCZL ''XZWJ'' (s_commandType sample_worker) = (S_XZWJ, s_commandType sample_worker)"
    by code_simp
  then show ?thesis by simp
qed

lemma sample_command:
  "server_excuteCommand (server_demo []) ''XZWJ'' s (sample_worker\<lparr>m_strMsgContent := c\<rparr>, d) =
     (Inr (), (sample_worker\<lparr>m_strMsgContent := c\<rparr>, d))"
  using sample_lookup [of c]
  by (simp add: server_excuteCommand_def prog_simps lookup_server_command_def server_CommanXZWJ_def
      StringToJson_def demo_libs_def demo_json_def)

definition sample_describe :: jval where
  "sample_describe =
     JObj [(FILE_CLASS, JStr ''c1''), (FILE_COURES, JStr ''k''), (FILE_STUDENT, JStr ''zhang''),
       (FILE_TYPE, JInt 1), (FILE_PATH, JStr ''/f''), (FILE_NAME, JStr ''f'')]"

abbreviation sample_request :: jval where
  "sample_request \<equiv> demo_request sample_describe"

abbreviation sample_page :: jval where
  "sample_page \<equiv> demo_page sample_describe"

definition page_libs :: "(jval, demo_db) libs" where
  "page_libs = server_demo [sample_page, sample_request]"

lemma page_libs_json [simp]: "json page_libs = demo_json [sample_page, sample_request]"
  by (simp add: page_libs_def demo_libs_def)

lemma sample_page_content:
  "str_find PAGTAIL (demo_text sample_page) = None" "length (demo_text sample_page) < 500"
  by code_simp+

lemmas sample_pages_wf = demo_pages_wire(1) [OF page_libs_json sample_page_content]
lemmas sample_pages_length = demo_pages_wire(2) [OF page_libs_json sample_page_content]
lemmas sample_parse = demo_request_parse [OF page_libs_json]
lemmas sample_roundtrips = demo_page_roundtrips [OF page_libs_json]

lemma sample_name: "describes_name page_libs sample_describe ''k_zhang.abb''"
proof (rule describes_server_name)
  show "SERVER page_libs" by (simp add: page_libs_def demo_libs_def)
  show "member_str (json page_libs) sample_describe FILE_COURES ''k''"
    "member_str (json page_libs) sample_describe FILE_STUDENT ''zhang''"
    "member_int (json page_libs) sample_describe FILE_TYPE 1"
    by (simp_all add: member_str_def member_int_def demo_json_def sample_describe_def json_keys)
qed (simp add: GetExtension_def EXT_ABB_def)

lemma sample_files: "files_at page_libs p"
  by (simp add: files_at_def page_libs_def demo_libs_def)

text \<open>What a client that sends the sample file reads.\<close>

lemma sample_path: "json_str2 (json page_libs) sample_request FILE_DESCRIBE FILE_PATH = Some (sample_request, ''/f'')"
  by (simp add: json_str2_def json_at2_def demo_json_def demo_request_def sample_describe_def json_keys)

lemma sample_describes: "js_index (json page_libs) sample_request FILE_DESCRIBE = Some (sample_request, sample_describe)"
  by (simp add: demo_request_describes)

lemma sample_contents: "w_fs (demo_world [''/f'' \<mapsto> ''abc'']) (c_str ''/f'') = Some ''abc''"
  by (simp add: demo_world_def c_str_def NUL_def)

lemma sample_class: "member_str (json page_libs) sample_describe FILE_CLASS ''c1''"
  by (simp add: member_str_def demo_json_def sample_describe_def)

lemma sample_objects: "json_objects (json page_libs) is_JObj" "is_JObj sample_describe"
  by (simp_all add: demo_json_objects sample_describe_def)

section \<open>Packages\<close>

text \<open>C1: what \<open>GetPackage\<close> reads of a package that \<open>send_package\<close> wrote with a
  label of four bytes and numbers that are \<open>int\<close>s, whatever bytes without a package
  head stand before it (those of heartbeats and of the connection test, for example) and whatever
  follows: the package, unchanged, with what follows left in the buffer, when its content does not
  hold the tail marker TCPTAIL. Since \<open>send_package\<close> escapes nothing, a content that
  holds the marker is cut at the first one, and the rest of the content stays in the buffer.\<close>

theorem package_roundtrip:
  assumes "wf_package (p\<lparr>pag_content := []\<rparr>)" and "no_head n"
    and "length (n @ package_string p @ rest) < 2147483648"
  shows "GetPackage_data junk (n @ package_string p @ rest) =
    (case str_find PAGTAIL (pag_content p) of
       None \<Rightarrow> (Inr (Some p), rest)
     | Some i \<Rightarrow> (Inr (Some (p\<lparr>pag_content := take i (pag_content p)\<rparr>)),
         drop (i + 7) (pag_content p) @ PAGTAIL @ rest))"
  by (rule GetPackage_written [OF assms])

definition sample_package :: PagTCP where
  "sample_package = \<lparr>pag_label = ''MSQL'', pag_src = TCPSOURCE_SERVER, pag_type = TCPPACKAGE_MSG,
     pag_num = 1, pag_allnum = 1, pag_content = ''xx''\<rparr>"

theorem package_roundtrip_witness:
  "GetPackage_data (\<lambda>_. 0) (''testh'' @ package_string sample_package @ ''h'') =
     (Inr (Some sample_package), ''h'') \<and>
   GetPackage_data (\<lambda>_. 0) (package_string (sample_package\<lparr>pag_content := ''yTCPTAILz''\<rparr>) @ ''h'') =
     (Inr (Some (sample_package\<lparr>pag_content := ''y''\<rparr>)), ''zTCPTAILh'')"
proof
  show "GetPackage_data (\<lambda>_. 0) (''testh'' @ package_string sample_package @ ''h'') =
     (Inr (Some sample_package), ''h'')"
    by (subst package_roundtrip) (simp_all add: sample_package_def wire_eval)
  show "GetPackage_data (\<lambda>_. 0) (package_string (sample_package\<lparr>pag_content := ''yTCPTAILz''\<rparr>) @ ''h'') =
     (Inr (Some (sample_package\<lparr>pag_content := ''y''\<rparr>)), ''zTCPTAILh'')"
    by (subst package_roundtrip [where n = "[]", simplified append_Nil]) (simp_all add: sample_package_def wire_eval)
qed

text \<open>C14: the receive loop of a server worker, which works on a buffer of bytes with find, substr and
  string conversions, refines the delivery of packages one after the other: on the bytes of any
  well-formed packages, followed by bytes without a package head, it does exactly what delivering the
  packages does and keeps the rest.\<close>

theorem loop_refines_delivery:
  assumes "m_strData w = []" and "\<forall>p \<in> set ps. wf_package p" and "no_head n"
    and "length (concat (map package_string ps) @ n) < 2147483648"
    and "deliver L (server_handlers L) ps (w, d) = (Inr Continue, (w', d'))"
  shows "Process L (server_handlers L) (concat (map package_string ps) @ n) (w, d) =
    (Inr Drained, (w'\<lparr>m_strData := n\<rparr>, d'))"
  by (rule srv.Process_packages [OF assms])

theorem loop_refines_delivery_witness:
  "Process (server_demo []) (server_handlers (server_demo []))
     (concat (map package_string [first_page ''XZWJ'' ''?'']) @ ''h'') (sample_worker, sample_world) =
   (Inr Drained, (sample_worker\<lparr>m_strMsgContent := ''?'', m_strMsgContent := [], m_strData := ''h''\<rparr>, sample_world))"
proof (rule loop_refines_delivery)
  show "\<forall>p \<in> set [first_page ''XZWJ'' ''?'']. wf_package p"
    using wf_first_page [of "''XZWJ''" "''?''"] by (simp add: PAGTAIL_def)
  show "length (concat (map package_string [first_page ''XZWJ'' ''?'']) @ ''h'') < 2147483648"
    by (simp add: first_page_def msg_page_def page_text_def page_count_nat [of 1, simplified]
        package_string_def package_body_def num_to_string_def nat_digits.simps wire_consts)
  have "msg_pages ''XZWJ'' ''?'' = [first_page ''XZWJ'' ''?'']" by (rule msg_pages_short) simp
  then show "deliver (server_demo []) (server_handlers (server_demo [])) [first_page ''XZWJ'' ''?'']
      (sample_worker, sample_world) =
    (Inr Continue, (sample_worker\<lparr>m_strMsgContent := ''?'', m_strMsgContent := []\<rparr>, sample_world))"
    using deliver_msg_pages [of "server_demo []" "server_handlers (server_demo [])" "''XZWJ''" "''?''" sample_worker sample_world]
      sample_command [of "''?''" "''?''"]
    by (simp add: server_handlers_def)
qed (simp_all add: no_head_def wire_eval)

text \<open>C2: however the bytes of a stream are cut into reads, a server worker that gets through all of
  them ends in the state it reaches on the whole stream at once.\<close>

theorem server_reads_any_cut:
  assumes "cs \<noteq> []" and "length (m_strData w @ concat cs) < 2147483648"
    and "feed L (server_handlers L) cs (w, d) = (Inr Drained, st)"
  shows "Process L (server_handlers L) (concat cs) (w, d) = (Inr Drained, st)"
  by (rule srv.feed_Process [OF assms])

theorem server_reads_any_cut_witness:
  "Process (server_demo []) (server_handlers (server_demo [])) ''TCPHEAD'' (sample_worker, sample_world) =
     (Inr Drained, (sample_worker\<lparr>m_strData := ''TCPHEAD''\<rparr>, sample_world))"
proof -
  have "feed (server_demo []) (server_handlers (server_demo [])) [''TCP'', ''HEAD''] (sample_worker, sample_world) =
      (Inr Drained, (sample_worker\<lparr>m_strData := ''TCPHEAD''\<rparr>, sample_world))"
    by (simp add: prog_simps Process_def GetPackage_def GetPackage_data_def cut_package_def wire_consts
        pos_int_def c_int_def npos_def size_of_def cpp_substr_from_def Let_def)
  from server_reads_any_cut [OF _ _ this] show ?thesis by simp
qed

text \<open>C27: the receive loop of a server worker ends on every input: it consumes at least fourteen bytes
  per round, so the fuel of one round per byte never runs out.\<close>

theorem server_Process_ends:
  assumes "length (m_strData w @ s) < 2147483648"
  shows "fst (Process L (server_handlers L) s (w, d)) \<noteq> Inl Out_of_fuel"
  by (rule srv.Process_terminates [OF assms])

theorem server_Process_ends_witness:
  "fst (Process (server_demo []) (server_handlers (server_demo [])) ''TCPHEADxTCPTAIL'' (sample_worker, sample_world))
     \<noteq> Inl Out_of_fuel"
  by (rule server_Process_ends) simp

text \<open>The same for the client.\<close>

lemma client_Process_ends:
  assumes "length (m_strData w @ s) < 2147483648"
  shows "fst (Process L (client_handlers L) s (w, d)) \<noteq> Inl Out_of_fuel"
  by (rule cli.Process_terminates [OF assms])

text \<open>C36: a package whose body has fewer than the four bytes of a label ends the server's receive loop
  with \<open>std::out_of_range\<close>, which nothing catches.\<close>

theorem short_body_throws:
  assumes "m_strData w = []" and "length body < 4" and "str_find PAGTAIL body = None"
    and "length rest < 1073741824"
  shows "fst (Process L (server_handlers L) (PAGHEAD @ body @ PAGTAIL @ rest) (w, d)) = Inl Out_of_range"
  by (rule srv.receive_malformed [OF assms])

theorem short_body_throws_witness:
  "fst (Process (server_demo []) (server_handlers (server_demo [])) (PAGHEAD @ ''ab'' @ PAGTAIL @ [])
      (sample_worker, sample_world)) = Inl Out_of_range"
  by (rule short_body_throws) (simp_all add: PAGTAIL_def)

text \<open>And this is the only way the parsing of a body fails: it succeeds on every body of four bytes
  or more, whether or not the separators are there.\<close>

lemma body_parses_iff:
  assumes "length s < 2147483648"
  shows "(\<exists>p. parse_fields junk s = Inr p) = (4 \<le> length s)"
  by (rule parse_fields_throws_iff(1) [OF assms])

section \<open>Messages\<close>

text \<open>C13: a message below the page size that does not hold the marker TCPTAIL, sent under a label of four
  bytes by a worker whose socket takes all bytes, makes the server's worker, if it has no unread
  bytes, run the command of the label exactly once, on the message after what was pending in
  \<open>m_strMsgContent\<close> (on exactly the message when nothing was, but on the first page of
  an earlier long message too); when the command returns, nothing is pending.\<close>

theorem short_message_runs_once:
  assumes "sends_all Lc" and "m_bev cw = Some fd" and "length label = 4" and "length s < 1024"
    and "str_find PAGTAIL s = None" and "m_strData w = []"
    and "server_excuteCommand L label (m_strMsgContent w @ s)
           (w\<lparr>m_strMsgContent := m_strMsgContent w @ s\<rparr>, d) = (Inr (), (w', d'))"
  shows "\<exists>cd'. SendMsgTo Lc cw label s cd = (Inr (-1), cd') \<and>
    Process L (server_handlers L) (wire fd (drop (length (w_sends cd)) (w_sends cd'))) (w, d) =
      (Inr Drained, (w'\<lparr>m_strMsgContent := [], m_strData := []\<rparr>, d'))"
proof -
  obtain cd' where "SendMsgTo Lc cw label s cd = (Inr (-1), cd')"
    and "wire fd (drop (length (w_sends cd)) (w_sends cd')) = package_string (first_page label s)"
    using SendMsgTo_wire [OF assms(1,2) _ first_page_short_length [OF assms(4,3)], of cd] assms(4)
    by auto
  then show ?thesis
    using srv.receive_short [OF assms(3-6), of L d w' d'] assms(7) by (simp add: server_handlers_def)
qed

theorem short_message_runs_once_witness:
  "\<exists>cd'. SendMsgTo (client_demo []) sample_client ''XZWJ'' ''?'' sample_world = (Inr (-1), cd') \<and>
    Process (server_demo []) (server_handlers (server_demo []))
      (wire 5 (drop (length (w_sends sample_world)) (w_sends cd'))) (sample_worker, sample_world) =
      (Inr Drained, (sample_worker\<lparr>m_strMsgContent := m_strMsgContent sample_worker @ ''?'', m_strMsgContent := [],
         m_strData := []\<rparr>, sample_world))"
  by (rule short_message_runs_once [OF _ _ _ _ _ _ sample_command])
     (simp_all add: PAGTAIL_def)

text \<open>C24: a message of the page size or more that does not hold the marker TCPTAIL, under a label of four
  bytes, is lost even when the socket takes everything: \<open>SendMsgTo\<close> sends its first
  page and stops, and the server's worker runs no command; the first 1024 bytes stay pending.\<close>

theorem long_message_is_stuck:
  assumes "sends_all Lc" and "m_bev cw = Some fd" and "length label = 4" and "1024 \<le> length s"
    and "length s < 2147483648" and "length (package_string (first_page label s)) < 2147483648"
    and "str_find PAGTAIL s = None" and "m_strData w = []"
  shows "\<exists>cd'. SendMsgTo Lc cw label s cd = (Inr (-1), cd') \<and>
    Process L (server_handlers L) (wire fd (drop (length (w_sends cd)) (w_sends cd'))) (w, d) =
      (Inr Drained, (w\<lparr>m_strMsgContent := m_strMsgContent w @ take 1024 s, m_strData := []\<rparr>, d))"
proof -
  obtain cd' where "SendMsgTo Lc cw label s cd = (Inr (-1), cd')"
    and "wire fd (drop (length (w_sends cd)) (w_sends cd')) = package_string (first_page label s)"
    using SendMsgTo_wire [OF assms(1,2,5,6), of cd] by auto
  then show ?thesis using srv.receive_first_page [OF assms(3-5,7,8,6)] by simp
qed

theorem long_message_is_stuck_witness:
  "\<exists>cd'. SendMsgTo (client_demo []) sample_client ''MSQL'' (replicate 1024 (CHR ''a'')) sample_world = (Inr (-1), cd') \<and>
    Process (server_demo []) (server_handlers (server_demo []))
      (wire 5 (drop (length (w_sends sample_world)) (w_sends cd'))) (sample_worker, sample_world) =
      (Inr Drained, (sample_worker\<lparr>m_strMsgContent := m_strMsgContent sample_worker @ take 1024 (replicate 1024 (CHR ''a'')),
         m_strData := []\<rparr>, sample_world))"
proof (rule long_message_is_stuck)
  show "length (package_string (first_page ''MSQL'' (replicate 1024 (CHR ''a'')))) < 2147483648"
    by (simp add: first_page_def msg_page_def page_text_def page_count_nat [of 1024, simplified]
        package_string_def package_body_def num_to_string_def nat_digits.simps wire_consts)
  show "str_find PAGTAIL (replicate 1024 (CHR ''a'')) = None"
    by (rule str_find_disjoint) (simp_all add: PAGTAIL_def)
qed simp_all

text \<open>\<open>SendMsgTo\<close> makes exactly one \<open>send\<close> call, for the first page, and answers \<open>-1\<close>, whatever the
  socket answers: \<open>send_package\<close> reports success as \<open>0\<close>, which its caller takes for failure.\<close>

lemma SendMsgTo_one_page:
  assumes "length s < 2147483648" and "m_bev w = Some fd"
  shows "\<exists>r. SendMsgTo L w label s d =
    (Inr (-1), d\<lparr>w_sends := w_sends d @ [(fd, package_string (first_page label s), r)]\<rparr>)"
  by (rule SendMsgTo_gives_up [OF assms])

text \<open>C26: the receiving side of paging is right: if all pages of a message that does not hold the marker
  TCPTAIL did arrive, under a label of four bytes, the server's worker, with no unread bytes, would
  run the command once on the whole text after what was pending.\<close>

theorem all_pages_run_once:
  assumes "length label = 4" and "length s < 2147483648" and "str_find PAGTAIL s = None"
    and "length (concat (map package_string (msg_pages label s))) < 2147483648"
    and "m_strData w = []"
    and "server_excuteCommand L label (m_strMsgContent w @ s)
           (w\<lparr>m_strMsgContent := m_strMsgContent w @ s\<rparr>, d) = (Inr (), (w', d'))"
  shows "Process L (server_handlers L) (concat (map package_string (msg_pages label s))) (w, d) =
    (Inr Drained, (w'\<lparr>m_strMsgContent := [], m_strData := []\<rparr>, d'))"
  using srv.receive_all_pages [OF assms(1-5), of L d w' d'] assms(6) by (simp add: server_handlers_def)

theorem all_pages_run_once_witness:
  "Process (server_demo []) (server_handlers (server_demo []))
     (concat (map package_string (msg_pages ''XZWJ'' ''?''))) (sample_worker, sample_world) =
    (Inr Drained, (sample_worker\<lparr>m_strMsgContent := ''?'', m_strMsgContent := [], m_strData := []\<rparr>, sample_world))"
proof (rule all_pages_run_once)
  show "length (concat (map package_string (msg_pages ''XZWJ'' ''?''))) < 2147483648"
    using first_page_short_length [of "''?''" "''XZWJ''"] by (simp add: msg_pages_short)
  show "server_excuteCommand (server_demo []) ''XZWJ'' (m_strMsgContent sample_worker @ ''?'')
      (sample_worker\<lparr>m_strMsgContent := m_strMsgContent sample_worker @ ''?''\<rparr>, sample_world) =
    (Inr (), (sample_worker\<lparr>m_strMsgContent := ''?''\<rparr>, sample_world))"
    using sample_command [of "''?''" "''?''"] by simp
qed (simp_all add: PAGTAIL_def)

section \<open>Files\<close>

text \<open>\<open>SendFileTo\<close> hands all pages of a file without zero bytes to a socket that takes everything,
  in order, each with the description of the file.\<close>

lemma SendFileTo_sends_all_pages:
  assumes "sends_all L" and "m_bev w = Some fd" and "length c < 2147483648" and "NUL \<notin> set c"
    and "StringToJson L strMsg = Some js0"
    and "json_str2 (json L) js0 FILE_DESCRIBE FILE_PATH = Some (js1, filePath)"
    and "w_fs d (c_str filePath) = Some c"
    and "js_index (json L) js1 FILE_DESCRIBE = Some (js2, describe)"
    and "\<forall>i \<le> length c div 1024. page_json L describe (page_text c i) \<noteq> None"
    and "\<forall>i \<le> length c div 1024.
      length (package_string (file_page_of L label describe c i)) < 2147483648"
  shows "SendFileTo L w label strMsg d =
    (Inr (), d\<lparr>w_sends := w_sends d @ map (sent fd) (file_pages L label describe c)\<rparr>)"
  using assms(9,10) by (intro SendFileTo_all [OF assms(1-8)]) blast+

text \<open>C25: a file with a zero byte never arrives whole: the pages are cut from the bytes before the first
  one, and as soon as a page would start behind it \<open>substr\<close> throws an exception that
  nothing catches; if no page does, the last page just ends early.\<close>

theorem zero_byte_stops_file:
  assumes "sends_all L" and "m_bev w = Some fd"
    and "c = a @ NUL # b" and "NUL \<notin> set a" and "length c < 2147483648"
    and "StringToJson L strMsg = Some js0"
    and "json_str2 (json L) js0 FILE_DESCRIBE FILE_PATH = Some (js1, filePath)"
    and "w_fs d (c_str filePath) = Some c"
    and "js_index (json L) js1 FILE_DESCRIBE = Some (js2, describe)"
    and "\<forall>t. page_json L describe t \<noteq> None"
    and "\<forall>i. i * 1024 \<le> length a \<longrightarrow>
      length (package_string (cut_page L label describe a (length c) i)) < 2147483648"
  shows "SendFileTo L w label strMsg d =
    (if length a div 1024 < length c div 1024 then Inl Out_of_range else Inr (),
     d\<lparr>w_sends := w_sends d @ map (\<lambda>i. sent fd (cut_page L label describe a (length c) i))
       [0..<Suc (length a div 1024)]\<rparr>)"
  using assms(10,11) by (intro SendFileTo_zero_byte [OF assms(1-9)]) blast+

definition binary_file :: string where
  "binary_file = ''ab'' @ NUL # replicate 1100 (CHR ''x'')"

lemma binary_pages:
  assumes "i * 1024 \<le> length ''ab''"
  shows "length (package_string (cut_page page_libs ''CXWJ'' sample_describe ''ab'' (length binary_file) i)) < 2147483648"
proof -
  have i: "i = 0" using assms by simp
  have cut: "cut_text ''ab'' 1103 0 = ''ab''" by (simp add: cut_text_def)
  have "length (demo_text (JObj [(FILE_DESCRIBE, sample_describe), (FILE_CONTENT, JStr ''ab'')])) < 500"
    by code_simp
  then show ?thesis
    by (simp add: i cut cut_page_def page_json_def demo_json_def json_keys file_page_def binary_file_def
        page_count_nat [of 1103, simplified] package_string_def package_body_def num_to_string_def nat_digits.simps wire_consts)
qed

theorem zero_byte_stops_file_witness:
  "\<exists>d'. SendFileTo page_libs sample_client ''CXWJ'' (demo_text sample_request) (demo_world [''/f'' \<mapsto> binary_file]) =
     (Inl Out_of_range, d')"
proof -
  have "SendFileTo page_libs sample_client ''CXWJ'' (demo_text sample_request) (demo_world [''/f'' \<mapsto> binary_file]) =
    (if length ''ab'' div 1024 < length binary_file div 1024 then Inl Out_of_range else Inr (),
     (demo_world [''/f'' \<mapsto> binary_file])\<lparr>w_sends := w_sends (demo_world [''/f'' \<mapsto> binary_file]) @
       map (\<lambda>i. sent 5 (cut_page page_libs ''CXWJ'' sample_describe ''ab'' (length binary_file) i))
         [0..<Suc (length ''ab'' div 1024)]\<rparr>)"
  proof (rule zero_byte_stops_file [OF _ _ _ _ _ sample_parse sample_path _ sample_describes])
    show "w_fs (demo_world [''/f'' \<mapsto> binary_file]) (c_str ''/f'') = Some binary_file"
      by (simp add: demo_world_def c_str_def NUL_def)
    show "\<forall>t. page_json page_libs sample_describe t \<noteq> None"
      by (simp add: page_json_def demo_json_def json_keys)
    show "\<forall>i. i * 1024 \<le> length ''ab'' \<longrightarrow>
        length (package_string (cut_page page_libs ''CXWJ'' sample_describe ''ab'' (length binary_file) i)) < 2147483648"
      using binary_pages by blast
  qed (simp_all add: page_libs_def NUL_def binary_file_def)
  then show ?thesis by (simp add: binary_file_def)
qed

text \<open>C12: a server worker with no unread bytes that receives all pages of a file, sent under a label of
  four bytes, of sizes below 2 to the 31, none of which holds the marker TCPTAIL in its JSON text
  and each of which the parser reads back, writes a file under the upload directory with exactly the
  sent content, replacing an older one, has until then sent nothing and left the database alone, and
  runs the file's command on the description with the stored path.\<close>

theorem server_stores_file:
  assumes "json_objects (json L) is_obj" and "is_obj describe"
    and "member_str (json L) describe FILE_CLASS cls" and "describes_name L describe name"
    and "files_at L (c_str (upload_path L cls name))"
    and "\<forall>i \<le> length c div 1024. page_roundtrip L describe (page_text c i)"
    and "\<forall>p \<in> set (file_pages L label describe c). wf_package p"
    and "length (concat (map package_string (file_pages L label describe c))) < 2147483648"
    and "m_strData w = []"
  shows "\<exists>describe' dd'.
    js_put (json L) describe FILE_PATH (js_of_string (json L) (upload_path L cls name)) = Some describe' \<and>
    w_fs dd' (c_str (upload_path L cls name)) = Some c \<and> same_elsewhere dd dd' \<and>
    (\<forall>w' d'. server_excuteFile L label describe' (w, dd') = (Inr (), (w', d')) \<longrightarrow>
       Process L (server_handlers L) (concat (map package_string (file_pages L label describe c))) (w, dd) =
         (Inr Drained, (w'\<lparr>m_strData := []\<rparr>, d')))"
  using srv.receive_file [OF assms(1-9), of dd] by (simp add: server_handlers_def)

theorem server_stores_file_witness:
  "\<exists>describe' dd'.
    js_put (json page_libs) sample_describe FILE_PATH
      (js_of_string (json page_libs) (upload_path page_libs ''c1'' ''k_zhang.abb'')) = Some describe' \<and>
    w_fs dd' (c_str (upload_path page_libs ''c1'' ''k_zhang.abb'')) = Some ''abc'' \<and>
    same_elsewhere sample_world dd' \<and>
    (\<forall>w' d'. server_excuteFile page_libs ''CXWJ'' describe' (sample_worker, dd') = (Inr (), (w', d')) \<longrightarrow>
       Process page_libs (server_handlers page_libs)
         (concat (map package_string (file_pages page_libs ''CXWJ'' sample_describe ''abc'')))
         (sample_worker, sample_world) = (Inr Drained, (w'\<lparr>m_strData := []\<rparr>, d')))"
  by (rule server_stores_file [OF sample_objects sample_class sample_name sample_files sample_roundtrips sample_pages_wf])
     (simp_all add: sample_pages_length)

section \<open>Numbers and pages\<close>

text \<open>Every \<open>int\<close> survives being written into a header field and read back.\<close>

lemma number_roundtrip:
  assumes "-2147483648 \<le> n" and "n \<le> 2147483647"
  shows "string_to_int junk (num_to_string n) = n"
  by (rule string_to_int_num_to_string [OF assms])

text \<open>The pages of a text put together are the text, and each is the substring the sending loop
  takes, of at most the page size.\<close>

lemma pages_cover_text:
  assumes "length s < 2147483648"
  shows "concat (map (page_text s) [0..<nat (page_count (int (length s)))]) = s \<and>
    (\<forall>i < nat (page_count (int (length s))).
       cpp_substr s (i * PAGSIZE) (size_of (page_length (int (length s)) (int i))) = Inr (page_text s i) \<and>
       length (page_text s i) \<le> PAGSIZE)"
proof -
  have n: "nat (page_count (int (length s))) = Suc (length s div 1024)" by (simp add: page_count_nat)
  show ?thesis
    using page_text_substr [OF assms] page_text_concat [of s] unfolding n
    by (auto simp: page_text_def PAGSIZE_def simp del: upt_Suc)
qed

end
