(* ===== verification/ReadLoop.thy ===== *)
theory ReadLoop
  imports CppString
begin

text \<open>
  The read loop of the two bufferevent callbacks, \<open>LibEvtServer::conn_readcb\<close>
  (server/server.cpp) and \<open>LibEvtClient::server_msg_cb\<close> (client/client.cpp). It asks for
  \<open>sizeof(msg)\<close> bytes at a time, which is the size of a pointer, terminates them with a zero
  byte and appends them as a C string.
\<close>

definition POINTER_SIZE :: nat where
  "POINTER_SIZE = 8"

function read_chunks :: "string \<Rightarrow> string" where
  "read_chunks input =
     (if input = [] then []
      else c_str (take POINTER_SIZE input) @ read_chunks (drop POINTER_SIZE input))"
  by pat_completeness auto
termination
  by (relation "measure length") (auto simp: POINTER_SIZE_def)

declare read_chunks.simps [simp del]

lemma read_chunks_Nil [simp]: "read_chunks [] = []"
  by (simp add: read_chunks.simps)

lemma read_chunks_text: "NUL \<notin> set input \<Longrightarrow> read_chunks input = input"
proof (induction input rule: read_chunks.induct)
  case (1 input)
  show ?case
  proof (cases "input = []")
    case False
    have "NUL \<notin> set (take POINTER_SIZE input)" "NUL \<notin> set (drop POINTER_SIZE input)"
      using 1(2) by (auto dest: in_set_takeD in_set_dropD)
    with 1(1) False show ?thesis by (subst read_chunks.simps) (simp add: c_str_id)
  qed simp
qed

lemma c_str_length_le: "length (c_str s) \<le> length s"
  by (simp add: c_str_def length_takeWhile_le)

lemma c_str_shorter: "NUL \<in> set s \<Longrightarrow> length (c_str s) < length s"
  by (induction s) (auto simp: c_str_def)

lemma read_chunks_length: "length (read_chunks input) \<le> length input"
proof (induction input rule: read_chunks.induct)
  case (1 input)
  show ?case
  proof (cases "input = []")
    case False
    have "length (c_str (take POINTER_SIZE input)) \<le> length (take POINTER_SIZE input)"
      by (rule c_str_length_le)
    moreover have "length (read_chunks (drop POINTER_SIZE input)) \<le> length (drop POINTER_SIZE input)"
      using 1 False by blast
    ultimately have "length (c_str (take POINTER_SIZE input) @ read_chunks (drop POINTER_SIZE input))
        \<le> length (take POINTER_SIZE input @ drop POINTER_SIZE input)"
      by (simp only: length_append add_mono)
    then show ?thesis using False by (subst read_chunks.simps) simp
  qed simp
qed

text \<open>A zero byte is lost, and the rest of its chunk with it.\<close>

lemma read_chunks_shorter: "NUL \<in> set input \<Longrightarrow> length (read_chunks input) < length input"
proof (induction input rule: read_chunks.induct)
  case (1 input)
  let ?a = "take POINTER_SIZE input" and ?b = "drop POINTER_SIZE input"
  have ne: "input \<noteq> []" using 1(2) by auto
  have parts: "NUL \<in> set ?a \<or> NUL \<in> set ?b"
    using 1(2) by (metis Un_iff append_take_drop_id set_append)
  have "length (c_str ?a) + length (read_chunks ?b) < length ?a + length ?b"
  proof (cases "NUL \<in> set ?a")
    case True
    then show ?thesis using c_str_shorter [OF True] read_chunks_length [of ?b] by linarith
  next
    case False
    then have "length (read_chunks ?b) < length ?b" using 1(1) ne parts by blast
    then show ?thesis using c_str_length_le [of ?a] by linarith
  qed
  also have "length ?a + length ?b = length input" by simp
  finally show ?case using ne by (subst read_chunks.simps) simp
qed

end
