(* ===== verification/ThreadPool.thy ===== *)
theory ThreadPool
  imports ServerWorker ReadLoop
begin

text \<open>
  \<open>LibEvtServer\<close> (server/server.cpp, server/server.h): one thread accepts connections and
  hands each to one of four worker threads, through the worker's queue and a byte on its
  notification socket; the other bytes broadcast a class or a file. The callbacks are
  functions over the server's state; the interleaving of the threads is a step relation over
  the pieces the locks make atomic.
\<close>

definition THREAD_NUMB :: nat where
  "THREAD_NUMB = 4"

record conn_queue_item =
  item_fd :: int
  item_strIP :: string

text \<open>
  A worker thread. \<open>spThread\<close> is whether its thread object has been made, \<open>notify_event\<close> the
  event registered with its base: descriptor, flags and base. \<open>notify_bytes\<close> are the bytes the
  notification socket has accepted and \<open>notify_cb\<close> has not received yet.
\<close>

record notify_registration =
  ev_fd :: int
  ev_flags :: "16 word"
  ev_base :: "int option"
  ev_added :: bool

record LibeventThread =
  spThread :: bool
  thread_base :: int
  notify_event :: notify_registration
  notfiy_recv_fd :: int
  notfiy_send_fd :: int
  data_map :: "(int, server_worker) stdmap"
  conn_queue :: "conn_queue_item list"
  notify_bytes :: "char list"

definition LibeventThread_new :: LibeventThread where
  "LibeventThread_new =
     \<lparr>spThread = False, thread_base = 0,
      notify_event = \<lparr>ev_fd = 0, ev_flags = 0, ev_base = None, ev_added = False\<rparr>,
      notfiy_recv_fd = 0, notfiy_send_fd = 0, data_map = [], conn_queue = [], notify_bytes = []\<rparr>"

text \<open>
  The server object; a null entry of \<open>m_libevent_threads\<close> is \<open>None\<close>. \<open>m_base\<close> and
  \<open>m_spListenThread\<close> are whether the pointer is set; \<open>m_listener\<close> is indeterminate until \<open>listen\<close> sets
  it, to null when the port cannot be bound.
\<close>

record 'd LibEvtServer =
  m_base :: bool
  m_last_thread :: int
  m_libevent_threads :: "LibeventThread option list"
  m_listener :: "unit ptr"
  m_spListenThread :: bool
  m_strClass :: string
  m_strCourse :: string
  m_strFilePath :: string
  m_nType :: int
  sv_world :: "'d world"

definition GetClass :: "'d LibEvtServer \<Rightarrow> string" where "GetClass s = m_strClass s"
definition GetCourse :: "'d LibEvtServer \<Rightarrow> string" where "GetCourse s = m_strCourse s"
definition GetFile :: "'d LibEvtServer \<Rightarrow> string" where "GetFile s = m_strFilePath s"
definition GetType :: "'d LibEvtServer \<Rightarrow> int" where "GetType s = m_nType s"

section \<open>Starting\<close>

text \<open>
  What the operating system and libevent answer while the server starts: whether the main
  base can be made, the descriptors of the i-th socket pair (or pipe) and the base of the
  i-th thread, and whether a listener with given options can be bound to an address with a given port field.
\<close>

record os =
  os_base :: bool
  os_pair :: "nat \<Rightarrow> (int \<times> int) option"
  os_thread_base :: "nat \<Rightarrow> int"
  os_bind :: "32 word \<Rightarrow> int \<Rightarrow> bool"

text \<open>\<open>setup_libevent_thread\<close>: make the base and register \<open>notify_cb\<close> for the receiving end.\<close>

definition setup_libevent_thread :: "int \<Rightarrow> LibeventThread \<Rightarrow> LibeventThread" where
  "setup_libevent_thread base plt =
     (let plt = plt\<lparr>thread_base := base\<rparr>;
          plt = plt\<lparr>notify_event :=
            \<lparr>ev_fd = notfiy_recv_fd plt, ev_flags = combine [EV_READ, EV_PERSIST], ev_base = None,
             ev_added = False\<rparr>\<rparr>;
          plt = plt\<lparr>notify_event := (notify_event plt)\<lparr>ev_base := Some (thread_base plt)\<rparr>\<rparr>
      in plt\<lparr>notify_event := (notify_event plt)\<lparr>ev_added := True\<rparr>\<rparr>)"

text \<open>
  The first loop of \<open>init_threads\<close>. When the i-th pair cannot be made, the function returns
  false on Windows; elsewhere it leaves the process. The flag says whether the loop ran to
  its end.
\<close>

fun make_threads :: "('j, 'd) libs \<Rightarrow> os \<Rightarrow> nat list \<Rightarrow> ('d LibEvtServer, bool) prog" where
  "make_threads L E [] = ret True"
| "make_threads L E (i # is) =
     (case os_pair E i of
        None \<Rightarrow> if WIN32 L then ret False else raise Process_exit
      | Some (fd0, fd1) \<Rightarrow>
          let plt = LibeventThread_new;
              plt = plt\<lparr>notfiy_recv_fd := fd0\<rparr>;
              plt = plt\<lparr>notfiy_send_fd := fd1\<rparr>;
              plt = setup_libevent_thread (os_thread_base E i) plt
          in andThen (modify (\<lambda>s. s\<lparr>m_libevent_threads := (m_libevent_threads s)[i := Some plt]\<rparr>))
               (\<lambda>_. make_threads L E is))"

text \<open>The second loop starts the threads; the vector is sized before both.\<close>

definition start_threads :: "LibeventThread option list \<Rightarrow> LibeventThread option list" where
  "start_threads = map (map_option (\<lambda>t. t\<lparr>spThread := True\<rparr>))"

definition init_threads ::
    "('j, 'd) libs \<Rightarrow> os \<Rightarrow> nat \<Rightarrow> ('d LibEvtServer, bool) prog" where
  "init_threads L E thread_numb =
     andThen (modify (\<lambda>s. s\<lparr>m_libevent_threads :=
        take thread_numb (m_libevent_threads s @ replicate thread_numb None)\<rparr>)) (\<lambda>_.
     andThen (make_threads L E [0..<thread_numb]) (\<lambda>made.
     if \<not> made then ret False
     else andThen (modify (\<lambda>s. s\<lparr>m_libevent_threads := start_threads (m_libevent_threads s)\<rparr>))
            (\<lambda>_. ret True)))"

text \<open>Network byte order of a 16-bit port; the argument of \<open>htons\<close> is converted to 16 bits.\<close>

definition htons :: "int \<Rightarrow> int" where
  "htons p = (let q = p mod 65536 in (q mod 256) * 256 + q div 256)"

definition ntohs :: "int \<Rightarrow> int" where
  "ntohs p = htons p"

text \<open>The options of the listener and of the bufferevent of a connection.\<close>

definition listen_options :: "32 word" where
  "listen_options = combine [LEV_OPT_REUSEABLE, LEV_OPT_CLOSE_ON_FREE]"

definition conn_options :: "32 word" where
  "conn_options = combine [bev_option_bit BEV_OPT_THREADSAFE, bev_option_bit BEV_OPT_CLOSE_ON_FREE]"

text \<open>\<open>listen\<close> answers its result and the port it stores through its argument.\<close>

definition listen :: "os \<Rightarrow> int \<Rightarrow> ('d LibEvtServer, bool \<times> int) prog" where
  "listen E port =
     (let sin_port = (if port = -1 then htons 10000 else htons port) in
      andThen (modify (\<lambda>s. s\<lparr>m_listener := ptr_of (if os_bind E listen_options sin_port then Some () else None)\<rparr>)) (\<lambda>_.
      if \<not> os_bind E listen_options sin_port then ret (False, port)
      else andThen (modify (\<lambda>s. s\<lparr>m_spListenThread := True\<rparr>)) (\<lambda>_.
             ret (True, if port = -1 then ntohs sin_port else port))))"

text \<open>
  \<open>init\<close>: the results of \<open>init_threads\<close> and of \<open>listen\<close> are ignored; only a missing event
  base makes it fail, and its caller, the constructor, ignores that too.
\<close>

definition server_init :: "('j, 'd) libs \<Rightarrow> os \<Rightarrow> ('d LibEvtServer, bool) prog" where
  "server_init L E =
     andThen (modify (\<lambda>s. s\<lparr>m_base := os_base E\<rparr>)) (\<lambda>_.
     if \<not> os_base E then ret False
     else
       andThen (modify (\<lambda>s. s\<lparr>m_last_thread := -1\<rparr>)) (\<lambda>_.
       andThen (init_threads L E THREAD_NUMB) (\<lambda>_.
       let strPath = GetModuleFullPath L @ PATH_SEP_STRING L;
           port = ReadInteger L (c_str (strPath @ ''config.ini'')) ''Server'' ''port'' 8888
       in andThen (listen E port) (\<lambda>_. ret True))))"

definition LibEvtServer_raw :: "int \<Rightarrow> 'd world \<Rightarrow> 'd LibEvtServer" where
  "LibEvtServer_raw junk d =
     \<lparr>m_base = False, m_last_thread = junk, m_libevent_threads = [], m_listener = Uninit,
      m_spListenThread = False, m_strClass = [], m_strCourse = [], m_strFilePath = [], m_nType = 0,
      sv_world = d\<rparr>"

definition LibEvtServer_new ::
    "('j, 'd) libs \<Rightarrow> os \<Rightarrow> 'd world \<Rightarrow> (error + bool) \<times> 'd LibEvtServer" where
  "LibEvtServer_new L E d = server_init L E (LibEvtServer_raw (junk_int L 0) d)"

section \<open>Stopping\<close>

text \<open>The library calls of the destructor, in order.\<close>

datatype teardown =
    Loopbreak "int option"
  | Base_free "int option"
  | Join "int option"
  | Delete_thread int
  | Listener_free

definition emit :: "teardown \<Rightarrow> (teardown list, unit) prog" where
  "emit a = modify (\<lambda>l. l @ [a])"

fun destroy_threads :: "LibeventThread option list \<Rightarrow> (teardown list, unit) prog" where
  "destroy_threads [] = ret ()"
| "destroy_threads (None # ts) = raise (UB Null_pointer)"
| "destroy_threads (Some t # ts) =
     andThen (emit (Loopbreak (Some (thread_base t)))) (\<lambda>_.
     andThen (emit (Base_free (Some (thread_base t)))) (\<lambda>_.
     if \<not> spThread t then raise (UB Null_pointer)
     else andThen (emit (Join (Some (thread_base t)))) (\<lambda>_.
          andThen (emit (Delete_thread (thread_base t))) (\<lambda>_. destroy_threads ts))))"

text \<open>
  \<open>None\<close> stands for the main base and its accepting thread. \<open>evconnlistener_free\<close> is documented for a
  listener (event2/listener.h), not for a null pointer: to pass it a null or an indeterminate one is an
  error. With a listener the main base is there too.
\<close>

definition LibEvtServer_destroy :: "'d LibEvtServer \<Rightarrow> (teardown list, unit) prog" where
  "LibEvtServer_destroy s =
     andThen (destroy_threads (m_libevent_threads s)) (\<lambda>_.
     andThen (of_result (the_ptr (m_listener s))) (\<lambda>_.
     andThen (emit Listener_free) (\<lambda>_.
     andThen (emit (Loopbreak None)) (\<lambda>_.
     andThen (emit (Base_free None)) (\<lambda>_.
     if m_spListenThread s then emit (Join None) else raise (UB Null_pointer))))))"

section \<open>Threads by index\<close>

definition update_thread ::
    "nat \<Rightarrow> (LibeventThread \<Rightarrow> LibeventThread) \<Rightarrow> 'd LibEvtServer \<Rightarrow> 'd LibEvtServer" where
  "update_thread i f s = s\<lparr>m_libevent_threads := (m_libevent_threads s)[i := map_option f (m_libevent_threads s ! i)]\<rparr>"

text \<open>\<open>plt->...\<close> on a null entry is undefined, and so is an index past the vector.\<close>

definition thread_at :: "nat \<Rightarrow> ('d LibEvtServer, LibeventThread) prog" where
  "thread_at i = (\<lambda>s.
     if i < length (m_libevent_threads s)
     then (case m_libevent_threads s ! i of
             None \<Rightarrow> (Inl (UB Null_pointer), s) | Some t \<Rightarrow> (Inr t, s))
     else (Inl (UB Buffer_overflow), s))"

text \<open>
  \<open>send(plt->notfiy_send_fd, c, 1, 0)\<close>: the answer is ignored by every caller. A byte that is
  accepted waits at the receiving end.
\<close>

definition push_byte :: "char \<Rightarrow> LibeventThread \<Rightarrow> LibeventThread" where
  "push_byte c t = t\<lparr>notify_bytes := notify_bytes t @ [c]\<rparr>"

definition notify_thread :: "('j, 'd) libs \<Rightarrow> nat \<Rightarrow> char \<Rightarrow> ('d LibEvtServer, unit) prog" where
  "notify_thread L i c =
     andThen (thread_at i) (\<lambda>plt. \<lambda>s.
     let fd = notfiy_send_fd plt;
         d = sv_world s;
         n = c_int (sock_send L (w_sends d) fd [c]);
         s' = s\<lparr>sv_world := d\<lparr>w_sends := w_sends d @ [(fd, [c], n)]\<rparr>\<rparr>
     in (Inr (), if n = 1 then update_thread i (push_byte c) s' else s'))"

definition push_conn :: "conn_queue_item \<Rightarrow> LibeventThread \<Rightarrow> LibeventThread" where
  "push_conn item t = t\<lparr>conn_queue := conn_queue t @ [item]\<rparr>"

section \<open>Accepting\<close>

text \<open>The next thread, round robin.\<close>

definition next_thread :: "int \<Rightarrow> int" where
  "next_thread prev = (prev + 1) smod int THREAD_NUMB"

text \<open>
  \<open>listener_cb\<close>: choose the thread, queue the connection there, then wake the thread up. The
  two parts are separate, since another thread can run between the unlock and the \<open>send\<close>.
\<close>

definition listener_queue :: "int \<Rightarrow> string \<Rightarrow> ('d LibEvtServer, nat) prog" where
  "listener_queue fd buff =
     andThen (query (\<lambda>s. next_thread (m_last_thread s))) (\<lambda>cur_thread.
     andThen (modify (\<lambda>s. s\<lparr>m_last_thread := cur_thread\<rparr>)) (\<lambda>_.
     andThen (thread_at (nat cur_thread)) (\<lambda>_.
     andThen (modify (update_thread (nat cur_thread)
        (push_conn \<lparr>item_fd = fd, item_strIP = buff\<rparr>))) (\<lambda>_.
     ret (nat cur_thread)))))"

definition listener_cb ::
    "('j, 'd) libs \<Rightarrow> int \<Rightarrow> string \<Rightarrow> ('d LibEvtServer, unit) prog" where
  "listener_cb L fd buff =
     andThen (listener_queue fd buff) (\<lambda>cur_thread. notify_thread L cur_thread (CHR ''c''))"

section \<open>Broadcasts from the main thread\<close>

fun notify_all :: "('j, 'd) libs \<Rightarrow> char \<Rightarrow> nat list \<Rightarrow> ('d LibEvtServer, unit) prog" where
  "notify_all L c [] = ret ()"
| "notify_all L c (i # is) = andThen (notify_thread L i c) (\<lambda>_. notify_all L c is)"

definition each_thread :: "('d LibEvtServer, nat list) prog" where
  "each_thread = query (\<lambda>s. [0..<length (m_libevent_threads s)])"

definition Give_A_Class ::
    "('j, 'd) libs \<Rightarrow> string \<Rightarrow> string \<Rightarrow> ('d LibEvtServer, int) prog" where
  "Give_A_Class L strClass strCourse =
     andThen (modify (\<lambda>s. s\<lparr>m_strClass := strClass, m_strCourse := strCourse\<rparr>)) (\<lambda>_.
     andThen each_thread (\<lambda>is.
     andThen (notify_all L (CHR ''a'') is) (\<lambda>_. ret 0)))"

definition SendFile ::
    "('j, 'd) libs \<Rightarrow> string \<Rightarrow> int \<Rightarrow> ('d LibEvtServer, int) prog" where
  "SendFile L strPath nType =
     andThen (modify (\<lambda>s. s\<lparr>m_nType := nType, m_strFilePath := strPath\<rparr>)) (\<lambda>_.
     andThen each_thread (\<lambda>is.
     andThen (notify_all L (CHR ''b'') is) (\<lambda>_. ret 0)))"

text \<open>A computation over the world inside the server.\<close>

definition in_world :: "('d world, 'b) prog \<Rightarrow> ('d LibEvtServer, 'b) prog" where
  "in_world m = zoom sv_world (\<lambda>d s. s\<lparr>sv_world := d\<rparr>) m"

text \<open>\<open>GetConnectDevice\<close>: the addresses of all connections, and a heartbeat to each.\<close>

fun heartbeats ::
    "('j, 'd) libs \<Rightarrow> (int, server_worker) stdmap \<Rightarrow> ('d world, string) prog" where
  "heartbeats L [] = ret []"
| "heartbeats L ((fd, w) # m) =
     andThen (SendMsgTo_raw L w ''H'') (\<lambda>_.
     andThen (heartbeats L m) (\<lambda>r. ret (GetIP w @ DECOLLATOR @ r)))"

fun device_list :: "('j, 'd) libs \<Rightarrow> nat list \<Rightarrow> ('d LibEvtServer, string) prog" where
  "device_list L [] = ret []"
| "device_list L (i # is) =
     andThen (thread_at i) (\<lambda>t.
     andThen (in_world (heartbeats L (data_map t))) (\<lambda>r.
     andThen (device_list L is) (\<lambda>rs. ret (r @ rs))))"

definition GetConnectDevice :: "('j, 'd) libs \<Rightarrow> ('d LibEvtServer, string) prog" where
  "GetConnectDevice L = andThen each_thread (\<lambda>is. device_list L is)"

section \<open>The worker threads\<close>

text \<open>Byte \<open>a\<close>: the class and the course to every connection of the thread.\<close>

fun send_class_all ::
    "('j, 'd) libs \<Rightarrow> string \<Rightarrow> string \<Rightarrow> (int, server_worker) stdmap \<Rightarrow> ('d world, unit) prog" where
  "send_class_all L strClass strCourse [] = ret ()"
| "send_class_all L strClass strCourse ((fd, w) # m) =
     andThen (SendSKBJ L w strClass strCourse) (\<lambda>_. send_class_all L strClass strCourse m)"

text \<open>Byte \<open>b\<close>: the description of the file and the file to every connection.\<close>

definition file_name_of :: "('j, 'd) libs \<Rightarrow> string \<Rightarrow> error + string" where
  "file_name_of L strFile =
     (let pos = pos_int (str_rfind (PATH_SEPARATOR L) strFile) in
      if pos = -1 then Inr [] else cpp_substr_from strFile (size_of (pos + 1)))"

fun json_build2 :: "'j jsonlib \<Rightarrow> 'j \<Rightarrow> (string \<times> string \<times> 'j) list \<Rightarrow> 'j option" where
  "json_build2 J v [] = Some v"
| "json_build2 J v ((k1, k2, x) # kvs) =
     (case json_set2 J v k1 k2 x of None \<Rightarrow> None | Some v' \<Rightarrow> json_build2 J v' kvs)"

definition template_json :: "('j, 'd) libs \<Rightarrow> 'd LibEvtServer \<Rightarrow> string \<Rightarrow> 'j option" where
  "template_json L s strFileName =
     (let str = js_of_string (json L); num = js_of_int (json L) in
      json_build2 (json L) (js_null (json L))
        [(FILE_DESCRIBE, FILE_CLASS, str (GetClass s)),
         (FILE_DESCRIBE, FILE_NAME, str strFileName),
         (FILE_DESCRIBE, FILE_COURES, str (GetCourse s)),
         (FILE_DESCRIBE, FILE_PATH, str (GetFile s)),
         (FILE_DESCRIBE, FILE_TYPE, num (GetType s)),
         (FILE_DESCRIBE, FILE_TEMPLATE, num 1)])"

fun send_file_all ::
    "('j, 'd) libs \<Rightarrow> string \<Rightarrow> (int, server_worker) stdmap \<Rightarrow> ('d world, unit) prog" where
  "send_file_all L strMsg [] = ret ()"
| "send_file_all L strMsg ((fd, w) # m) =
     andThen (SendFileTo L w ''CXWJ'' strMsg) (\<lambda>_. send_file_all L strMsg m)"

text \<open>
  Any other byte: take a connection off the queue, make its bufferevent and its worker, and
  tell the client the class. \<open>front\<close> and \<open>pop\<close> on an empty queue are undefined.
\<close>

definition pop_conn :: "nat \<Rightarrow> ('d LibEvtServer, conn_queue_item) prog" where
  "pop_conn i =
     andThen (thread_at i) (\<lambda>t.
     case conn_queue t of
       [] \<Rightarrow> raise (UB Front_of_empty_queue)
     | item # q \<Rightarrow>
         andThen (modify (update_thread i (\<lambda>t. t\<lparr>conn_queue := q\<rparr>))) (\<lambda>_. ret item))"

definition open_conn ::
    "('j, 'd) libs \<Rightarrow> nat \<Rightarrow> conn_queue_item \<Rightarrow> ('d LibEvtServer, unit) prog" where
  "open_conn L i item =
     andThen (thread_at i) (\<lambda>t.
     let bev = bufferevent_socket_new L (item_fd item) conn_options;
         w = fst (sm_at CServerWorker_new (item_fd item) (data_map t));
         w = SetIP (item_strIP item) (SetBev bev w)
     in
     andThen (modify (update_thread i (\<lambda>t. t\<lparr>data_map := sm_put (item_fd item) w (data_map t)\<rparr>))) (\<lambda>_.
     andThen (query (\<lambda>s. (GetClass s, GetCourse s))) (\<lambda>(strClass, strCourse).
     in_world (SendSKBJ L w strClass strCourse))))"

text \<open>The byte \<open>notify_cb\<close> receives; it is called only when the socket is readable.\<close>

definition recv_byte :: "nat \<Rightarrow> ('d LibEvtServer, char option) prog" where
  "recv_byte i =
     andThen (thread_at i) (\<lambda>t.
     case notify_bytes t of
       [] \<Rightarrow> ret None
     | c # cs \<Rightarrow>
         andThen (modify (update_thread i (\<lambda>t. t\<lparr>notify_bytes := cs\<rparr>))) (\<lambda>_. ret (Some c)))"

definition handle_byte ::
    "('j, 'd) libs \<Rightarrow> nat \<Rightarrow> char \<Rightarrow> ('d LibEvtServer, unit) prog" where
  "handle_byte L i c =
     (if c = CHR ''a'' then
        andThen (query (\<lambda>s. (GetClass s, GetCourse s))) (\<lambda>(strClass, strCourse).
        andThen (thread_at i) (\<lambda>t.
        in_world (send_class_all L strClass strCourse (data_map t))))
      else if c = CHR ''b'' then
        andThen (query GetFile) (\<lambda>strFile.
        andThen (of_result (file_name_of L strFile)) (\<lambda>strFileName.
        andThen (query (\<lambda>s. template_json L s strFileName)) (\<lambda>js.
        andThen (of_option Json_error js) (\<lambda>root.
        andThen (thread_at i) (\<lambda>t.
        in_world (send_file_all L (JsonToString L root) (data_map t)))))))
      else andThen (pop_conn i) (\<lambda>item. open_conn L i item))"

definition notify_cb :: "('j, 'd) libs \<Rightarrow> nat \<Rightarrow> ('d LibEvtServer, unit) prog" where
  "notify_cb L i =
     andThen (recv_byte i) (\<lambda>b.
     case b of None \<Rightarrow> ret () | Some c \<Rightarrow> handle_byte L i c)"

section \<open>Connection callbacks\<close>

definition conn_readcb ::
    "('j, 'd) libs \<Rightarrow> nat \<Rightarrow> int \<Rightarrow> string \<Rightarrow> ('d LibEvtServer, loop_exit) prog" where
  "conn_readcb L i fd input =
     andThen (thread_at i) (\<lambda>t. \<lambda>s.
     case sm_at CServerWorker_new fd (data_map t) of
       (w, _) \<Rightarrow>
         (case Process L (server_handlers L) (read_chunks input) (w, sv_world s) of
            (r, (w', d')) \<Rightarrow>
              (r, (update_thread i (\<lambda>t. t\<lparr>data_map := sm_put fd w' (data_map t)\<rparr>) s)\<lparr>sv_world := d'\<rparr>)))"

definition conn_eventcb :: "nat \<Rightarrow> int \<Rightarrow> ('d LibEvtServer, unit) prog" where
  "conn_eventcb i fd =
     andThen (thread_at i) (\<lambda>t.
     case sm_find fd (data_map t) of
       None \<Rightarrow> ret ()
     | Some _ \<Rightarrow> modify (update_thread i (\<lambda>t. t\<lparr>data_map := sm_erase fd (data_map t)\<rparr>)))"

end
