(* ===== verification/Dispatch.thy ===== *)
theory Dispatch
  imports ThreadPool
begin

text \<open>
  What the callbacks of \<open>LibEvtServer\<close> do to the thread vector: the lemmas on a thread by
  index, the state after a successful start, and the round robin of accepted connections.
\<close>

section \<open>A thread by index\<close>

lemma update_thread_length [simp]:
  "length (m_libevent_threads (update_thread i f s)) = length (m_libevent_threads s)"
  by (simp add: update_thread_def)

lemma update_thread_nth:
  "j < length (m_libevent_threads s) \<Longrightarrow>
   m_libevent_threads (update_thread i f s) ! j =
     (if i = j then map_option f (m_libevent_threads s ! j) else m_libevent_threads s ! j)"
  by (simp add: update_thread_def nth_list_update)

lemma update_thread_fields [simp]:
  "m_last_thread (update_thread i f s) = m_last_thread s"
  "m_strClass (update_thread i f s) = m_strClass s"
  "m_strCourse (update_thread i f s) = m_strCourse s"
  "m_strFilePath (update_thread i f s) = m_strFilePath s"
  "m_nType (update_thread i f s) = m_nType s"
  "sv_world (update_thread i f s) = sv_world s"
  by (simp_all add: update_thread_def)

lemma thread_at_Some:
  "i < length (m_libevent_threads s) \<Longrightarrow> m_libevent_threads s ! i = Some t \<Longrightarrow>
   thread_at i s = (Inr t, s)"
  by (simp add: thread_at_def)

lemma thread_at_InrD:
  "thread_at i s = (Inr t, s') \<Longrightarrow>
   s' = s \<and> i < length (m_libevent_threads s) \<and> m_libevent_threads s ! i = Some t"
  by (auto simp: thread_at_def split: if_splits option.splits)

lemma notify_thread_Some:
  assumes "i < length (m_libevent_threads s)" and "m_libevent_threads s ! i = Some t"
  obtains s' where "notify_thread L i c s = (Inr (), s')"
    and "m_libevent_threads s' = m_libevent_threads s \<or>
         m_libevent_threads s' = m_libevent_threads (update_thread i (push_byte c) s)"
    and "m_last_thread s' = m_last_thread s"
    and "m_strClass s' = m_strClass s" and "m_strCourse s' = m_strCourse s"
    and "\<forall>h. sock_send L h (notfiy_send_fd t) [c] = 1 \<Longrightarrow>
         m_libevent_threads s' = m_libevent_threads (update_thread i (push_byte c) s)"
    and "\<forall>h. sock_send L h (notfiy_send_fd t) [c] = -1 \<Longrightarrow>
         m_libevent_threads s' = m_libevent_threads s"
proof -
  let ?n = "c_int (sock_send L (w_sends (sv_world s)) (notfiy_send_fd t) [c])"
  let ?s1 = "s\<lparr>sv_world := (sv_world s)\<lparr>w_sends := w_sends (sv_world s) @ [(notfiy_send_fd t, [c], ?n)]\<rparr>\<rparr>"
  let ?s' = "if ?n = 1 then update_thread i (push_byte c) ?s1 else ?s1"
  have "notify_thread L i c s = (Inr (), ?s')"
    using thread_at_Some [OF assms] by (simp add: notify_thread_def prog_simps Let_def)
  moreover have "m_libevent_threads ?s' = m_libevent_threads s \<or>
      m_libevent_threads ?s' = m_libevent_threads (update_thread i (push_byte c) s)"
    by (simp add: update_thread_def)
  moreover have "m_libevent_threads ?s' = m_libevent_threads (update_thread i (push_byte c) s)"
    if "\<forall>h. sock_send L h (notfiy_send_fd t) [c] = 1"
    using that by (simp add: update_thread_def c_int_def)
  moreover have "m_libevent_threads ?s' = m_libevent_threads s"
    if "\<forall>h. sock_send L h (notfiy_send_fd t) [c] = -1"
    using that by (simp add: c_int_def)
  ultimately show thesis by (intro that [of ?s']) simp_all
qed

section \<open>Accepting connections\<close>

fun accept_all :: "('j, 'd) libs \<Rightarrow> (int \<times> string) list \<Rightarrow> ('d LibEvtServer, unit) prog" where
  "accept_all L [] = ret ()"
| "accept_all L ((fd, ip) # cs) = andThen (listener_cb L fd ip) (\<lambda>_. accept_all L cs)"

definition item_of :: "int \<times> string \<Rightarrow> conn_queue_item" where
  "item_of c = \<lparr>item_fd = fst c, item_strIP = snd c\<rparr>"

definition threads_up :: "'d LibEvtServer \<Rightarrow> bool" where
  "threads_up s \<longleftrightarrow> length (m_libevent_threads s) = THREAD_NUMB \<and> None \<notin> set (m_libevent_threads s)"

definition queue_of :: "'d LibEvtServer \<Rightarrow> nat \<Rightarrow> conn_queue_item list" where
  "queue_of s i = (case m_libevent_threads s ! i of None \<Rightarrow> [] | Some t \<Rightarrow> conn_queue t)"

lemma threads_up_nth:
  "threads_up s \<Longrightarrow> i < THREAD_NUMB \<Longrightarrow> \<exists>t. m_libevent_threads s ! i = Some t"
  by (metis threads_up_def nth_mem not_None_eq)

lemma threads_up_update: "threads_up s \<Longrightarrow> threads_up (update_thread i f s)"
proof -
  assume s: "threads_up s"
  have "m_libevent_threads (update_thread i f s) ! j \<noteq> None" if "j < THREAD_NUMB" for j
    using s threads_up_nth [OF s that] that
    by (auto simp: update_thread_nth threads_up_def)
  with s show ?thesis
    unfolding threads_up_def by (metis in_set_conv_nth update_thread_length)
qed

lemma threads_up_cong: "m_libevent_threads s = m_libevent_threads s' \<Longrightarrow> threads_up s = threads_up s'"
  by (simp add: threads_up_def)

lemma next_thread_mod: "-1 \<le> k \<Longrightarrow> next_thread k = (k + 1) mod 4"
  by (cases "k = -1") (auto simp: next_thread_def THREAD_NUMB_def signed_modulo_int_def)

lemma next_thread_range: "-1 \<le> k \<Longrightarrow> 0 \<le> next_thread k \<and> next_thread k < 4"
  by (simp add: next_thread_mod)

lemma queue_of_push_byte:
  assumes "threads_up s" and "j < THREAD_NUMB"
  shows "queue_of (update_thread i (push_byte c) s) j = queue_of s j"
  using threads_up_nth [OF assms] assms
  by (auto simp: queue_of_def update_thread_nth threads_up_def push_byte_def)

lemma queue_of_push_conn:
  assumes "threads_up s" and "j < THREAD_NUMB"
  shows "queue_of (update_thread i (push_conn x) s) j = queue_of s j @ (if i = j then [x] else [])"
  using threads_up_nth [OF assms] assms
  by (auto simp: queue_of_def update_thread_nth threads_up_def push_conn_def)

lemma listener_queue_up:
  assumes s: "threads_up s" and k: "-1 \<le> m_last_thread s"
  shows "\<exists>s'. listener_queue fd ip s = (Inr (nat (next_thread (m_last_thread s))), s') \<and>
    threads_up s' \<and> m_last_thread s' = next_thread (m_last_thread s) \<and>
    sv_world s' = sv_world s \<and>
    m_libevent_threads s' = m_libevent_threads
      (update_thread (nat (next_thread (m_last_thread s))) (push_conn (item_of (fd, ip))) s)"
proof -
  let ?c = "next_thread (m_last_thread s)"
  let ?s1 = "s\<lparr>m_last_thread := ?c\<rparr>"
  let ?s2 = "update_thread (nat ?c) (push_conn (item_of (fd, ip))) ?s1"
  have c: "nat ?c < THREAD_NUMB" using next_thread_range [OF k] by (auto simp: THREAD_NUMB_def)
  obtain t where "m_libevent_threads s ! nat ?c = Some t" using threads_up_nth [OF s c] by blast
  then have t: "thread_at (nat ?c) ?s1 = (Inr t, ?s1)"
    using s c by (intro thread_at_Some) (simp_all add: threads_up_def)
  have "listener_queue fd ip s = (Inr (nat ?c), ?s2)"
    by (simp add: listener_queue_def prog_simps t item_of_def)
  moreover have "threads_up ?s2" using s by (intro threads_up_update) (simp add: threads_up_def)
  moreover have "m_libevent_threads ?s2 =
      m_libevent_threads (update_thread (nat ?c) (push_conn (item_of (fd, ip))) s)"
    by (simp add: update_thread_def)
  ultimately show ?thesis by simp
qed

lemma listener_cb_up:
  assumes s: "threads_up s" and k: "-1 \<le> m_last_thread s"
  shows "\<exists>s'. listener_cb L fd ip s = (Inr (), s') \<and> threads_up s' \<and>
    m_last_thread s' = next_thread (m_last_thread s) \<and>
    (\<forall>j < THREAD_NUMB. queue_of s' j = queue_of s j @
       (if int j = next_thread (m_last_thread s) then [item_of (fd, ip)] else []))"
proof -
  let ?c = "next_thread (m_last_thread s)"
  have c: "0 \<le> ?c" "nat ?c < THREAD_NUMB" using next_thread_range [OF k] by (auto simp: THREAD_NUMB_def)
  obtain s1 where s1: "listener_queue fd ip s = (Inr (nat ?c), s1)" "threads_up s1"
    "m_last_thread s1 = ?c"
    "m_libevent_threads s1 = m_libevent_threads (update_thread (nat ?c) (push_conn (item_of (fd, ip))) s)"
    using listener_queue_up [OF s k, of fd ip] by blast
  obtain t where "m_libevent_threads s1 ! nat ?c = Some t" using threads_up_nth [OF s1(2) c(2)] by blast
  then obtain s2 where s2: "notify_thread L (nat ?c) (CHR ''c'') s1 = (Inr (), s2)"
    "m_libevent_threads s2 = m_libevent_threads s1 \<or>
     m_libevent_threads s2 = m_libevent_threads (update_thread (nat ?c) (push_byte (CHR ''c'')) s1)"
    "m_last_thread s2 = m_last_thread s1"
    using s1(2) c(2) by (elim notify_thread_Some [rotated]) (auto simp: threads_up_def)
  have up: "threads_up s2"
    using s2(2) s1(2) threads_up_update [OF s1(2)] threads_up_cong by metis
  have q2: "queue_of s2 j = queue_of s1 j" if "j < THREAD_NUMB" for j
    using s2(2) queue_of_push_byte [OF s1(2) that] by (auto simp: queue_of_def)
  have q1: "queue_of s1 j = queue_of s j @ (if nat ?c = j then [item_of (fd, ip)] else [])"
    if "j < THREAD_NUMB" for j
    using queue_of_push_conn [OF s that, of "nat ?c"] s1(4) by (simp add: queue_of_def)
  have "listener_cb L fd ip s = (Inr (), s2)" by (simp add: listener_cb_def prog_simps s1(1) s2(1))
  moreover have "queue_of s2 j = queue_of s j @ (if int j = ?c then [item_of (fd, ip)] else [])"
    if "j < THREAD_NUMB" for j
    using q2 [OF that] q1 [OF that] c(1) by auto
  ultimately show ?thesis using up s2(3) s1(3) by auto
qed

lemma accept_all_up:
  assumes "threads_up s" and "-1 \<le> m_last_thread s"
    and "next_thread (m_last_thread s) = int (k mod THREAD_NUMB)"
  shows "\<exists>s'. accept_all L cs s = (Inr (), s') \<and> threads_up s' \<and>
    (\<forall>j < THREAD_NUMB. queue_of s' j =
       queue_of s j @ map item_of (nths cs {n. (k + n) mod THREAD_NUMB = j}))"
  using assms
proof (induction cs arbitrary: s k)
  case Nil
  then show ?case by (simp add: prog_simps)
next
  case (Cons c cs)
  obtain fd ip where c: "c = (fd, ip)" by (cases c)
  obtain s1 where s1: "listener_cb L fd ip s = (Inr (), s1)" "threads_up s1"
    "m_last_thread s1 = next_thread (m_last_thread s)"
    "\<forall>j < THREAD_NUMB. queue_of s1 j = queue_of s j @
       (if int j = next_thread (m_last_thread s) then [item_of (fd, ip)] else [])"
    using listener_cb_up [OF Cons.prems(1,2), of L fd ip] by blast
  have last: "m_last_thread s1 = int (k mod 4)" using s1(3) Cons.prems(3) by (simp add: THREAD_NUMB_def)
  have "next_thread (m_last_thread s1) = int (Suc k mod THREAD_NUMB)"
    by (simp add: last next_thread_mod THREAD_NUMB_def zmod_int mod_simps) presburger
  then obtain s2 where s2: "accept_all L cs s1 = (Inr (), s2)" "threads_up s2"
    "\<forall>j < THREAD_NUMB. queue_of s2 j =
       queue_of s1 j @ map item_of (nths cs {n. (Suc k + n) mod THREAD_NUMB = j})"
    using Cons.IH [OF s1(2), of "Suc k"] last by auto
  have "queue_of s2 j = queue_of s j @ map item_of (nths (c # cs) {n. (k + n) mod THREAD_NUMB = j})"
    if j: "j < THREAD_NUMB" for j
    using s2(3) s1(4) j Cons.prems(3) by (auto simp: nths_Cons c)
  with s2(1,2) s1(1) show ?case by (auto simp: c prog_simps)
qed

section \<open>Starting the threads\<close>

definition started_thread :: "os \<Rightarrow> nat \<Rightarrow> LibeventThread" where
  "started_thread E i =
     (setup_libevent_thread (os_thread_base E i)
        (LibeventThread_new\<lparr>notfiy_recv_fd := fst (the (os_pair E i)),
           notfiy_send_fd := snd (the (os_pair E i))\<rparr>))\<lparr>spThread := True\<rparr>"

lemma started_thread_fd [simp]: "notfiy_send_fd (started_thread E i) = snd (the (os_pair E i))"
  by (simp add: started_thread_def setup_libevent_thread_def LibeventThread_new_def Let_def)

lemma started_thread_empty [simp]:
  "data_map (started_thread E i) = []" "conn_queue (started_thread E i) = []"
  "notify_bytes (started_thread E i) = []"
  by (simp_all add: started_thread_def setup_libevent_thread_def LibeventThread_new_def Let_def)

text \<open>The port the server asks for, as \<open>listen\<close> writes it into the address.\<close>

definition bind_port :: "('j, 'd) libs \<Rightarrow> int" where
  "bind_port L =
     (let port = ReadInteger L (c_str ((GetModuleFullPath L @ PATH_SEP_STRING L) @ ''config.ini''))
        ''Server'' ''port'' 8888
      in if port = -1 then htons 10000 else htons port)"

lemma listen_fields:
  obtains r s' where "listen E port s = (Inr r, s')"
    and "m_libevent_threads s' = m_libevent_threads s" and "m_last_thread s' = m_last_thread s"
    and "sv_world s' = sv_world s"
  by (cases "os_bind E listen_options (if port = -1 then htons 10000 else htons port)")
     (simp_all add: listen_def prog_simps Let_def)

lemma upt_threads: "[0..<THREAD_NUMB] = [0, 1, 2, 3]"
  by (simp add: THREAD_NUMB_def upt_rec)

lemma four_cases: "i < 4 \<Longrightarrow> i = 0 \<or> i = 1 \<or> i = 2 \<or> i = (3::nat)"
  by auto

lemma init_threads_all:
  assumes "\<forall>i < THREAD_NUMB. os_pair E i \<noteq> None" and "m_libevent_threads s = []"
  shows "init_threads L E THREAD_NUMB s =
    (Inr True, s\<lparr>m_libevent_threads := map (\<lambda>i. Some (started_thread E i)) [0..<THREAD_NUMB]\<rparr>)"
proof -
  have p: "\<exists>a b. os_pair E i = Some (a, b)" if "i < 4" for i
    using assms(1) that by (auto simp: THREAD_NUMB_def)
  obtain a0 b0 a1 b1 a2 b2 a3 b3 where "os_pair E 0 = Some (a0, b0)" "os_pair E 1 = Some (a1, b1)"
    "os_pair E 2 = Some (a2, b2)" "os_pair E 3 = Some (a3, b3)"
    using p [of 0] p [of 1] p [of 2] p [of 3] by auto
  then show ?thesis
    unfolding init_threads_def upt_threads using assms(2)
    by (simp add: prog_simps Let_def THREAD_NUMB_def start_threads_def started_thread_def
        numeral_eq_Suc)
qed

lemma server_new_up:
  assumes "os_base E" and "\<forall>i < THREAD_NUMB. os_pair E i \<noteq> None"
  shows "\<exists>s. LibEvtServer_new L E d = (Inr True, s) \<and> threads_up s \<and> m_last_thread s = -1 \<and>
    m_libevent_threads s = map (\<lambda>i. Some (started_thread E i)) [0..<THREAD_NUMB] \<and> sv_world s = d"
proof -
  let ?s = "(LibEvtServer_raw (junk_int L 0) d)\<lparr>m_base := True, m_last_thread := -1\<rparr>"
  let ?s1 = "?s\<lparr>m_libevent_threads := map (\<lambda>i. Some (started_thread E i)) [0..<THREAD_NUMB]\<rparr>"
  let ?port = "ReadInteger L (c_str ((GetModuleFullPath L @ PATH_SEP_STRING L) @ ''config.ini''))
     ''Server'' ''port'' 8888"
  have i: "init_threads L E THREAD_NUMB ?s = (Inr True, ?s1)"
    using init_threads_all [OF assms(2), of ?s L] by (simp add: LibEvtServer_raw_def)
  obtain r s' where l: "listen E ?port ?s1 = (Inr r, s')"
    "m_libevent_threads s' = m_libevent_threads ?s1" "m_last_thread s' = m_last_thread ?s1"
    "sv_world s' = sv_world ?s1"
    by (rule listen_fields)
  have "LibEvtServer_new L E d = (Inr True, s')"
    using assms(1) i l(1) by (simp add: LibEvtServer_new_def server_init_def prog_simps Let_def)
  moreover have "threads_up s'" using l(2) by (auto simp: threads_up_def)
  ultimately show ?thesis using l by (auto simp: LibEvtServer_raw_def)
qed

text \<open>
  Whatever became of the worker threads, a server with a main base has a listener and its accepting
  thread exactly when the port could be bound.
\<close>

lemma make_threads_rest:
  "make_threads L E is s = (r, s') \<Longrightarrow> m_spListenThread s' = m_spListenThread s \<and> m_last_thread s' = m_last_thread s"
  by (induction "is" arbitrary: s)
     (fastforce simp: prog_simps Let_def split: option.splits if_splits prod.splits)+

lemma init_threads_rest:
  "init_threads L E n s = (r, s') \<Longrightarrow> m_spListenThread s' = m_spListenThread s \<and> m_last_thread s' = m_last_thread s"
  by (auto simp: init_threads_def prog_simps split: prod.splits sum.splits if_splits dest!: make_threads_rest)

lemma server_new_listener:
  assumes "LibEvtServer_new L E d = (Inr r, s)" and "os_base E"
  shows "m_listener s = ptr_of (if os_bind E listen_options (bind_port L) then Some () else None)"
    and "m_spListenThread s = os_bind E listen_options (bind_port L)"
    and "m_last_thread s = -1"
proof -
  let ?s = "(LibEvtServer_raw (junk_int L 0) d)\<lparr>m_base := True, m_last_thread := -1\<rparr>"
  obtain r1 s1 where i: "init_threads L E THREAD_NUMB ?s = (r1, s1)" by fastforce
  then have "\<not> m_spListenThread s1" "m_last_thread s1 = -1"
    using init_threads_rest [OF i] by (simp_all add: LibEvtServer_raw_def)
  with assms i show "m_listener s = ptr_of (if os_bind E listen_options (bind_port L) then Some () else None)"
    and "m_spListenThread s = os_bind E listen_options (bind_port L)" and "m_last_thread s = -1"
    by (auto simp: LibEvtServer_new_def server_init_def prog_simps Let_def listen_def bind_port_def
        split: sum.splits if_splits)
qed

text \<open>A pair that cannot be made leaves null entries, and no thread started.\<close>

lemma init_threads_partial:
  assumes "k < THREAD_NUMB" and "\<forall>i < k. os_pair E i \<noteq> None" and "os_pair E k = None"
    and "WIN32 L" and "m_libevent_threads s = []"
  shows "\<exists>s'. init_threads L E THREAD_NUMB s = (Inr False, s') \<and>
    length (m_libevent_threads s') = THREAD_NUMB \<and>
    (\<forall>i < THREAD_NUMB. m_libevent_threads s' ! i = None \<longleftrightarrow> k \<le> i) \<and>
    (\<forall>t. Some t \<in> set (m_libevent_threads s') \<longrightarrow> \<not> spThread t)"
proof -
  have p: "\<exists>a b. os_pair E i = Some (a, b)" if "i < k" for i
    using assms(2) that by auto
  have k: "k = 0 \<or> k = 1 \<or> k = 2 \<or> k = 3" using assms(1) four_cases by (simp add: THREAD_NUMB_def)
  note ev = init_threads_def upt_threads prog_simps Let_def THREAD_NUMB_def numeral_eq_Suc
    setup_libevent_thread_def LibeventThread_new_def All_less_Suc
  from k show ?thesis
  proof (elim disjE)
    assume "k = 0"
    then show ?thesis using assms(3-5) by (simp add: ev)
  next
    assume k: "k = 1"
    then obtain a b where "os_pair E 0 = Some (a, b)" using p [of 0] by auto
    then show ?thesis using assms(3-5) k by (simp add: ev)
  next
    assume k: "k = 2"
    then obtain a b c d where "os_pair E 0 = Some (a, b)" "os_pair E 1 = Some (c, d)"
      using p [of 0] p [of 1] by auto
    then show ?thesis using assms(3-5) k by (simp add: ev)
  next
    assume k: "k = 3"
    then obtain a b c d e f where "os_pair E 0 = Some (a, b)" "os_pair E 1 = Some (c, d)"
      "os_pair E 2 = Some (e, f)"
      using p [of 0] p [of 1] p [of 2] by auto
    then show ?thesis using assms(3-5) k by (simp add: ev)
  qed
qed

definition threads_to :: "nat \<Rightarrow> 'd LibEvtServer \<Rightarrow> bool" where
  "threads_to k s \<longleftrightarrow> length (m_libevent_threads s) = THREAD_NUMB \<and>
     (\<forall>i < THREAD_NUMB. m_libevent_threads s ! i = None \<longleftrightarrow> k \<le> i)"

lemma server_new_partial:
  assumes "os_base E" and "k < THREAD_NUMB" and "\<forall>i < k. os_pair E i \<noteq> None"
    and "os_pair E k = None" and "WIN32 L"
  shows "\<exists>s. LibEvtServer_new L E d = (Inr True, s) \<and> threads_to k s \<and>
    (\<forall>t. Some t \<in> set (m_libevent_threads s) \<longrightarrow> \<not> spThread t)"
proof -
  let ?s = "(LibEvtServer_raw (junk_int L 0) d)\<lparr>m_base := True, m_last_thread := -1\<rparr>"
  let ?port = "ReadInteger L (c_str ((GetModuleFullPath L @ PATH_SEP_STRING L) @ ''config.ini''))
     ''Server'' ''port'' 8888"
  obtain s1 where i: "init_threads L E THREAD_NUMB ?s = (Inr False, s1)"
    and ts: "length (m_libevent_threads s1) = THREAD_NUMB"
      "\<forall>i < THREAD_NUMB. m_libevent_threads s1 ! i = None \<longleftrightarrow> k \<le> i"
      "\<forall>t. Some t \<in> set (m_libevent_threads s1) \<longrightarrow> \<not> spThread t"
    using init_threads_partial [OF assms(2-5), of ?s] by (auto simp: LibEvtServer_raw_def)
  obtain r s' where l: "listen E ?port s1 = (Inr r, s')"
    "m_libevent_threads s' = m_libevent_threads s1"
    by (rule listen_fields)
  have "LibEvtServer_new L E d = (Inr True, s')"
    using assms(1) i l(1) by (simp add: LibEvtServer_new_def server_init_def prog_simps Let_def)
  with l(2) ts show ?thesis by (auto simp: threads_to_def)
qed

text \<open>The connections before the missing thread's turn are queued; its own dereferences a null pointer.\<close>

lemma threads_to_update: "threads_to k s \<Longrightarrow> threads_to k (update_thread i f s)"
  by (auto simp: threads_to_def update_thread_nth)

lemma threads_to_cong: "m_libevent_threads s = m_libevent_threads s' \<Longrightarrow> threads_to k s = threads_to k s'"
  by (simp add: threads_to_def)

lemma listener_cb_below:
  assumes s: "threads_to k s" and k: "k < THREAD_NUMB" and j: "j < k" "m_last_thread s = int j - 1"
  shows "\<exists>s'. listener_cb L fd ip s = (Inr (), s') \<and> threads_to k s' \<and> m_last_thread s' = int j"
proof -
  have next_j: "next_thread (int j - 1) = int j" using j k by (simp add: next_thread_mod THREAD_NUMB_def)
  define s1 where "s1 = update_thread j (push_conn \<lparr>item_fd = fd, item_strIP = ip\<rparr>) (s\<lparr>m_last_thread := int j\<rparr>)"
  have s1: "threads_to k s1"
    unfolding s1_def by (rule threads_to_update) (use s in \<open>simp add: threads_to_def\<close>)
  have len: "j < length (m_libevent_threads s)" "j < length (m_libevent_threads s1)"
    using s s1 j(1) k by (simp_all add: threads_to_def)
  obtain t t1 where t: "m_libevent_threads s ! j = Some t" and t1: "m_libevent_threads s1 ! j = Some t1"
    using s s1 j(1) k by (fastforce simp: threads_to_def)
  have q: "listener_queue fd ip s = (Inr j, s1)"
    using t len(1) by (simp add: listener_queue_def prog_simps thread_at_def j(2) next_j s1_def)
  obtain s2 where s2: "notify_thread L j (CHR ''c'') s1 = (Inr (), s2)"
    "m_libevent_threads s2 = m_libevent_threads s1 \<or>
     m_libevent_threads s2 = m_libevent_threads (update_thread j (push_byte (CHR ''c'')) s1)"
    "m_last_thread s2 = m_last_thread s1"
    by (rule notify_thread_Some [OF len(2) t1])
  have "threads_to k s2" using s2(2) s1 threads_to_update [OF s1] threads_to_cong by metis
  with q s2(1,3) show ?thesis by (auto simp: listener_cb_def prog_simps s1_def)
qed

lemma accept_all_below:
  assumes "threads_to k s" and "k < THREAD_NUMB" and "m_last_thread s = int j - 1" and "j + length cs = k"
  shows "\<exists>s'. accept_all L cs s = (Inr (), s') \<and> threads_to k s' \<and> m_last_thread s' = int k - 1"
  using assms
proof (induction cs arbitrary: s j)
  case Nil
  then show ?case by (simp add: prog_simps)
next
  case (Cons c cs)
  obtain s1 where s1: "listener_cb L (fst c) (snd c) s = (Inr (), s1)" "threads_to k s1" "m_last_thread s1 = int j"
    using listener_cb_below [OF Cons.prems(1,2) _ Cons.prems(3)] Cons.prems(4) by fastforce
  from Cons.IH [OF s1(2) Cons.prems(2), of "Suc j"] s1 Cons.prems(4)
  show ?case by (cases c) (simp add: prog_simps)
qed

lemma listener_cb_null:
  assumes "length (m_libevent_threads s) = THREAD_NUMB" and "m_last_thread s = int k - 1"
    and "k < THREAD_NUMB" and "m_libevent_threads s ! k = None"
  shows "fst (listener_cb L fd ip s) = Inl (UB Null_pointer)"
proof -
  have "next_thread (m_last_thread s) = int k"
    using assms(2,3) by (simp add: next_thread_mod THREAD_NUMB_def)
  then show ?thesis
    using assms by (simp add: listener_cb_def listener_queue_def prog_simps thread_at_def)
qed

lemma accept_all_null:
  assumes "threads_to k s" and "k < THREAD_NUMB" and "m_last_thread s = -1" and "length cs = k"
  shows "fst (accept_all L cs s) = Inr ()" and "fst (accept_all L (cs @ [(fd, ip)]) s) = Inl (UB Null_pointer)"
proof -
  have split: "accept_all L (cs @ ds) s = andThen (accept_all L cs) (\<lambda>_. accept_all L ds) s" for cs ds s
    by (induction cs arbitrary: s) (auto simp: prog_simps split: prod.split sum.split)
  obtain s' where s': "accept_all L cs s = (Inr (), s')" "threads_to k s'" "m_last_thread s' = int k - 1"
    using accept_all_below [OF assms(1,2), of 0 cs L] assms(3,4) by auto
  then show "fst (accept_all L cs s) = Inr ()" by simp
  have "fst (listener_cb L fd ip s') = Inl (UB Null_pointer)"
    using s'(2,3) assms(2) by (intro listener_cb_null [of s' k]) (simp_all add: threads_to_def)
  then show "fst (accept_all L (cs @ [(fd, ip)]) s) = Inl (UB Null_pointer)"
    unfolding split by (cases "listener_cb L fd ip s'") (simp add: prog_simps s'(1))
qed

end
