(* ===== verification/NotifyProtocol.thy ===== *)
theory NotifyProtocol
  imports Dispatch
begin

text \<open>
  The accepting thread, the main thread and the four worker threads interleaved. A step is a
  piece of server/server.cpp that runs under one lock or makes one system call: choosing a
  thread and queueing the connection, the \<open>send\<close> after it, one broadcast byte, receiving a
  byte, acting on it, and the two connection callbacks. The invariant ties the bytes to the
  connections waiting in the queues.
\<close>

text \<open>
  \<open>pl_accept\<close> is the thread whose queue has just got a connection and whose byte is still to
  be sent; \<open>pl_held i\<close> is the byte worker \<open>i\<close> has received and not acted on.
\<close>

record 'd pool =
  pl_server :: "'d LibEvtServer"
  pl_accept :: "nat option"
  pl_held :: "nat \<Rightarrow> char option"

definition pool_init :: "('j, 'd) libs \<Rightarrow> os \<Rightarrow> 'd pool \<Rightarrow> bool" where
  "pool_init L E p \<longleftrightarrow>
     os_base E \<and> (\<forall>i < THREAD_NUMB. os_pair E i \<noteq> None) \<and>
     (\<exists>d. LibEvtServer_new L E d = (Inr True, pl_server p)) \<and>
     pl_accept p = None \<and> (\<forall>i. pl_held p i = None)"

text \<open>
  Fields and bytes of a broadcast are separate steps, in any order: more behaviours than the
  code has. A callback runs only for a descriptor the thread serves.
\<close>

inductive pool_step :: "('j, 'd) libs \<Rightarrow> 'd pool \<Rightarrow> 'd pool \<Rightarrow> bool" for L where
  step_accept:
    "pl_accept p = None \<Longrightarrow> listener_queue fd ip (pl_server p) = (Inr i, s') \<Longrightarrow>
     pool_step L p (p\<lparr>pl_server := s', pl_accept := Some i\<rparr>)"
| step_wake:
    "pl_accept p = Some i \<Longrightarrow> notify_thread L i (CHR ''c'') (pl_server p) = (Inr (), s') \<Longrightarrow>
     pool_step L p (p\<lparr>pl_server := s', pl_accept := None\<rparr>)"
| step_class:
    "pool_step L p (p\<lparr>pl_server := (pl_server p)\<lparr>m_strClass := c, m_strCourse := k\<rparr>\<rparr>)"
| step_file:
    "pool_step L p (p\<lparr>pl_server := (pl_server p)\<lparr>m_nType := n, m_strFilePath := f\<rparr>\<rparr>)"
| step_broadcast:
    "c = CHR ''a'' \<or> c = CHR ''b'' \<Longrightarrow> notify_thread L i c (pl_server p) = (Inr (), s') \<Longrightarrow>
     pool_step L p (p\<lparr>pl_server := s'\<rparr>)"
| step_poll:
    "GetConnectDevice L (pl_server p) = (Inr ips, s') \<Longrightarrow> pool_step L p (p\<lparr>pl_server := s'\<rparr>)"
| step_recv:
    "pl_held p i = None \<Longrightarrow> recv_byte i (pl_server p) = (Inr (Some c), s') \<Longrightarrow>
     pool_step L p (p\<lparr>pl_server := s', pl_held := (pl_held p)(i := Some c)\<rparr>)"
| step_handle:
    "pl_held p i = Some c \<Longrightarrow> handle_byte L i c (pl_server p) = (Inr (), s') \<Longrightarrow>
     pool_step L p (p\<lparr>pl_server := s', pl_held := (pl_held p)(i := None)\<rparr>)"
| step_read:
    "pl_held p i = None \<Longrightarrow> thread_at i (pl_server p) = (Inr t, pl_server p) \<Longrightarrow>
     sm_find fd (data_map t) \<noteq> None \<Longrightarrow> conn_readcb L i fd input (pl_server p) = (Inr r, s') \<Longrightarrow>
     pool_step L p (p\<lparr>pl_server := s'\<rparr>)"
| step_event:
    "pl_held p i = None \<Longrightarrow> thread_at i (pl_server p) = (Inr t, pl_server p) \<Longrightarrow>
     sm_find fd (data_map t) \<noteq> None \<Longrightarrow> conn_eventcb i fd (pl_server p) = (Inr (), s') \<Longrightarrow>
     pool_step L p (p\<lparr>pl_server := s'\<rparr>)"

inductive_cases pool_stepE: "pool_step L p q"

section \<open>What the pieces do to the threads\<close>

definition send_fd_of :: "'d LibEvtServer \<Rightarrow> nat \<Rightarrow> int" where
  "send_fd_of s i = (case m_libevent_threads s ! i of None \<Rightarrow> -1 | Some t \<Rightarrow> notfiy_send_fd t)"

text \<open>An update that leaves the queue and the bytes of the thread alone.\<close>

definition quiet :: "(LibeventThread \<Rightarrow> LibeventThread) \<Rightarrow> bool" where
  "quiet f \<longleftrightarrow> (\<forall>t. conn_queue (f t) = conn_queue t \<and> notify_bytes (f t) = notify_bytes t)"

definition threads_become ::
    "'d LibEvtServer \<Rightarrow> nat \<Rightarrow> (LibeventThread \<Rightarrow> LibeventThread) \<Rightarrow> 'd LibEvtServer \<Rightarrow> bool" where
  "threads_become s i f s' \<longleftrightarrow>
     (\<forall>t. notfiy_send_fd (f t) = notfiy_send_fd t) \<and>
     m_libevent_threads s' = m_libevent_threads (update_thread i f s) \<and>
     m_last_thread s' = m_last_thread s"

lemma threads_become_same:
  "m_libevent_threads s' = m_libevent_threads s \<Longrightarrow> m_last_thread s' = m_last_thread s \<Longrightarrow>
   threads_become s i (\<lambda>t. t) s'"
  by (auto simp: threads_become_def update_thread_def option.map_ident list_update_id)

lemma quiet_id [simp]: "quiet (\<lambda>t. t)"
  by (simp add: quiet_def)

lemma in_world_threads:
  "in_world m s = (r, s') \<Longrightarrow>
   m_libevent_threads s' = m_libevent_threads s \<and> m_last_thread s' = m_last_thread s"
  by (auto simp: in_world_def prog_simps split: prod.splits)

lemma notify_thread_become:
  assumes "notify_thread L i c s = (Inr (), s')"
  shows "threads_become s i (\<lambda>t. t) s' \<or> threads_become s i (push_byte c) s'"
    and "\<forall>h. sock_send L h (send_fd_of s i) [c] = 1 \<Longrightarrow> threads_become s i (push_byte c) s'"
    and "\<forall>h. sock_send L h (send_fd_of s i) [c] = -1 \<Longrightarrow> threads_become s i (\<lambda>t. t) s'"
proof -
  obtain t where t: "i < length (m_libevent_threads s)" "m_libevent_threads s ! i = Some t"
    using assms by (auto simp: notify_thread_def prog_simps thread_at_def split: if_splits option.splits)
  obtain s1 where s1: "notify_thread L i c s = (Inr (), s1)"
    "m_libevent_threads s1 = m_libevent_threads s \<or>
     m_libevent_threads s1 = m_libevent_threads (update_thread i (push_byte c) s)"
    "m_last_thread s1 = m_last_thread s"
    "\<forall>h. sock_send L h (notfiy_send_fd t) [c] = 1 \<Longrightarrow>
     m_libevent_threads s1 = m_libevent_threads (update_thread i (push_byte c) s)"
    "\<forall>h. sock_send L h (notfiy_send_fd t) [c] = -1 \<Longrightarrow> m_libevent_threads s1 = m_libevent_threads s"
    by (rule notify_thread_Some [OF t, of L c]) blast
  have "s1 = s'" using s1(1) assms by simp
  with s1 show "threads_become s i (\<lambda>t. t) s' \<or> threads_become s i (push_byte c) s'"
    and "\<forall>h. sock_send L h (send_fd_of s i) [c] = 1 \<Longrightarrow> threads_become s i (push_byte c) s'"
    and "\<forall>h. sock_send L h (send_fd_of s i) [c] = -1 \<Longrightarrow> threads_become s i (\<lambda>t. t) s'"
    using threads_become_same [of s' s i] t(2)
    by (auto simp: threads_become_def send_fd_of_def push_byte_def)
qed

lemma recv_byte_become:
  assumes "recv_byte i s = (Inr (Some c), s')"
  obtains t cs where "i < length (m_libevent_threads s)" "m_libevent_threads s ! i = Some t"
    and "notify_bytes t = c # cs" and "threads_become s i (\<lambda>t. t\<lparr>notify_bytes := cs\<rparr>) s'"
  using assms
  by (auto simp: recv_byte_def prog_simps thread_at_def threads_become_def
      split: if_splits option.splits list.splits)

lemma pop_conn_become:
  assumes "pop_conn i s = (Inr item, s')"
  obtains t q where "i < length (m_libevent_threads s)" "m_libevent_threads s ! i = Some t"
    and "conn_queue t = item # q" and "threads_become s i (\<lambda>t. t\<lparr>conn_queue := q\<rparr>) s'"
  using assms
  by (auto simp: pop_conn_def prog_simps thread_at_def threads_become_def
      split: if_splits option.splits list.splits)

lemma open_conn_become:
  assumes "open_conn L i item s = (Inr (), s')"
  shows "\<exists>f. quiet f \<and> threads_become s i f s'"
proof -
  obtain t where t: "thread_at i s = (Inr t, s)"
    using assms by (auto simp: open_conn_def prog_simps thread_at_def split: if_splits option.splits)
  define w where "w = SetIP (item_strIP item) (SetBev (bufferevent_socket_new L (item_fd item) conn_options)
    (fst (sm_at CServerWorker_new (item_fd item) (data_map t))))"
  define f where "f = (\<lambda>u::LibeventThread. u\<lparr>data_map := sm_put (item_fd item) w (data_map u)\<rparr>)"
  have "in_world (SendSKBJ L w (GetClass (update_thread i f s)) (GetCourse (update_thread i f s)))
      (update_thread i f s) = (Inr (), s')"
    using assms t by (simp add: open_conn_def prog_simps w_def f_def Let_def)
  then have "threads_become s i f s'"
    using in_world_threads by (fastforce simp: threads_become_def f_def)
  moreover have "quiet f" by (simp add: quiet_def f_def)
  ultimately show ?thesis by blast
qed

lemma handle_byte_broadcast:
  assumes "handle_byte L i c s = (Inr (), s')" and "c = CHR ''a'' \<or> c = CHR ''b''"
  shows "threads_become s i (\<lambda>t. t) s'"
proof -
  have "m_libevent_threads s' = m_libevent_threads s \<and> m_last_thread s' = m_last_thread s"
    using assms in_world_threads
    by (fastforce simp: handle_byte_def prog_simps thread_at_def split: if_splits option.splits sum.splits)
  then show ?thesis by (simp add: threads_become_same)
qed

lemma handle_byte_conn:
  assumes "handle_byte L i c s = (Inr (), s')" and "c \<noteq> CHR ''a''" "c \<noteq> CHR ''b''"
  obtains item s1 where "pop_conn i s = (Inr item, s1)" and "open_conn L i item s1 = (Inr (), s')"
  using assms by (auto simp: handle_byte_def prog_simps split: prod.splits sum.splits)

lemma device_list_threads:
  "device_list L is s = (r, s') \<Longrightarrow>
   m_libevent_threads s' = m_libevent_threads s \<and> m_last_thread s' = m_last_thread s"
proof (induction "is" arbitrary: s s' r)
  case Nil
  then show ?case by (simp add: prog_simps)
next
  case (Cons i "is")
  show ?case
  proof (cases "thread_at i s")
    case (Pair r0 s0)
    then have s0: "s0 = s" by (auto simp: thread_at_def split: if_splits option.splits)
    show ?thesis
    proof (cases r0)
      case (Inl e)
      then show ?thesis using Cons.prems Pair s0 by (simp add: prog_simps)
    next
      case (Inr t)
      obtain r1 s1 where w: "in_world (heartbeats L (data_map t)) s = (r1, s1)" by fastforce
      obtain r2 s2 where d: "device_list L is s1 = (r2, s2)" by fastforce
      show ?thesis
        using Cons.prems Cons.IH [OF d] in_world_threads [OF w] Pair s0 Inr w d
        by (auto simp: prog_simps split: sum.splits)
    qed
  qed
qed

lemma poll_threads:
  "GetConnectDevice L s = (Inr ips, s') \<Longrightarrow>
   m_libevent_threads s' = m_libevent_threads s \<and> m_last_thread s' = m_last_thread s"
  by (auto simp: GetConnectDevice_def each_thread_def prog_simps dest: device_list_threads)

lemma conn_readcb_become:
  assumes "conn_readcb L i fd input s = (r, s')" and "thread_at i s = (Inr t, s)"
  shows "\<exists>f. quiet f \<and> threads_become s i f s'"
proof -
  obtain w m where wm: "sm_at CServerWorker_new fd (data_map t) = (w, m)" by fastforce
  obtain r1 w1 d1 where p: "Process L (server_handlers L) (read_chunks input) (w, sv_world s) = (r1, (w1, d1))"
    by (metis prod.exhaust)
  let ?f = "\<lambda>t. t\<lparr>data_map := sm_put fd w1 (data_map t)\<rparr>"
  have "threads_become s i ?f s'"
    using assms wm p by (auto simp: conn_readcb_def prog_simps threads_become_def update_thread_def)
  then show ?thesis by (intro exI [of _ ?f]) (simp add: quiet_def)
qed

lemma conn_eventcb_become:
  assumes "conn_eventcb i fd s = (r, s')" and "thread_at i s = (Inr t, s)"
  shows "\<exists>f. quiet f \<and> threads_become s i f s'"
proof -
  let ?f = "\<lambda>t. t\<lparr>data_map := sm_erase fd (data_map t)\<rparr>"
  show ?thesis
  proof (cases "sm_find fd (data_map t)")
    case None
    then have "threads_become s i (\<lambda>t. t) s'"
      using assms by (intro threads_become_same) (simp_all add: conn_eventcb_def prog_simps)
    then show ?thesis using quiet_id by blast
  next
    case (Some w)
    then have "threads_become s i ?f s'"
      using assms by (auto simp: conn_eventcb_def prog_simps threads_become_def)
    then show ?thesis by (intro exI [of _ ?f]) (simp add: quiet_def)
  qed
qed

text \<open>
  The kinds of steps: the two parts of accepting, a broadcast byte, the two parts of a worker's
  notification, and steps that change nothing but one thread's sessions.
\<close>

lemma pool_step_kinds:
  assumes "pool_step L p q"
  obtains
    (accept) fd ip i s' where "pl_accept p = None" and "listener_queue fd ip (pl_server p) = (Inr i, s')"
      and "q = p\<lparr>pl_server := s', pl_accept := Some i\<rparr>"
  | (wake) i s' where "pl_accept p = Some i" and "notify_thread L i (CHR ''c'') (pl_server p) = (Inr (), s')"
      and "q = p\<lparr>pl_server := s', pl_accept := None\<rparr>"
  | (signal) c i s' where "c = CHR ''a'' \<or> c = CHR ''b''" and "notify_thread L i c (pl_server p) = (Inr (), s')"
      and "q = p\<lparr>pl_server := s'\<rparr>"
  | (recv) i c s' where "pl_held p i = None" and "recv_byte i (pl_server p) = (Inr (Some c), s')"
      and "q = p\<lparr>pl_server := s', pl_held := (pl_held p)(i := Some c)\<rparr>"
  | (handle) i c s' where "pl_held p i = Some c" and "handle_byte L i c (pl_server p) = (Inr (), s')"
      and "q = p\<lparr>pl_server := s', pl_held := (pl_held p)(i := None)\<rparr>"
  | (session) i f s' where "quiet f" and "threads_become (pl_server p) i f s'" and "q = p\<lparr>pl_server := s'\<rparr>"
  using assms
proof cases
  case (step_class c k)
  then show thesis by (intro session [OF quiet_id threads_become_same]) simp_all
next
  case (step_file n f)
  then show thesis by (intro session [OF quiet_id threads_become_same]) simp_all
next
  case (step_poll ips s')
  then show thesis using session [OF quiet_id threads_become_same, of s'] poll_threads by blast
next
  case (step_read i t fd input r s')
  then show thesis using conn_readcb_become session by blast
next
  case (step_event i t fd s')
  then show thesis using conn_eventcb_become session by blast
next
  case (step_accept fd ip i s')
  from step_accept(2,3,1) show thesis by (rule accept)
next
  case (step_wake i s')
  from step_wake(2,3,1) show thesis by (rule wake)
next
  case (step_broadcast c i s')
  from step_broadcast(2,3,1) show thesis by (rule signal)
next
  case (step_recv i c s')
  from step_recv(2,3,1) show thesis by (rule recv)
next
  case (step_handle i c s')
  from step_handle(2,3,1) show thesis by (rule handle)
qed

section \<open>The invariant\<close>

text \<open>A byte other than the two broadcasts makes a worker take a connection.\<close>

definition is_conn :: "char \<Rightarrow> bool" where
  "is_conn c \<longleftrightarrow> c \<noteq> CHR ''a'' \<and> c \<noteq> CHR ''b''"

definition bytes_of :: "'d LibEvtServer \<Rightarrow> nat \<Rightarrow> char list" where
  "bytes_of s i = (case m_libevent_threads s ! i of None \<Rightarrow> [] | Some t \<Rightarrow> notify_bytes t)"

text \<open>
  The promises to take a connection: bytes under way, the byte in the worker's hand, and the
  byte the accepting thread is about to send.
\<close>

definition conn_tokens :: "'d pool \<Rightarrow> nat \<Rightarrow> nat" where
  "conn_tokens p i =
     length (filter is_conn (bytes_of (pl_server p) i)) +
     (case pl_held p i of None \<Rightarrow> 0 | Some c \<Rightarrow> if is_conn c then 1 else 0) +
     (if pl_accept p = Some i then 1 else 0)"

text \<open>
  The notification sockets take every byte, or refuse every byte. \<open>send\<close> on the write end of
  a pipe is refused (\<open>ENOTSOCK\<close>), and pipes are what the code makes where it is not built
  for Windows.
\<close>

definition notify_ok :: "('j, 'd) libs \<Rightarrow> os \<Rightarrow> bool" where
  "notify_ok L E \<longleftrightarrow>
     (\<forall>i < THREAD_NUMB. \<forall>h c. sock_send L h (snd (the (os_pair E i))) [c] = 1)"

definition notify_dead :: "('j, 'd) libs \<Rightarrow> os \<Rightarrow> bool" where
  "notify_dead L E \<longleftrightarrow>
     (\<forall>i < THREAD_NUMB. \<forall>h c. sock_send L h (snd (the (os_pair E i))) [c] = -1)"

definition pool_inv :: "('j, 'd) libs \<Rightarrow> os \<Rightarrow> 'd pool \<Rightarrow> bool" where
  "pool_inv L E p \<longleftrightarrow>
     threads_up (pl_server p) \<and> -1 \<le> m_last_thread (pl_server p) \<and>
     (\<forall>i. pl_accept p = Some i \<longrightarrow> i < THREAD_NUMB) \<and>
     (\<forall>i < THREAD_NUMB. send_fd_of (pl_server p) i = snd (the (os_pair E i))) \<and>
     (\<forall>i < THREAD_NUMB.
        conn_tokens p i \<le> length (queue_of (pl_server p) i) \<and>
        (notify_ok L E \<longrightarrow> conn_tokens p i = length (queue_of (pl_server p) i)))"

text \<open>How an update of one thread shows in the queues and the bytes.\<close>

lemma become_up:
  assumes "threads_become s i f s'" and "threads_up s"
  shows "threads_up s'" and "m_last_thread s' = m_last_thread s"
    and "j < THREAD_NUMB \<Longrightarrow> send_fd_of s' j = send_fd_of s j"
proof -
  show "threads_up s'" and "m_last_thread s' = m_last_thread s"
    using assms threads_up_update [OF assms(2), of i f] threads_up_cong
    by (auto simp: threads_become_def)
  show "send_fd_of s' j = send_fd_of s j" if j: "j < THREAD_NUMB"
    using threads_up_nth [OF assms(2) j] assms j
    by (auto simp: threads_become_def send_fd_of_def update_thread_nth threads_up_def)
qed

lemma become_view:
  assumes "threads_become s i f s'" and "threads_up s" and "j < THREAD_NUMB"
    and "m_libevent_threads s ! j = Some t"
  shows "queue_of s' j = (if i = j then conn_queue (f t) else conn_queue t)"
    and "bytes_of s' j = (if i = j then notify_bytes (f t) else notify_bytes t)"
    and "queue_of s j = conn_queue t" and "bytes_of s j = notify_bytes t"
  using assms by (auto simp: threads_become_def queue_of_def bytes_of_def update_thread_nth threads_up_def)

lemma become_quiet:
  assumes "threads_become s i f s'" and "threads_up s" and "j < THREAD_NUMB" and "quiet f"
  shows "queue_of s' j = queue_of s j" and "bytes_of s' j = bytes_of s j"
proof -
  obtain t where t: "m_libevent_threads s ! j = Some t" using threads_up_nth [OF assms(2,3)] by blast
  show "queue_of s' j = queue_of s j" and "bytes_of s' j = bytes_of s j"
    using become_view [OF assms(1-3) t] assms(4) by (auto simp: quiet_def)
qed

lemma become_push_byte:
  assumes "threads_become s i (push_byte c) s'" and "threads_up s" and "j < THREAD_NUMB"
  shows "queue_of s' j = queue_of s j"
    and "bytes_of s' j = bytes_of s j @ (if i = j then [c] else [])"
proof -
  obtain t where t: "m_libevent_threads s ! j = Some t" using threads_up_nth [OF assms(2,3)] by blast
  show "queue_of s' j = queue_of s j"
    and "bytes_of s' j = bytes_of s j @ (if i = j then [c] else [])"
    using become_view [OF assms t] by (auto simp: push_byte_def)
qed

text \<open>A step that touches neither queues nor bytes nor the two local states keeps it.\<close>

lemma pool_inv_quiet:
  assumes "pool_inv L E p" and "threads_become (pl_server p) i f s'" and "quiet f"
  shows "pool_inv L E (p\<lparr>pl_server := s'\<rparr>)"
proof -
  have up: "threads_up (pl_server p)" using assms(1) by (simp add: pool_inv_def)
  show ?thesis
    using assms(1) become_up [OF assms(2) up] become_quiet [OF assms(2) up _ assms(3)]
    by (simp add: pool_inv_def conn_tokens_def)
qed

lemma pool_inv_init:
  assumes "pool_init L E p"
  shows "pool_inv L E p"
proof -
  obtain d where E: "os_base E" "\<forall>i < THREAD_NUMB. os_pair E i \<noteq> None"
    and n: "LibEvtServer_new L E d = (Inr True, pl_server p)"
    using assms by (auto simp: pool_init_def)
  have up: "threads_up (pl_server p)" "m_last_thread (pl_server p) = -1"
    "m_libevent_threads (pl_server p) = map (\<lambda>i. Some (started_thread E i)) [0..<THREAD_NUMB]"
    using server_new_up [OF E, of L d] n by auto
  have "queue_of (pl_server p) i = []" "bytes_of (pl_server p) i = []"
    "send_fd_of (pl_server p) i = snd (the (os_pair E i))" if "i < THREAD_NUMB" for i
    using that by (simp_all add: queue_of_def bytes_of_def send_fd_of_def up(3))
  with up(1,2) assms show ?thesis by (simp add: pool_inv_def conn_tokens_def pool_init_def)
qed

lemma pool_inv_accept:
  assumes "pool_inv L E p" and "pl_accept p = None"
    and "listener_queue fd ip (pl_server p) = (Inr i, s')"
  shows "pool_inv L E (p\<lparr>pl_server := s', pl_accept := Some i\<rparr>)"
proof -
  have up: "threads_up (pl_server p)" and last: "-1 \<le> m_last_thread (pl_server p)"
    using assms(1) by (simp_all add: pool_inv_def)
  let ?c = "next_thread (m_last_thread (pl_server p))"
  have i: "i = nat ?c" and s': "threads_up s'" "m_last_thread s' = ?c"
    "m_libevent_threads s' = m_libevent_threads (update_thread i (push_conn (item_of (fd, ip))) (pl_server p))"
    using listener_queue_up [OF up last, of fd ip] assms(3) by auto
  have c: "0 \<le> ?c" "i < THREAD_NUMB"
    using next_thread_range [OF last] i by (auto simp: THREAD_NUMB_def)
  have q: "queue_of s' j = queue_of (pl_server p) j @ (if i = j then [item_of (fd, ip)] else [])"
    and b: "bytes_of s' j = bytes_of (pl_server p) j"
    and fd: "send_fd_of s' j = send_fd_of (pl_server p) j" if j: "j < THREAD_NUMB" for j
    using queue_of_push_conn [OF up j, of i] s'(3) threads_up_nth [OF up j] up j
    by (auto simp: queue_of_def bytes_of_def send_fd_of_def update_thread_nth threads_up_def push_conn_def)
  show ?thesis
    using assms(1,2) s'(1,2) c q b fd by (simp add: pool_inv_def conn_tokens_def)
qed

lemma pool_inv_wake:
  assumes "pool_inv L E p" and "pl_accept p = Some i"
    and "notify_thread L i (CHR ''c'') (pl_server p) = (Inr (), s')"
  shows "pool_inv L E (p\<lparr>pl_server := s', pl_accept := None\<rparr>)"
proof -
  let ?s = "pl_server p"
  have up: "threads_up ?s" using assms(1) by (simp add: pool_inv_def)
  have "i < THREAD_NUMB" "send_fd_of ?s i = snd (the (os_pair E i))"
    using assms(1,2) by (auto simp: pool_inv_def)
  note b = this notify_thread_become [OF assms(3)]
  show ?thesis
  proof (cases "threads_become ?s i (push_byte (CHR ''c'')) s'")
    case True
    have "conn_tokens (p\<lparr>pl_server := s', pl_accept := None\<rparr>) j = conn_tokens p j"
      if "j < THREAD_NUMB" for j
      using become_push_byte(2) [OF True up that] assms(2) by (simp add: conn_tokens_def is_conn_def)
    then show ?thesis
      using assms(1) become_up [OF True up] become_push_byte(1) [OF True up]
      by (simp add: pool_inv_def)
  next
    case False
    then have id: "threads_become ?s i (\<lambda>t. t) s'" and no: "\<not> notify_ok L E"
      using b by (auto simp: notify_ok_def)
    show ?thesis
      using assms(1,2) no become_up [OF id up] become_quiet [OF id up _ quiet_id]
      by (auto simp: pool_inv_def conn_tokens_def split: if_splits)
  qed
qed

lemma pool_inv_broadcast:
  assumes "pool_inv L E p" and "c = CHR ''a'' \<or> c = CHR ''b''"
    and "notify_thread L i c (pl_server p) = (Inr (), s')"
  shows "pool_inv L E (p\<lparr>pl_server := s'\<rparr>)"
proof -
  let ?s = "pl_server p"
  have up: "threads_up ?s" using assms(1) by (simp add: pool_inv_def)
  have no: "\<not> is_conn c" using assms(2) by (auto simp: is_conn_def)
  from notify_thread_become(1) [OF assms(3)] show ?thesis
  proof
    assume "threads_become ?s i (\<lambda>t. t) s'"
    then show ?thesis by (rule pool_inv_quiet [OF assms(1) _ quiet_id])
  next
    assume t: "threads_become ?s i (push_byte c) s'"
    show ?thesis
      using assms(1) no become_up [OF t up] become_push_byte [OF t up]
      by (simp add: pool_inv_def conn_tokens_def)
  qed
qed

lemma pool_inv_recv:
  assumes "pool_inv L E p" and "pl_held p i = None"
    and "recv_byte i (pl_server p) = (Inr (Some c), s')"
  shows "pool_inv L E (p\<lparr>pl_server := s', pl_held := (pl_held p)(i := Some c)\<rparr>)"
proof -
  let ?s = "pl_server p"
  have up: "threads_up ?s" using assms(1) by (simp add: pool_inv_def)
  obtain t cs where t: "i < length (m_libevent_threads ?s)" "m_libevent_threads ?s ! i = Some t"
    "notify_bytes t = c # cs" and b: "threads_become ?s i (\<lambda>t. t\<lparr>notify_bytes := cs\<rparr>) s'"
    by (rule recv_byte_become [OF assms(3)])
  have i: "i < THREAD_NUMB" using t(1) up by (simp add: threads_up_def)
  have v: "queue_of s' j = queue_of ?s j"
      "bytes_of ?s j = (if i = j then c # bytes_of s' j else bytes_of s' j)" if j: "j < THREAD_NUMB" for j
  proof -
    obtain u where u: "m_libevent_threads ?s ! j = Some u" using threads_up_nth [OF up j] by blast
    show "queue_of s' j = queue_of ?s j"
      "bytes_of ?s j = (if i = j then c # bytes_of s' j else bytes_of s' j)"
      using become_view [OF b up j u] t u by auto
  qed
  have "conn_tokens (p\<lparr>pl_server := s', pl_held := (pl_held p)(i := Some c)\<rparr>) j = conn_tokens p j"
    if "j < THREAD_NUMB" for j
    using v(2) [OF that] assms(2) by (simp add: conn_tokens_def)
  then show ?thesis
    using assms(1) become_up [OF b up] v(1) by (simp add: pool_inv_def)
qed

lemma pool_inv_handle:
  assumes "pool_inv L E p" and "pl_held p i = Some c"
    and "handle_byte L i c (pl_server p) = (Inr (), s')"
  shows "pool_inv L E (p\<lparr>pl_server := s', pl_held := (pl_held p)(i := None)\<rparr>)"
proof (cases "is_conn c")
  case False
  then have "c = CHR ''a'' \<or> c = CHR ''b''" by (auto simp: is_conn_def)
  then have "pool_inv L E (p\<lparr>pl_server := s'\<rparr>)"
    using handle_byte_broadcast [OF assms(3)] pool_inv_quiet [OF assms(1) _ quiet_id] by blast
  with False assms(2) show ?thesis by (auto simp: pool_inv_def conn_tokens_def)
next
  case True
  let ?s = "pl_server p"
  have up: "threads_up ?s" using assms(1) by (simp add: pool_inv_def)
  obtain item s1 where pop: "pop_conn i ?s = (Inr item, s1)" and op: "open_conn L i item s1 = (Inr (), s')"
    using handle_byte_conn [OF assms(3)] True by (auto simp: is_conn_def)
  obtain t q where t: "i < length (m_libevent_threads ?s)" "m_libevent_threads ?s ! i = Some t"
    "conn_queue t = item # q" and b: "threads_become ?s i (\<lambda>t. t\<lparr>conn_queue := q\<rparr>) s1"
    by (rule pop_conn_become [OF pop])
  have up1: "threads_up s1" by (rule become_up(1) [OF b up])
  obtain f where f: "quiet f" "threads_become s1 i f s'" using open_conn_become [OF op] by blast
  have v: "length (queue_of ?s j) = length (queue_of s' j) + (if i = j then 1 else 0)"
      "bytes_of s' j = bytes_of ?s j" if j: "j < THREAD_NUMB" for j
  proof -
    obtain u where u: "m_libevent_threads ?s ! j = Some u" using threads_up_nth [OF up j] by blast
    show "length (queue_of ?s j) = length (queue_of s' j) + (if i = j then 1 else 0)"
      "bytes_of s' j = bytes_of ?s j"
      using become_view [OF b up j u] become_quiet [OF f(2) up1 j f(1)] t u by auto
  qed
  have k: "conn_tokens p j =
      conn_tokens (p\<lparr>pl_server := s', pl_held := (pl_held p)(i := None)\<rparr>) j + (if i = j then 1 else 0)"
    if "j < THREAD_NUMB" for j
    using v(2) [OF that] assms(2) True by (auto simp: conn_tokens_def)
  show ?thesis
    using assms(1) become_up [OF b up] become_up [OF f(2) up1] v(1) k
    by (simp add: pool_inv_def)
qed

lemma pool_inv_step:
  assumes inv: "pool_inv L E p" and st: "pool_step L p q"
  shows "pool_inv L E q"
  using st
proof (cases rule: pool_step_kinds)
  case (accept fd ip i s')
  then show ?thesis using pool_inv_accept [OF inv] by simp
next
  case (wake i s')
  then show ?thesis using pool_inv_wake [OF inv] by simp
next
  case (signal c i s')
  then show ?thesis using pool_inv_broadcast [OF inv] by simp
next
  case (recv i c s')
  then show ?thesis using pool_inv_recv [OF inv] by simp
next
  case (handle i c s')
  then show ?thesis using pool_inv_handle [OF inv] by simp
next
  case (session i f s')
  then show ?thesis using pool_inv_quiet [OF inv] by simp
qed

interpretation pool: invariant_system "pool_init L E" "pool_step L" "pool_inv L E"
  for L :: "('j, 'd) libs" and E :: os
  by unfold_locales (rule pool_inv_init, assumption, rule pool_inv_step)

section \<open>Sockets that refuse every byte\<close>

text \<open>Then nothing is ever received, so no worker ever takes a connection.\<close>

definition no_data :: "'d LibEvtServer \<Rightarrow> nat \<Rightarrow> bool" where
  "no_data s i \<longleftrightarrow> (case m_libevent_threads s ! i of None \<Rightarrow> True | Some t \<Rightarrow> data_map t = [])"

definition silent_inv :: "('j, 'd) libs \<Rightarrow> os \<Rightarrow> 'd pool \<Rightarrow> bool" where
  "silent_inv L E p \<longleftrightarrow>
     pool_inv L E p \<and>
     (notify_dead L E \<longrightarrow>
        (\<forall>i < THREAD_NUMB. bytes_of (pl_server p) i = [] \<and> no_data (pl_server p) i) \<and>
        (\<forall>i. pl_held p i = None))"

lemma silent_same:
  assumes "silent_inv L E p" and "pool_inv L E q"
    and "m_libevent_threads (pl_server q) = m_libevent_threads (pl_server p)"
    and "pl_held q = pl_held p"
  shows "silent_inv L E q"
  using assms by (auto simp: silent_inv_def bytes_of_def no_data_def)

lemma silent_init:
  assumes "pool_init L E p"
  shows "silent_inv L E p"
proof -
  obtain d where E: "os_base E" "\<forall>i < THREAD_NUMB. os_pair E i \<noteq> None"
    and n: "LibEvtServer_new L E d = (Inr True, pl_server p)"
    using assms by (auto simp: pool_init_def)
  have "m_libevent_threads (pl_server p) = map (\<lambda>i. Some (started_thread E i)) [0..<THREAD_NUMB]"
    using server_new_up [OF E, of L d] n by auto
  then show ?thesis
    using pool_inv_init [OF assms] assms
    by (simp add: silent_inv_def bytes_of_def no_data_def pool_init_def)
qed

lemma notify_dead_same:
  assumes "notify_dead L E" and "pool_inv L E p" and "notify_thread L i c (pl_server p) = (Inr (), s')"
  shows "m_libevent_threads s' = m_libevent_threads (pl_server p)"
proof -
  let ?s = "pl_server p"
  have "i < length (m_libevent_threads ?s)"
    using assms(3) by (auto simp: notify_thread_def prog_simps thread_at_def split: if_splits option.splits)
  then have "i < THREAD_NUMB" using assms(2) by (simp add: pool_inv_def threads_up_def)
  then have "threads_become ?s i (\<lambda>t. t) s'"
    using assms(1,2) notify_thread_become(3) [OF assms(3)] by (simp add: pool_inv_def notify_dead_def)
  then show ?thesis by (simp add: threads_become_def update_thread_def option.map_ident)
qed

lemma silent_accept:
  assumes "silent_inv L E p" and "notify_dead L E"
    and "listener_queue fd ip (pl_server p) = (Inr i, s')" and j: "j < THREAD_NUMB"
  shows "bytes_of s' j = [] \<and> no_data s' j"
proof -
  have up: "threads_up (pl_server p)" "-1 \<le> m_last_thread (pl_server p)"
    using assms(1) by (simp_all add: silent_inv_def pool_inv_def)
  then have s': "m_libevent_threads s' = m_libevent_threads
      (update_thread i (push_conn (item_of (fd, ip))) (pl_server p))"
    using listener_queue_up [OF up, of fd ip] assms(3) by auto
  have "bytes_of (pl_server p) j = []" "no_data (pl_server p) j"
    using assms(1,2) j by (auto simp: silent_inv_def)
  then show ?thesis
    using s' threads_up_nth [OF up(1) j] up(1) j
    by (auto simp: bytes_of_def no_data_def update_thread_nth threads_up_def push_conn_def)
qed

lemma silent_step:
  assumes inv: "silent_inv L E p" and st: "pool_step L p q"
  shows "silent_inv L E q"
proof -
  have pi: "pool_inv L E p" using inv by (simp add: silent_inv_def)
  have qi: "pool_inv L E q" by (rule pool_inv_step [OF pi st])
  have up: "threads_up (pl_server p)" using pi by (simp add: pool_inv_def)
  show ?thesis
  proof (cases "notify_dead L E")
    case False
    with qi show ?thesis by (simp add: silent_inv_def)
  next
    case dead: True
    then have e: "bytes_of (pl_server p) i = []" "no_data (pl_server p) i" if "i < THREAD_NUMB" for i
      using inv that by (auto simp: silent_inv_def)
    have held: "pl_held p i = None" for i using inv dead by (simp add: silent_inv_def)
    have none: "data_map t = [] \<and> notify_bytes t = []" if "thread_at i (pl_server p) = (Inr t, s0)" for i t s0
      using thread_at_InrD [OF that] e [of i] up by (auto simp: threads_up_def bytes_of_def no_data_def)
    from st show ?thesis
    proof cases
      case (step_accept fd ip i s')
      then show ?thesis using silent_accept [OF inv dead] qi held by (simp add: silent_inv_def)
    next
      case (step_wake i s')
      then show ?thesis using silent_same [OF inv qi] notify_dead_same [OF dead pi] by simp
    next
      case (step_class c k)
      then show ?thesis using silent_same [OF inv qi] by simp
    next
      case (step_file n f)
      then show ?thesis using silent_same [OF inv qi] by simp
    next
      case (step_broadcast c i s')
      then show ?thesis using silent_same [OF inv qi] notify_dead_same [OF dead pi] by simp
    next
      case (step_poll ips s')
      then show ?thesis using silent_same [OF inv qi] poll_threads by fastforce
    next
      case (step_recv i c s')
      then show ?thesis
        using none by (auto simp: recv_byte_def andThen_def ret_def
            split: prod.splits sum.splits list.splits)
    next
      case (step_handle i c s')
      then show ?thesis using held by simp
    next
      case (step_read i t fd input r s')
      then show ?thesis using none by simp
    next
      case (step_event i t fd s')
      then show ?thesis using none by simp
    qed
  qed
qed

interpretation silent: invariant_system "pool_init L E" "pool_step L" "silent_inv L E"
  for L :: "('j, 'd) libs" and E :: os
  by unfold_locales (rule silent_init, assumption, rule silent_step)

section \<open>What reachable states look like\<close>

lemma reachable_pop:
  assumes "reachable (pool_init L E) (pool_step L) p"
    and "i < THREAD_NUMB" and "pl_held p i = Some c" and "is_conn c"
  shows "\<exists>item s'. pop_conn i (pl_server p) = (Inr item, s')"
proof -
  let ?s = "pl_server p"
  have inv: "pool_inv L E p" by (rule pool.reachable_inv [OF assms(1)])
  then have up: "threads_up ?s" by (simp add: pool_inv_def)
  obtain t where t: "m_libevent_threads ?s ! i = Some t" using threads_up_nth [OF up assms(2)] by blast
  have "1 \<le> conn_tokens p i" using assms(3,4) by (simp add: conn_tokens_def)
  also have "conn_tokens p i \<le> length (queue_of ?s i)"
    using inv assms(2) by (simp add: pool_inv_def)
  finally obtain item q where "conn_queue t = item # q"
    using t by (cases "conn_queue t") (simp_all add: queue_of_def)
  then show ?thesis
    using thread_at_Some [of i ?s t] t up assms(2) by (simp add: pop_conn_def prog_simps threads_up_def)
qed

lemma reachable_idle:
  assumes "reachable (pool_init L E) (pool_step L) p" and "notify_ok L E"
    and "i < THREAD_NUMB" and "bytes_of (pl_server p) i = []" and "pl_held p i = None"
    and "pl_accept p \<noteq> Some i"
  shows "queue_of (pl_server p) i = []"
proof -
  have "conn_tokens p i = 0" using assms(4-6) by (simp add: conn_tokens_def)
  then show ?thesis
    using pool.reachable_inv [OF assms(1)] assms(2,3) by (simp add: pool_inv_def)
qed

end
