(* ===== verification/ServerProps.thy ===== *)
theory ServerProps
  imports NotifyProtocol DemoLibs Preserve
begin

text \<open>
  Properties of the server: starting, handing connections to the worker threads, the worker of
  a connection, and the callbacks.
\<close>

section \<open>Samples for the witnesses\<close>

definition sample_os :: os where
  "sample_os = \<lparr>os_base = True, os_pair = (\<lambda>i. Some (10 + int i, 20 + int i)),
     os_thread_base = (\<lambda>i. int i), os_bind = (\<lambda>opts p. True)\<rparr>"

text \<open>The third pair of descriptors cannot be made.\<close>

definition short_os :: os where
  "short_os = sample_os\<lparr>os_pair := (\<lambda>i. if i < 2 then Some (10 + int i, 20 + int i) else None)\<rparr>"

definition windows_libs :: "(jval, demo_db) libs" where
  "windows_libs = (server_demo [])\<lparr>WIN32 := True\<rparr>"

definition dead_libs :: "(jval, demo_db) libs" where
  "dead_libs = demo_libs True [] True [] send_never"

definition up_server :: "(jval, demo_db) libs \<Rightarrow> demo_db LibEvtServer" where
  "up_server L = snd (LibEvtServer_new L sample_os (demo_world Map.empty))"

definition start_pool :: "(jval, demo_db) libs \<Rightarrow> demo_db pool" where
  "start_pool L = \<lparr>pl_server = up_server L, pl_accept = None, pl_held = (\<lambda>i. None)\<rparr>"

lemma sample_os_ok: "os_base sample_os" "\<forall>i < THREAD_NUMB. os_pair sample_os i \<noteq> None"
  by (simp_all add: sample_os_def)

lemma start_pool_init: "pool_init L sample_os (start_pool L)"
proof -
  have "\<exists>s. LibEvtServer_new L sample_os (demo_world Map.empty) = (Inr True, s)"
    using server_new_up [OF sample_os_ok, of L "demo_world Map.empty"] by blast
  then show ?thesis using sample_os_ok by (auto simp: pool_init_def start_pool_def up_server_def)
qed

lemma up_server_threads:
  "threads_up (up_server L)" "m_last_thread (up_server L) = -1"
  "m_libevent_threads (up_server L) = map (\<lambda>i. Some (started_thread sample_os i)) [0..<THREAD_NUMB]"
  using server_new_up [OF sample_os_ok, of L "demo_world Map.empty"] by (auto simp: up_server_def)

text \<open>One accepted connection, announced, and its byte received by the first worker.\<close>

lemma listener_queue_up_server:
  "\<exists>s'. listener_queue fd ip (up_server L) = (Inr 0, s') \<and> threads_up s' \<and>
     m_libevent_threads s' = m_libevent_threads (update_thread 0 (push_conn (item_of (fd, ip))) (up_server L))"
  using listener_queue_up [of "up_server L" fd ip] up_server_threads [of L]
  by (auto simp: next_thread_mod)

lemma held_pool:
  "\<exists>p. reachable (pool_init (server_demo []) sample_os) (pool_step (server_demo [])) p \<and>
     pl_held p 0 = Some (CHR ''c'')"
proof -
  let ?L = "server_demo []" and ?p0 = "start_pool (server_demo [])"
  obtain s1 where s1: "listener_queue 40 ''10.0.0.1'' (up_server ?L) = (Inr 0, s1)" "threads_up s1"
    "m_libevent_threads s1 =
       m_libevent_threads (update_thread 0 (push_conn (item_of (40, ''10.0.0.1''))) (up_server ?L))"
    using listener_queue_up_server by blast
  let ?p1 = "?p0\<lparr>pl_server := s1, pl_accept := Some 0\<rparr>"
  have r0: "reachable (pool_init ?L sample_os) (pool_step ?L) ?p0"
    by (rule reachable_init) (rule start_pool_init)
  have "pool_step ?L ?p0 ?p1"
    using s1(1) by (intro step_accept) (simp_all add: start_pool_def)
  with r0 have r1: "reachable (pool_init ?L sample_os) (pool_step ?L) ?p1" by (rule reachable_step)
  have zero: "0 < THREAD_NUMB" by (simp add: THREAD_NUMB_def)
  obtain t where t: "m_libevent_threads s1 ! 0 = Some t" using threads_up_nth [OF s1(2) zero] by blast
  have len: "0 < length (m_libevent_threads s1)" using s1(2) zero by (simp add: threads_up_def)
  obtain s2 where s2: "notify_thread ?L 0 (CHR ''c'') s1 = (Inr (), s2)"
    "m_libevent_threads s2 = m_libevent_threads (update_thread 0 (push_byte (CHR ''c'')) s1)"
    by (rule notify_thread_Some [OF len t, of ?L "CHR ''c''"]) (simp add: demo_libs_def send_whole_def)
  let ?p2 = "?p1\<lparr>pl_server := s2, pl_accept := None\<rparr>"
  have "pool_step ?L ?p1 ?p2" using s2(1) by (intro step_wake) simp_all
  with r1 have r2: "reachable (pool_init ?L sample_os) (pool_step ?L) ?p2" by (rule reachable_step)
  have t2: "m_libevent_threads s2 ! 0 = Some (push_byte (CHR ''c'') t)"
    using s2(2) t len by (simp add: update_thread_nth)
  have nb: "notify_bytes t = []"
    using t s1(3) up_server_threads(3) [of ?L] zero
    by (auto simp: update_thread_def push_conn_def nth_list_update)
  have len2: "0 < length (m_libevent_threads s2)" using s2(2) len by simp
  obtain s3 where "recv_byte 0 s2 = (Inr (Some (CHR ''c'')), s3)"
    using thread_at_Some [OF len2 t2] nb
    by (simp add: recv_byte_def prog_simps push_byte_def)
  then have "pool_step ?L ?p2 (?p2\<lparr>pl_server := s3, pl_held := (pl_held ?p2)(0 := Some (CHR ''c''))\<rparr>)"
    by (intro step_recv) (simp_all add: start_pool_def)
  with r2 have "reachable (pool_init ?L sample_os) (pool_step ?L)
      (?p2\<lparr>pl_server := s3, pl_held := (pl_held ?p2)(0 := Some (CHR ''c''))\<rparr>)"
    by (rule reachable_step)
  then show ?thesis by (intro exI conjI) (assumption, simp)
qed

section \<open>Handing out connections\<close>

text \<open>After a successful start, accepting connections one after the other puts the n-th of them into
  the queue of thread \<open>n mod 4\<close>, in order, and never fails, whether or not the threads could be
  notified.\<close>

lemma connections_round_robin:
  assumes "os_base E" and "\<forall>i < THREAD_NUMB. os_pair E i \<noteq> None"
  shows "\<exists>s s'. LibEvtServer_new L E d = (Inr True, s) \<and> accept_all L cs s = (Inr (), s') \<and>
    (\<forall>j < THREAD_NUMB. queue_of s' j = map item_of (nths cs {n. n mod THREAD_NUMB = j}))"
proof -
  obtain s where s: "LibEvtServer_new L E d = (Inr True, s)" "threads_up s" "m_last_thread s = -1"
    "m_libevent_threads s = map (\<lambda>i. Some (started_thread E i)) [0..<THREAD_NUMB]"
    using server_new_up [OF assms, of L d] by blast
  have "next_thread (m_last_thread s) = int (0 mod THREAD_NUMB)" by (simp add: s(3) next_thread_mod)
  then obtain s' where s': "accept_all L cs s = (Inr (), s')"
    "\<forall>j < THREAD_NUMB. queue_of s' j =
       queue_of s j @ map item_of (nths cs {n. (0 + n) mod THREAD_NUMB = j})"
    using accept_all_up [OF s(2), of 0 L cs] s(3) by auto
  have "queue_of s j = []" if "j < THREAD_NUMB" for j using that by (simp add: queue_of_def s(4))
  with s(1) s' show ?thesis by auto
qed

text \<open>C19: in every interleaving of the accepting thread, broadcasts, connection callbacks and the worker
  threads, a worker that has received a connection byte finds a connection in its queue:
  \<open>front\<close> and \<open>pop\<close> are never called on an empty queue.\<close>

theorem pop_never_empty:
  assumes "reachable (pool_init L E) (pool_step L) p"
    and "i < THREAD_NUMB" and "pl_held p i = Some c" and "is_conn c"
  shows "\<exists>item s'. pop_conn i (pl_server p) = (Inr item, s')"
  by (rule reachable_pop [OF assms])

theorem pop_never_empty_witness:
  "\<exists>p item s'. pl_held p 0 = Some (CHR ''c'') \<and> pop_conn 0 (pl_server (p :: demo_db pool)) = (Inr item, s')"
proof -
  obtain p where p: "reachable (pool_init (server_demo []) sample_os) (pool_step (server_demo [])) p"
    "pl_held p 0 = Some (CHR ''c'')"
    using held_pool by blast
  show ?thesis
    using pop_never_empty [OF p(1) _ p(2)] p(2) by (fastforce simp: THREAD_NUMB_def is_conn_def)
qed

text \<open>C20: when the notification sockets take every byte, no wake-up is lost: a worker with no byte
  under way, none in its hand and none about to be sent to it has no connection waiting.\<close>

theorem no_lost_wakeup:
  assumes "reachable (pool_init L E) (pool_step L) p" and "notify_ok L E"
    and "i < THREAD_NUMB" and "bytes_of (pl_server p) i = []" and "pl_held p i = None"
    and "pl_accept p \<noteq> Some i"
  shows "queue_of (pl_server p) i = []"
  by (rule reachable_idle [OF assms])

theorem no_lost_wakeup_witness:
  "queue_of (pl_server (start_pool (server_demo []))) 3 = []"
proof (rule no_lost_wakeup)
  show "reachable (pool_init (server_demo []) sample_os) (pool_step (server_demo [])) (start_pool (server_demo []))"
    by (rule reachable_init) (rule start_pool_init)
  show "notify_ok (server_demo []) sample_os"
    by (simp add: notify_ok_def demo_libs_def send_whole_def)
  show "bytes_of (pl_server (start_pool (server_demo []))) 3 = []"
    using up_server_threads(3) [of "server_demo []"]
    by (simp add: start_pool_def bytes_of_def THREAD_NUMB_def)
qed (simp_all add: start_pool_def THREAD_NUMB_def)

text \<open>C31: when the descriptors refuse every byte, as \<open>send\<close> on the pipes of the non-Windows
  build does, no reachable state has a connection that any thread serves.\<close>

theorem refused_bytes_serve_nobody:
  assumes "reachable (pool_init L E) (pool_step L) p" and "notify_dead L E" and "i < THREAD_NUMB"
  shows "no_data (pl_server p) i \<and> bytes_of (pl_server p) i = [] \<and> pl_held p i = None"
  using silent.reachable_inv [OF assms(1)] assms(2,3) by (auto simp: silent_inv_def)

theorem refused_bytes_serve_nobody_witness:
  "\<exists>p. pl_accept p = Some 0 \<and> no_data (pl_server (p :: demo_db pool)) 0 \<and> bytes_of (pl_server p) 0 = []"
proof -
  let ?p0 = "start_pool dead_libs"
  obtain s1 where s1: "listener_queue 40 ''10.0.0.1'' (up_server dead_libs) = (Inr 0, s1)"
    using listener_queue_up_server by blast
  let ?p1 = "?p0\<lparr>pl_server := s1, pl_accept := Some 0\<rparr>"
  have r0: "reachable (pool_init dead_libs sample_os) (pool_step dead_libs) ?p0"
    by (rule reachable_init) (rule start_pool_init)
  have "pool_step dead_libs ?p0 ?p1"
    using s1 by (intro step_accept) (simp_all add: start_pool_def)
  with r0 have r1: "reachable (pool_init dead_libs sample_os) (pool_step dead_libs) ?p1"
    by (rule reachable_step)
  have "notify_dead dead_libs sample_os"
    by (simp add: notify_dead_def dead_libs_def demo_libs_def send_never_def)
  from refused_bytes_serve_nobody [OF r1 this, of 0] show ?thesis
    by (intro exI [of _ ?p1]) (simp add: THREAD_NUMB_def)
qed

section \<open>Starting\<close>

text \<open>C32: when a socket pair cannot be made on Windows, the server still reports success, and has its
  accepting thread exactly when the port can be bound; no worker thread runs; the accept callbacks before
  the turn of the missing thread return, and the one whose turn falls on it dereferences a null
  pointer.\<close>

theorem failed_pair_crashes_later:
  assumes "os_base E" and "k < THREAD_NUMB" and "\<forall>i < k. os_pair E i \<noteq> None"
    and "os_pair E k = None" and "WIN32 L" and "length cs = k"
  shows "\<exists>s. LibEvtServer_new L E d = (Inr True, s) \<and>
    m_spListenThread s = os_bind E listen_options (bind_port L) \<and>
    (\<forall>t. Some t \<in> set (m_libevent_threads s) \<longrightarrow> \<not> spThread t) \<and>
    fst (accept_all L cs s) = Inr () \<and> fst (accept_all L (cs @ [(fd, ip)]) s) = Inl (UB Null_pointer)"
proof -
  obtain s where s: "LibEvtServer_new L E d = (Inr True, s)" "threads_to k s"
    "\<forall>t. Some t \<in> set (m_libevent_threads s) \<longrightarrow> \<not> spThread t"
    using server_new_partial [OF assms(1-5), of d] by blast
  note l = server_new_listener(2,3) [OF s(1) assms(1)]
  show ?thesis
    using s l accept_all_null [OF s(2) assms(2) l(2) assms(6)] by (intro exI [of _ s] conjI) simp_all
qed

theorem failed_pair_crashes_later_witness:
  "\<exists>s. LibEvtServer_new windows_libs short_os (demo_world Map.empty) = (Inr True, s) \<and> m_spListenThread s \<and>
    fst (accept_all windows_libs [(40, ''10.0.0.1''), (41, ''10.0.0.2''), (42, ''10.0.0.3'')] s) =
      Inl (UB Null_pointer)"
proof -
  have "\<exists>s. LibEvtServer_new windows_libs short_os (demo_world Map.empty) = (Inr True, s) \<and>
    m_spListenThread s = os_bind short_os listen_options (bind_port windows_libs) \<and>
    (\<forall>t. Some t \<in> set (m_libevent_threads s) \<longrightarrow> \<not> spThread t) \<and>
    fst (accept_all windows_libs [(40, ''10.0.0.1''), (41, ''10.0.0.2'')] s) = Inr () \<and>
    fst (accept_all windows_libs ([(40, ''10.0.0.1''), (41, ''10.0.0.2'')] @ [(42, ''10.0.0.3'')]) s) =
      Inl (UB Null_pointer)"
    by (rule failed_pair_crashes_later [where k = 2])
       (simp_all add: short_os_def sample_os_def windows_libs_def THREAD_NUMB_def)
  then show ?thesis by (auto simp: short_os_def sample_os_def)
qed

text \<open>The byte order conversions undo each other on every port, taken to 16 bits.\<close>

lemma port_roundtrip: "ntohs (htons p) = p mod 65536"
proof -
  define q where "q = p mod 65536"
  have q: "0 \<le> q" "q < 65536" by (simp_all add: q_def)
  define a b where "a = q div 256" and "b = q mod 256"
  have ab: "0 \<le> a" "a < 256" "0 \<le> b" "b < 256" "q = a * 256 + b"
    using q by (auto simp: a_def b_def)
  have h: "htons p = b * 256 + a" by (simp add: htons_def Let_def a_def b_def q_def)
  have "(b * 256 + a) mod 65536 = b * 256 + a" using ab by (intro mod_pos_pos_trivial) auto
  moreover have "(b * 256 + a) mod 256 = a" "(b * 256 + a) div 256 = b" using ab by auto
  ultimately show ?thesis
    unfolding ntohs_def h by (simp add: htons_def Let_def ab(5) q_def [symmetric])
qed

section \<open>The worker of a connection\<close>

text \<open>No received byte can break a worker's dispatch tables or its socket: every command that
  \<open>initParameter\<close> enters keeps its meaning, and every other label the table comes to hold means
  \<open>WCZL\<close>.\<close>

lemma server_worker_stays_ok:
  assumes "server_worker_ok bev w"
    and "Process L (server_handlers L) input (w, d) = (r, (w', d'))"
  shows "server_worker_ok bev w'"
  by (rule srv_stable.Process_keeps [OF assms])

lemma server_worker_ok_new: "server_worker_ok bev (SetBev bev CServerWorker_new)"
  using server_tables_new by (simp add: server_worker_ok_def SetBev_def server_tables_ok_def)

text \<open>C28: what a command runs: the method entered under its label, and for any other label, the name
  \<open>TEST\<close> included, the method of \<open>WCZL\<close>, which answers the client.\<close>

theorem server_dispatch:
  assumes "server_worker_ok bev w"
  shows "\<exists>w'. server_worker_ok bev w' \<and>
    server_excuteCommand L command content (w, d) =
      (case map_of server_commands command of
         Some S_MSQL \<Rightarrow> server_CommanMSQL L content
       | Some S_XZWJ \<Rightarrow> server_CommanXZWJ L content
       | Some S_WJLB \<Rightarrow> server_CommanWJLB L content
       | Some S_SBBH \<Rightarrow> server_CommanSBBH L content
       | _ \<Rightarrow> server_CommanWCZL L content) (w', d)"
proof -
  obtain t w' d' where l: "lookup_server_command command (w, d) = (Inr t, (w', d'))"
    by (cases "sm_at S_WCZL command (s_commandType w)") (auto simp: lookup_server_command_def)
  have tables: "server_tables_ok w" "m_bev w = bev" using assms by (simp_all add: server_worker_ok_def)
  note k = server_tables_lookup [OF tables(1) l]
  have "m_bev w' = m_bev w" using l by (auto simp: lookup_server_command_def split: prod.splits)
  then have ok: "server_worker_ok bev w'" using k(1) tables(2) by (simp add: server_worker_ok_def)
  have none: "t \<noteq> S_TEST"
    using k(3) by (auto simp: server_commands_def split: option.splits if_splits)
  have "server_excuteCommand L command content (w, d) =
      (case map_of server_commands command of
         Some S_MSQL \<Rightarrow> server_CommanMSQL L content
       | Some S_XZWJ \<Rightarrow> server_CommanXZWJ L content
       | Some S_WJLB \<Rightarrow> server_CommanWJLB L content
       | Some S_SBBH \<Rightarrow> server_CommanSBBH L content
       | _ \<Rightarrow> server_CommanWCZL L content) (w', d)"
    using l k(2,3) none
    by (cases "map_of server_commands command")
       (auto simp: server_excuteCommand_def prog_simps split: server_command_type.splits)
  with ok show ?thesis by blast
qed

theorem server_dispatch_witness:
  "\<exists>w'. server_worker_ok (Some 7) w' \<and>
    server_excuteCommand (server_demo []) ''TEST'' ''1'' (SetBev (Some 7) CServerWorker_new, demo_world Map.empty) =
      server_CommanWCZL (server_demo []) ''1'' (w', demo_world Map.empty)"
  using server_dispatch [OF server_worker_ok_new, of "Some 7" "server_demo []" "''TEST''" "''1''" "demo_world Map.empty"]
  by (simp add: server_commands_def)

text \<open>A request for a file that is not there changes nothing and is not answered.\<close>

lemma missing_file_not_answered:
  assumes "StringToJson L content = Some js"
    and "json_str2 (json L) js FILE_DESCRIBE FILE_PATH = Some (js', path)"
    and "\<not> IsFileExist L (w_fs d) (c_str path)"
  shows "server_CommanXZWJ L content (w, d) = (Inr (), (w, d))"
  using assms by (simp add: server_CommanXZWJ_def prog_simps)

definition path_request :: jval where
  "path_request = JObj [(FILE_DESCRIBE, JObj [(FILE_PATH, JStr ''/x'')])]"

section \<open>Callbacks\<close>

text \<open>C37: the read loop of the callbacks passes on exactly the input if and only if no zero byte is in
  it; its reads of eight bytes are appended as C strings.\<close>

theorem read_loop_exact: "(read_chunks input = input) = (NUL \<notin> set input)"
  using read_chunks_text [of input] read_chunks_shorter [of input] by (metis less_irrefl)

text \<open>When a connection ends, its worker is dropped from its thread's map, and no other worker of
  the thread is touched.\<close>

lemma closed_connection_dropped:
  assumes "i < length (m_libevent_threads s)" and "m_libevent_threads s ! i = Some t"
    and "sm_ok (data_map t)"
  shows "\<exists>s' t'. conn_eventcb i fd s = (Inr (), s') \<and> m_libevent_threads s' ! i = Some t' \<and>
    sm_find fd (data_map t') = None \<and> (\<forall>k. k \<noteq> fd \<longrightarrow> sm_find k (data_map t') = sm_find k (data_map t))"
proof (cases "sm_find fd (data_map t)")
  case None
  then have "conn_eventcb i fd s = (Inr (), s)"
    using thread_at_Some [OF assms(1,2)] by (simp add: conn_eventcb_def prog_simps)
  then show ?thesis using assms(2) None by blast
next
  case (Some w)
  let ?f = "\<lambda>t. t\<lparr>data_map := sm_erase fd (data_map t)\<rparr>"
  have "conn_eventcb i fd s = (Inr (), update_thread i ?f s)"
    using thread_at_Some [OF assms(1,2)] Some by (simp add: conn_eventcb_def prog_simps)
  moreover have "m_libevent_threads (update_thread i ?f s) ! i = Some (?f t)"
    using assms(1,2) by (simp add: update_thread_nth)
  moreover have "sm_find k (data_map (?f t)) = (if k = fd then None else sm_find k (data_map t))" for k
    using sm_find_erase [OF assms(3)] by simp
  ultimately show ?thesis by (intro exI conjI) (assumption, assumption, simp, simp)
qed

end
