(* ===== verification/EvtClient.thy ===== *)
theory EvtClient
  imports Preserve ReadLoop
begin

text \<open>
  \<open>LibEvtClient\<close> (client/client.cpp, client/client.h): the connection of a student's
  terminal to the server, its requests, and the periodic task that keeps it alive. The object
  holds raw pointers, so a field that was never set, was set to null or points to freed memory
  is told apart from a good one, and using such a field is an error.
\<close>

section \<open>State\<close>

text \<open>The thread that runs the event loop; joining it leaves an object that cannot be joined
  again.\<close>

datatype listen_thread = No_thread | Joinable | Joined

text \<open>
  \<open>cl_attempts\<close> counts the bases made so far; it only tells the environment's answers apart.
  \<open>cl_tasks\<close> counts the calls of \<open>TryAgain\<close>, which hands the object to the task queue.
\<close>

record 'd evt_client =
  m_pBase :: "int ptr"
  m_pBev :: "int ptr"
  m_spListenThread :: listen_thread
  m_spWorker :: "client_worker option"
  m_bConnect :: int
  m_strIP :: string
  m_nPort :: int
  cl_world :: "'d world"
  cl_attempts :: nat
  cl_tasks :: nat

definition LibEvtClient_new :: "int \<Rightarrow> 'd world \<Rightarrow> 'd evt_client" where
  "LibEvtClient_new junk d =
     \<lparr>m_pBase = Uninit, m_pBev = Uninit, m_spListenThread = No_thread, m_spWorker = None,
      m_bConnect = 0, m_strIP = [], m_nPort = junk, cl_world = d, cl_attempts = 0, cl_tasks = 0\<rparr>"

text \<open>
  What libevent answers at the n-th attempt: the base, the socket of the bufferevent, and the
  result of connecting it to an address.
\<close>

record net =
  net_base :: "nat \<Rightarrow> int option"
  net_bev :: "nat \<Rightarrow> int option"
  net_connect :: "nat \<Rightarrow> string \<Rightarrow> int \<Rightarrow> int"

definition BOOL_TRUE :: int where "BOOL_TRUE = 1"
definition BOOL_FALSE :: int where "BOOL_FALSE = 0"

section \<open>Pointers and threads\<close>

definition join_thread :: "listen_thread \<Rightarrow> error + listen_thread" where
  "join_thread t =
     (case t of
        No_thread \<Rightarrow> Inl (UB Null_pointer)
      | Joinable \<Rightarrow> Inr Joined
      | Joined \<Rightarrow> Inl Thread_terminate)"

text \<open>\<open>reset(new std::thread(...))\<close>: destroying a thread that was not joined ends the
  process.\<close>

definition reset_thread :: "listen_thread \<Rightarrow> error + listen_thread" where
  "reset_thread t = (if t = Joinable then Inl Thread_terminate else Inr Joinable)"

definition the_worker :: "('d evt_client, client_worker) prog" where
  "the_worker = (\<lambda>c. (case m_spWorker c of None \<Rightarrow> Inl (UB Null_pointer) | Some w \<Rightarrow> Inr w, c))"

definition put_worker :: "client_worker \<Rightarrow> ('d evt_client, unit) prog" where
  "put_worker w = modify (\<lambda>c. c\<lparr>m_spWorker := Some w\<rparr>)"

text \<open>A computation over the world, and one over the worker and the world.\<close>

definition cl_in_world :: "('d world, 'b) prog \<Rightarrow> ('d evt_client, 'b) prog" where
  "cl_in_world m = zoom cl_world (\<lambda>d c. c\<lparr>cl_world := d\<rparr>) m"

definition cl_with_worker :: "('d cstate, 'b) prog \<Rightarrow> ('d evt_client, 'b) prog" where
  "cl_with_worker m =
     andThen the_worker (\<lambda>w. \<lambda>c.
     case m (w, cl_world c) of (r, (w', d')) \<Rightarrow> (r, c\<lparr>m_spWorker := Some w', cl_world := d'\<rparr>))"

section \<open>Connecting\<close>

definition SetConnect :: "int \<Rightarrow> ('d evt_client, unit) prog" where
  "SetConnect bConnect = modify (\<lambda>c. c\<lparr>m_bConnect := bConnect\<rparr>)"

definition client_IsConnect :: "'d evt_client \<Rightarrow> int" where
  "client_IsConnect c = m_bConnect c"

definition SetIPAndPort :: "string \<Rightarrow> int \<Rightarrow> ('d evt_client, int) prog" where
  "SetIPAndPort strIP nPort =
     andThen (query m_bConnect) (\<lambda>b.
     if b \<noteq> 0 then ret BOOL_FALSE
     else andThen (modify (\<lambda>c. c\<lparr>m_strIP := strIP, m_nPort := nPort\<rparr>)) (\<lambda>_. ret BOOL_TRUE))"

text \<open>The base and the bufferevent are made afresh.\<close>

definition make_base :: "net \<Rightarrow> ('d evt_client, unit) prog" where
  "make_base N = modify (\<lambda>c. c\<lparr>m_pBase := ptr_of (net_base N (cl_attempts c)),
     m_pBev := ptr_of (net_bev N (cl_attempts c)), cl_attempts := Suc (cl_attempts c)\<rparr>)"

text \<open>
  \<open>bufferevent_socket_connect\<close> and the four bytes sent to try the connection out. The result
  is that of the connect call, or \<open>None\<close> when the attempt failed.
\<close>

definition try_socket ::
    "('j, 'd) libs \<Rightarrow> net \<Rightarrow> string \<Rightarrow> int \<Rightarrow> ('d evt_client, int option) prog" where
  "try_socket L N strIP nPort =
     andThen (query m_pBev) (\<lambda>p.
     andThen (of_result (the_ptr p)) (\<lambda>fd.
     andThen (query (\<lambda>c. net_connect N (cl_attempts c - 1) (c_str strIP) nPort)) (\<lambda>nRt.
     if nRt = -1 then ret None
     else
       andThen (cl_in_world (\<lambda>d.
         let nSend = c_int (sock_send L (w_sends d) fd ''test'')
         in (Inr nSend, d\<lparr>w_sends := w_sends d @ [(fd, ''test'', nSend)]\<rparr>))) (\<lambda>nSend.
       ret (if nSend < 4 then None else Some nRt)))))"

definition new_worker :: "('d evt_client, unit) prog" where
  "new_worker =
     andThen (query m_pBev) (\<lambda>p.
     put_worker (SetBev (case p of Live fd \<Rightarrow> Some fd | _ \<Rightarrow> None) CClientWorker_new))"

definition on_thread :: "(listen_thread \<Rightarrow> error + listen_thread) \<Rightarrow> ('d evt_client, unit) prog" where
  "on_thread f =
     andThen (query m_spListenThread) (\<lambda>t.
     andThen (of_result (f t)) (\<lambda>t'.
     modify (\<lambda>c. c\<lparr>m_spListenThread := t'\<rparr>)))"

definition TryAgain :: "('d evt_client, unit) prog" where
  "TryAgain = modify (\<lambda>c. c\<lparr>cl_tasks := Suc (cl_tasks c)\<rparr>)"

definition TryConnect :: "('j, 'd) libs \<Rightarrow> net \<Rightarrow> ('d evt_client, int) prog" where
  "TryConnect L N =
     andThen (query m_bConnect) (\<lambda>b.
     if b \<noteq> 0 then ret BOOL_TRUE
     else
       andThen (query m_pBev) (\<lambda>p.
       andThen (of_result (free_if_set p)) (\<lambda>p.
       andThen (modify (\<lambda>c. c\<lparr>m_pBev := p\<rparr>)) (\<lambda>_.
       andThen (query m_pBase) (\<lambda>q.
       andThen (of_result (free_if_set q)) (\<lambda>q.
       andThen (modify (\<lambda>c. c\<lparr>m_pBase := q\<rparr>)) (\<lambda>_.
       andThen (make_base N) (\<lambda>_.
       andThen (query (\<lambda>c. (m_strIP c, m_nPort c))) (\<lambda>(strIP, nPort).
       andThen (try_socket L N strIP nPort) (\<lambda>nRt.
       case nRt of
         None \<Rightarrow> ret (-1)
       | Some _ \<Rightarrow>
           andThen new_worker (\<lambda>_.
           andThen (on_thread join_thread) (\<lambda>_.
           andThen (on_thread reset_thread) (\<lambda>_.
           andThen (SetConnect BOOL_TRUE) (\<lambda>_.
           andThen TryAgain (\<lambda>_.
           ret BOOL_TRUE)))))))))))))))"

definition InitSystem ::
    "('j, 'd) libs \<Rightarrow> net \<Rightarrow> string \<Rightarrow> int \<Rightarrow> ('d evt_client, int) prog" where
  "InitSystem L N strIP nPort =
     andThen (query client_IsConnect) (\<lambda>b.
     if b \<noteq> 0 then ret 0
     else
       andThen (SetIPAndPort strIP nPort) (\<lambda>_.
       andThen (make_base N) (\<lambda>_.
       andThen (try_socket L N strIP nPort) (\<lambda>nRt.
       case nRt of
         None \<Rightarrow> ret (-1)
       | Some nRt \<Rightarrow>
           andThen new_worker (\<lambda>_.
           andThen (on_thread reset_thread) (\<lambda>_.
           andThen (SetConnect BOOL_TRUE) (\<lambda>_.
           andThen TryAgain (\<lambda>_.
           ret nRt))))))))"

section \<open>Callbacks\<close>

definition client_Process :: "('j, 'd) libs \<Rightarrow> string \<Rightarrow> ('d evt_client, unit) prog" where
  "client_Process L strData =
     andThen (cl_with_worker (Process L (client_handlers L) strData)) (\<lambda>_. ret ())"

definition server_msg_cb :: "('j, 'd) libs \<Rightarrow> string \<Rightarrow> ('d evt_client, unit) prog" where
  "server_msg_cb L input = client_Process L (read_chunks input)"

definition event_cb :: "16 word \<Rightarrow> ('d evt_client, unit) prog" where
  "event_cb event =
     (if has_flag event BEV_EVENT_EOF then SetConnect BOOL_FALSE
      else if has_flag event BEV_EVENT_ERROR then SetConnect BOOL_FALSE
      else if has_flag event BEV_EVENT_CONNECTED then ret ()
      else SetConnect BOOL_FALSE)"

section \<open>Requests\<close>

text \<open>
  \<open>waitCMDFinishFlag\<close> polls the worker's flag while the event loop keeps receiving.
  \<open>inputs\<close> is what arrives between one poll and the next; when nothing more arrives and the
  flag is still negative, the call never returns.
\<close>

fun await_flag :: "('j, 'd) libs \<Rightarrow> string list \<Rightarrow> ('d evt_client, unit) prog" where
  "await_flag L [] =
     andThen the_worker (\<lambda>w. if m_cmdFinishFlag w \<ge> 0 then ret () else raise Blocked)"
| "await_flag L (input # inputs) =
     andThen the_worker (\<lambda>w.
     if m_cmdFinishFlag w \<ge> 0 then ret ()
     else andThen (server_msg_cb L input) (\<lambda>_. await_flag L inputs))"

definition client_set_flag :: "int \<Rightarrow> ('d evt_client, unit) prog" where
  "client_set_flag n = cl_with_worker (on_client (setCMDFinishFlag n))"

text \<open>The description of an uploaded file, and of one asked for.\<close>

fun json_describe :: "'j jsonlib \<Rightarrow> 'j \<Rightarrow> (string \<times> 'j) list \<Rightarrow> 'j option" where
  "json_describe J v [] = Some v"
| "json_describe J v ((k, x) # kvs) =
     (case json_set2 J v FILE_DESCRIBE k x of None \<Rightarrow> None | Some v' \<Rightarrow> json_describe J v' kvs)"

definition upper_json ::
    "'j jsonlib \<Rightarrow> string \<Rightarrow> string \<Rightarrow> string \<Rightarrow> string \<Rightarrow> string \<Rightarrow> string \<Rightarrow> int \<Rightarrow> 'j option" where
  "upper_json J strClass strStudent strCoures strFileName strFilePath strDeviceNum nType =
     json_describe J (js_null J)
       [(FILE_CLASS, js_of_string J strClass), (FILE_STUDENT, js_of_string J strStudent),
        (FILE_COURES, js_of_string J strCoures), (FILE_NAME, js_of_string J strFileName),
        (FILE_PATH, js_of_string J strFilePath), (FILE_TYPE, js_of_int J nType),
        (DEVICE_NUMBER, js_of_string J strDeviceNum)]"

definition SendFileToServer :: "('j, 'd) libs \<Rightarrow> string \<Rightarrow> ('d evt_client, unit) prog" where
  "SendFileToServer L strData =
     andThen the_worker (\<lambda>w. cl_in_world (SendFileTo L w ''CXWJ'' strData))"

definition SendToServer :: "('j, 'd) libs \<Rightarrow> string \<Rightarrow> ('d evt_client, unit) prog" where
  "SendToServer L strMsg =
     andThen (query m_pBev) (\<lambda>p.
     andThen (of_result (the_ptr p)) (\<lambda>fd.
     cl_in_world (\<lambda>d.
       let len = c_int (sock_send L (w_sends d) fd strMsg)
       in (Inr (), d\<lparr>w_sends := w_sends d @ [(fd, strMsg, len)]\<rparr>))))"

text \<open>\<open>UpperFile\<close> ends without a \<open>return\<close> when it has sent the file.\<close>

definition UpperFile ::
    "('j, 'd) libs \<Rightarrow> string \<Rightarrow> string \<Rightarrow> string \<Rightarrow> string \<Rightarrow> string \<Rightarrow> string \<Rightarrow> int \<Rightarrow>
       ('d evt_client, int) prog" where
  "UpperFile L strClass strStudent strCoures strFileName strFilePath strDeviceNum nType =
     andThen (query m_bConnect) (\<lambda>b.
     if b = 0 then ret (-1)
     else
       andThen (of_option Json_error
         (upper_json (json L) strClass strStudent strCoures strFileName strFilePath strDeviceNum nType))
         (\<lambda>root.
       andThen (SendFileToServer L (js_write (json L) root)) (\<lambda>_.
       ret (no_return L))))"

text \<open>The part of a path after the last backslash, or after the last slash.\<close>

definition download_name :: "string \<Rightarrow> error + string" where
  "download_name strPath =
     (let n = pos_int (str_rfind (CHR 0x5C) strPath) in
      if n \<noteq> -1 then cpp_substr_from strPath (size_of (n + 1))
      else
        let n = pos_int (str_rfind (CHR ''/'') strPath) in
        if n \<noteq> -1 then cpp_substr_from strPath (size_of (n + 1)) else Inr [])"

definition download_json ::
    "'j jsonlib \<Rightarrow> string \<Rightarrow> string \<Rightarrow> string \<Rightarrow> int \<Rightarrow> int \<Rightarrow> 'j option" where
  "download_json J strFileName strCoures strPath nType nTemplate =
     json_describe J (js_null J)
       [(FILE_CLASS, js_of_string J ''Class''), (FILE_NAME, js_of_string J strFileName),
        (FILE_COURES, js_of_string J strCoures), (FILE_PATH, js_of_string J strPath),
        (FILE_TYPE, js_of_int J nType), (FILE_TEMPLATE, js_of_int J nTemplate)]"

text \<open>
  \<open>request\<close> is what the requests share: clear the flag, send, and poll. \<open>DownloadFile\<close> and
  \<open>GetFileList\<close> poll when sending answered a negative number and end without a \<open>return\<close>.
\<close>

definition request ::
    "('j, 'd) libs \<Rightarrow> string list \<Rightarrow> (client_worker \<Rightarrow> ('d world, int) prog) \<Rightarrow>
       ('d evt_client, unit) prog" where
  "request L inputs send =
     andThen (client_set_flag (-1)) (\<lambda>_.
     andThen the_worker (\<lambda>w.
     andThen (cl_in_world (send w)) (\<lambda>nRt.
     if nRt < 0 then await_flag L inputs else ret ())))"

definition DownloadFile ::
    "('j, 'd) libs \<Rightarrow> string list \<Rightarrow> string \<Rightarrow> string \<Rightarrow> int \<Rightarrow> int \<Rightarrow> ('d evt_client, int) prog" where
  "DownloadFile L inputs strPath strCoures nType nTemplate =
     andThen (query m_bConnect) (\<lambda>b.
     if b = 0 then ret (-1)
     else
       andThen (of_result (download_name strPath)) (\<lambda>strFileName.
       andThen (of_option Json_error
         (download_json (json L) strFileName strCoures strPath nType nTemplate)) (\<lambda>root.
       andThen (request L inputs (\<lambda>w. SendXZWJ L w (js_write (json L) root))) (\<lambda>_.
       ret (no_return L)))))"

definition client_list_json :: "'j jsonlib \<Rightarrow> string \<Rightarrow> string \<Rightarrow> 'j option" where
  "client_list_json J strClass strStudent =
     (case js_put J (js_null J) FILE_CLASS (js_of_string J strClass) of
        None \<Rightarrow> None
      | Some root \<Rightarrow> js_put J root FILE_STUDENT (js_of_string J strStudent))"

text \<open>The second component is \<open>strOut\<close>.\<close>

definition client_GetFileList ::
    "('j, 'd) libs \<Rightarrow> string list \<Rightarrow> string \<Rightarrow> string \<Rightarrow> string \<Rightarrow> ('d evt_client, int \<times> string) prog" where
  "client_GetFileList L inputs strClass strStudent strOut =
     andThen (query m_bConnect) (\<lambda>b.
     if b = 0 then ret (-1, strOut)
     else
       andThen (of_option Json_error (client_list_json (json L) strClass strStudent)) (\<lambda>root.
       andThen (request L inputs (\<lambda>w. SendWJLB L w (js_write (json L) root))) (\<lambda>_.
       andThen the_worker (\<lambda>w.
       ret (no_return L, worker_GetFileList w)))))"

definition NOT_CONNECT :: string where "NOT_CONNECT = ''not connect''"

definition GetDeviceNum ::
    "('j, 'd) libs \<Rightarrow> string list \<Rightarrow> string \<Rightarrow> ('d evt_client, string) prog" where
  "GetDeviceNum L inputs strIP =
     andThen (query m_bConnect) (\<lambda>b.
     if b = 0 then ret NOT_CONNECT
     else
       andThen (client_set_flag (-1)) (\<lambda>_.
       andThen the_worker (\<lambda>w.
       andThen (cl_in_world (SendSBBH L w strIP)) (\<lambda>_.
       andThen (await_flag L inputs) (\<lambda>_.
       andThen the_worker (\<lambda>w.
       ret (worker_GetDeviceNumber w)))))))"

definition read_field :: "(client_worker \<Rightarrow> string) \<Rightarrow> ('d evt_client, string) prog" where
  "read_field f =
     andThen (query m_bConnect) (\<lambda>b.
     if b = 0 then ret NOT_CONNECT else andThen the_worker (\<lambda>w. ret (f w)))"

definition client_GetClass :: "('d evt_client, string) prog" where
  "client_GetClass = read_field worker_GetClass"

definition client_GetCourse :: "('d evt_client, string) prog" where
  "client_GetCourse = read_field worker_GetCourse"

definition client_GetClassStudent :: "('d evt_client, string) prog" where
  "client_GetClassStudent = read_field worker_GetClassStudent"

section \<open>The periodic task and the end\<close>

text \<open>
  \<open>Svc\<close>: a heartbeat when connected, and a reconnect when it failed or the connection is
  gone. Its result asks the task queue to call it again.
\<close>

definition Svc :: "('j, 'd) libs \<Rightarrow> net \<Rightarrow> ('d evt_client, unit) prog" where
  "Svc L N =
     andThen (query client_IsConnect) (\<lambda>b.
     if b \<noteq> 0 then
       andThen the_worker (\<lambda>w.
       andThen (cl_in_world (SendMsgTo_raw L w ''h'')) (\<lambda>n.
       if n < 0 then andThen (TryConnect L N) (\<lambda>_. ret ()) else ret ()))
     else andThen (TryConnect L N) (\<lambda>_. ret ()))"

definition LibEvtClient_destroy :: "('d evt_client, unit) prog" where
  "LibEvtClient_destroy =
     andThen (query m_pBev) (\<lambda>p.
     andThen (of_result (free_if_set p)) (\<lambda>p.
     andThen (modify (\<lambda>c. c\<lparr>m_pBev := p\<rparr>)) (\<lambda>_.
     andThen (query m_pBase) (\<lambda>q.
     andThen (of_result (free_if_set q)) (\<lambda>q.
     andThen (modify (\<lambda>c. c\<lparr>m_pBase := q\<rparr>)) (\<lambda>_.
     on_thread join_thread))))))"

end
