(* ===== verification/ClientFacts.thy ===== *)
theory ClientFacts
  imports EvtClient
begin

text \<open>
  The client object over its life: what connecting leaves behind in each outcome, the
  invariant of a connected client under every operation and callback in any order, and the
  polling requests.
\<close>

section \<open>Connecting\<close>

lemma try_socket_fields:
  assumes "try_socket L N ip port c = (r, c')"
  shows "m_bConnect c' = m_bConnect c" "m_pBev c' = m_pBev c" "m_pBase c' = m_pBase c"
    "m_spListenThread c' = m_spListenThread c" "m_spWorker c' = m_spWorker c"
    "m_strIP c' = m_strIP c" "m_nPort c' = m_nPort c" "cl_tasks c' = cl_tasks c"
  using assms
  by (auto simp: try_socket_def prog_simps cl_in_world_def Let_def the_ptr_def
      split: ptr.splits if_splits)

lemma try_socket_Some:
  "try_socket L N ip port c = (Inr (Some n), c') \<Longrightarrow> \<exists>fd. m_pBev c = Live fd"
  by (auto simp: try_socket_def prog_simps the_ptr_def split: ptr.splits)

text \<open>A connected client: socket, worker on that socket, a running event loop, and a base that can be
  freed.\<close>

definition connected_ok :: "'d evt_client \<Rightarrow> bool" where
  "connected_ok c \<longleftrightarrow>
     (\<exists>fd w. m_pBev c = Live fd \<and> m_spWorker c = Some w \<and> client_worker_ok (Some fd) w) \<and>
     m_spListenThread c = Joinable \<and> (\<exists>x. m_pBase c = ptr_of x)"

definition client_ok :: "'d evt_client \<Rightarrow> bool" where
  "client_ok c \<longleftrightarrow> (m_bConnect c \<noteq> 0 \<longrightarrow> connected_ok c)"

lemma new_worker_ok: "client_worker_ok bev (SetBev bev CClientWorker_new)"
proof -
  have "client_tables_ok (CClientWorker_new\<lparr>m_bev := bev\<rparr>)"
    using client_tables_new by (simp add: client_tables_ok_def)
  then show ?thesis by (simp add: client_worker_ok_def SetBev_def)
qed

text \<open>How a successful attempt ends; \<open>f\<close> is what happens to an old thread object.\<close>

lemma finish_connect:
  assumes "m_pBev c = Live fd" and "m_pBase c = ptr_of x"
    and "andThen new_worker (\<lambda>_. andThen (on_thread reset_thread) (\<lambda>_.
      andThen (SetConnect BOOL_TRUE) (\<lambda>_. andThen TryAgain (\<lambda>_. ret n)))) c = (r, c')"
  shows "(m_spListenThread c = Joinable \<and> r = Inl Thread_terminate \<and> m_bConnect c' = m_bConnect c) \<or>
    (m_spListenThread c \<noteq> Joinable \<and> r = Inr n \<and> m_bConnect c' = 1 \<and> connected_ok c' \<and>
     m_pBev c' = Live fd \<and> m_spWorker c' = Some (SetBev (Some fd) CClientWorker_new))"
  using assms new_worker_ok [of "Some fd"]
  by (auto simp: new_worker_def put_worker_def on_thread_def SetConnect_def TryAgain_def prog_simps
      reset_thread_def BOOL_TRUE_def connected_ok_def split: if_splits)

lemma InitSystem_cases:
  assumes "m_bConnect c = 0" and "InitSystem L N ip port c = (r, c')"
  shows "((\<exists>e. r = Inl e) \<and> m_bConnect c' = 0) \<or>
    (r = Inr (-1) \<and> m_bConnect c' = 0 \<and> m_spListenThread c' = m_spListenThread c \<and> cl_tasks c' = cl_tasks c) \<or>
    ((\<exists>n. r = Inr n) \<and> m_bConnect c' = 1 \<and> connected_ok c')"
proof -
  define c1 where "c1 = c\<lparr>m_strIP := ip, m_nPort := port,
    m_pBase := ptr_of (net_base N (cl_attempts c)),
    m_pBev := ptr_of (net_bev N (cl_attempts c)), cl_attempts := Suc (cl_attempts c)\<rparr>"
  obtain r1 c2 where t: "try_socket L N ip port c1 = (r1, c2)" by fastforce
  note f = try_socket_fields [OF t]
  have run: "InitSystem L N ip port c = (case r1 of Inl e \<Rightarrow> (Inl e, c2)
      | Inr None \<Rightarrow> (Inr (-1), c2)
      | Inr (Some n) \<Rightarrow> andThen new_worker (\<lambda>_. andThen (on_thread reset_thread) (\<lambda>_.
          andThen (SetConnect BOOL_TRUE) (\<lambda>_. andThen TryAgain (\<lambda>_. ret n)))) c2)"
    using assms(1) t
    by (simp add: InitSystem_def client_IsConnect_def SetIPAndPort_def make_base_def prog_simps
        c1_def split: sum.split option.split)
  show ?thesis
  proof (cases r1)
    case (Inl e)
    then show ?thesis using run assms f by (auto simp: c1_def)
  next
    case (Inr x)
    show ?thesis
    proof (cases x)
      case None
      then show ?thesis using run assms f Inr by (auto simp: c1_def)
    next
      case (Some n)
      obtain fd where "m_pBev c1 = Live fd" using try_socket_Some t Inr Some by blast
      then show ?thesis
        using finish_connect [of c2 fd _ n r c'] run assms f Inr Some by (auto simp: c1_def)
    qed
  qed
qed

lemma TryConnect_connected: "m_bConnect c \<noteq> 0 \<Longrightarrow> TryConnect L N c = (Inr BOOL_TRUE, c)"
  by (simp add: TryConnect_def prog_simps)

lemma TryConnect_cases:
  assumes "m_bConnect c = 0" and "TryConnect L N c = (r, c')"
  shows "((\<exists>e. r = Inl e) \<and> m_bConnect c' = 0) \<or> (r = Inr (-1) \<and> m_bConnect c' = 0) \<or>
    (r = Inr BOOL_TRUE \<and> m_bConnect c' = 1 \<and> connected_ok c')"
proof -
  obtain r0 where p: "free_if_set (m_pBev c) = r0" by blast
  show ?thesis
  proof (cases r0)
    case (Inl e)
    then show ?thesis using assms p by (auto simp: TryConnect_def prog_simps)
  next
    case (Inr p')
    note p = p [unfolded Inr]
    obtain r1 where q: "free_if_set (m_pBase c) = r1" by blast
    show ?thesis
    proof (cases r1)
      case (Inl e)
      then show ?thesis using assms p q by (auto simp: TryConnect_def prog_simps)
    next
      case (Inr q')
      note q = q [unfolded Inr]
      define c1 where "c1 = c\<lparr>m_pBase := ptr_of (net_base N (cl_attempts c)),
        m_pBev := ptr_of (net_bev N (cl_attempts c)), cl_attempts := Suc (cl_attempts c)\<rparr>"
      obtain r2 c2 where t: "try_socket L N (m_strIP c) (m_nPort c) c1 = (r2, c2)" by fastforce
      note f = try_socket_fields [OF t]
      have run: "TryConnect L N c = (case r2 of Inl e \<Rightarrow> (Inl e, c2)
          | Inr None \<Rightarrow> (Inr (-1), c2)
          | Inr (Some n) \<Rightarrow> andThen new_worker (\<lambda>_. andThen (on_thread join_thread) (\<lambda>_.
              andThen (on_thread reset_thread) (\<lambda>_.
              andThen (SetConnect BOOL_TRUE) (\<lambda>_. andThen TryAgain (\<lambda>_. ret BOOL_TRUE))))) c2)"
        using assms(1) t p q
        by (simp add: TryConnect_def make_base_def prog_simps c1_def split: sum.split option.split)
      have b: "m_bConnect c2 = 0" using f assms(1) by (simp add: c1_def)
      show ?thesis
      proof (cases "\<exists>n. r2 = Inr (Some n)")
        case False
        then show ?thesis using run assms(2) b by (auto split: sum.splits option.splits)
      next
        case True
        then obtain n where n: "r2 = Inr (Some n)" by blast
        obtain fd where "m_pBev c1 = Live fd" using try_socket_Some t n by blast
        then have fd: "m_pBev c2 = Live fd" using f by simp
        have base: "\<exists>x. m_pBase c2 = ptr_of x" using f by (auto simp: c1_def)
        show ?thesis
          using run assms(2) n b fd base new_worker_ok [of "Some fd"]
          by (cases "m_spListenThread c2")
            (auto simp: new_worker_def put_worker_def on_thread_def SetConnect_def TryAgain_def
              prog_simps join_thread_def reset_thread_def BOOL_TRUE_def connected_ok_def)
      qed
    qed
  qed
qed

text \<open>An attempt leaves two pointers that may be freed.\<close>

lemma free_ptr_of: "\<exists>p. free_if_set (ptr_of x) = Inr p"
  by (cases x) (simp_all add: free_if_set_def ptr_of_def)

lemma try_socket_pointers:
  "try_socket L N ip port c = (r, c') \<Longrightarrow> m_pBev c' = m_pBev c \<and> m_pBase c' = m_pBase c"
  by (simp add: try_socket_fields(2,3) [of L N ip port c r c'])

lemma InitSystem_pointers:
  assumes "m_bConnect c = 0" and "InitSystem L N ip port c = (Inr r, c')"
  shows "\<exists>p q. free_if_set (m_pBev c') = Inr p \<and> free_if_set (m_pBase c') = Inr q"
proof -
  have "m_pBev c' = ptr_of (net_bev N (cl_attempts c)) \<and> m_pBase c' = ptr_of (net_base N (cl_attempts c))"
    using assms
    by (auto simp: InitSystem_def client_IsConnect_def SetIPAndPort_def prog_simps make_base_def
        new_worker_def put_worker_def on_thread_def SetConnect_def TryAgain_def
        split: sum.splits prod.splits option.splits dest!: try_socket_pointers)
  then show ?thesis using free_ptr_of by metis
qed

text \<open>An old thread object decides how a successful connection attempt ends.\<close>

lemma TryConnect_thread:
  assumes "m_bConnect c = 0" and "m_spListenThread c = No_thread" and "TryConnect L N c = (r, c')"
  shows "r \<noteq> Inr BOOL_TRUE"
proof -
  have t: "m_spListenThread c2 = No_thread"
    if "try_socket L N ip port c1 = (r1, c2)" "m_spListenThread c1 = No_thread" for ip port c1 r1 c2
    using try_socket_fields(4) [OF that(1)] that(2) by simp
  show ?thesis
    using assms
    by (auto simp: TryConnect_def prog_simps make_base_def new_worker_def put_worker_def on_thread_def
        join_thread_def BOOL_TRUE_def split: sum.splits prod.splits option.splits dest!: t)
qed

lemma InitSystem_thread:
  assumes "m_bConnect c = 0" and "m_spListenThread c = Joinable" and "InitSystem L N ip port c = (r, c')"
  shows "m_bConnect c' = 0"
proof -
  have t: "m_spListenThread c2 = Joinable \<and> m_bConnect c2 = m_bConnect c1"
    if "try_socket L N ip port c1 = (r1, c2)" "m_spListenThread c1 = Joinable" for ip port c1 r1 c2
    using try_socket_fields(1,4) [OF that(1)] that(2) by simp
  show ?thesis
    using assms
    by (auto simp: InitSystem_def client_IsConnect_def SetIPAndPort_def prog_simps make_base_def
        new_worker_def put_worker_def on_thread_def reset_thread_def
        split: sum.splits prod.splits option.splits dest!: t)
qed

text \<open>
  A connection that was lost comes back: the event loop's thread has ended and can be joined, and
  the two old pointers can be freed.
\<close>

lemma TryConnect_succeeds:
  assumes "m_bConnect c = 0" and "m_pBev c = Live fd0" and "m_pBase c = ptr_of x"
    and "m_spListenThread c = Joinable" and "net_bev N (cl_attempts c) = Some fd"
    and "net_connect N (cl_attempts c) (c_str (m_strIP c)) (m_nPort c) \<noteq> -1" and "sends_all L"
  shows "\<exists>c'. TryConnect L N c = (Inr BOOL_TRUE, c') \<and> m_bConnect c' = BOOL_TRUE \<and> m_pBev c' = Live fd \<and>
    m_spWorker c' = Some (SetBev (Some fd) CClientWorker_new) \<and> m_spListenThread c' = Joinable"
proof -
  have "free_if_set (m_pBase c) \<in> {Inr Null, Inr Freed}"
    using assms(3) by (auto simp: ptr_of_def free_if_set_def split: option.split)
  then show ?thesis
    using assms(1,2,4-)
    by (auto simp: TryConnect_def prog_simps free_if_set_def make_base_def ptr_of_def try_socket_def the_ptr_def
        cl_in_world_def new_worker_def put_worker_def on_thread_def join_thread_def reset_thread_def
        SetConnect_def TryAgain_def BOOL_TRUE_def sends_all_def c_int_def Let_def)
qed

section \<open>What keeps the invariant\<close>

lemma keeps_cl_in_world [keeps_intros]: "keeps client_ok (cl_in_world m)"
  by (auto simp: keeps_def cl_in_world_def zoom_def client_ok_def connected_ok_def split: prod.split)

lemma keeps_the_worker [keeps_intros]: "keeps client_ok the_worker"
  by (simp add: keeps_def the_worker_def)

lemma keeps_cl_with_worker:
  assumes m: "\<And>bev. keeps (worker_pred (client_worker_ok bev)) m"
  shows "keeps client_ok (cl_with_worker m)"
proof (rule keepsI)
  fix c :: "'a evt_client"
  assume ok: "client_ok c"
  show "client_ok (snd (cl_with_worker m c))"
  proof (cases "m_spWorker c")
    case None
    then show ?thesis using ok by (simp add: cl_with_worker_def prog_simps the_worker_def)
  next
    case (Some w)
    obtain r w' d' where r: "m (w, cl_world c) = (r, (w', d'))" by (metis prod.exhaust)
    have "client_worker_ok bev w \<Longrightarrow> client_worker_ok bev w'" for bev
      using keepsD [OF m, of bev "(w, cl_world c)"] r by (simp add: worker_pred_def)
    then show ?thesis
      using ok Some r
      by (auto simp: cl_with_worker_def prog_simps the_worker_def client_ok_def connected_ok_def)
  qed
qed

lemma keeps_client_Process [keeps_intros]: "keeps client_ok (client_Process L strData)"
  unfolding client_Process_def
proof (intro keeps_intros keeps_cl_with_worker keepsI)
  fix bev and s :: "'a cstate"
  assume "worker_pred (client_worker_ok bev) s"
  then show "worker_pred (client_worker_ok bev) (snd (Process L (client_handlers L) strData s))"
    using cli_stable.Process_keeps [of bev "fst s" L L strData "snd s"]
    by (cases "Process L (client_handlers L) strData s") (auto simp: worker_pred_def)
qed

lemma keeps_server_msg_cb [keeps_intros]: "keeps client_ok (server_msg_cb L input)"
  unfolding server_msg_cb_def by (rule keeps_client_Process)

lemma keeps_SetConnect_FALSE [keeps_intros]: "keeps client_ok (SetConnect BOOL_FALSE)"
  by (simp add: keeps_def SetConnect_def modify_def client_ok_def BOOL_FALSE_def)

lemma keeps_event_cb [keeps_intros]: "keeps client_ok (event_cb event)"
  unfolding event_cb_def by (intro keeps_intros)

lemma keeps_TryConnect [keeps_intros]: "keeps client_ok (TryConnect L N)"
proof (rule keepsI)
  fix c :: "'a evt_client"
  assume ok: "client_ok c"
  obtain r c' where t: "TryConnect L N c = (r, c')" by fastforce
  show "client_ok (snd (TryConnect L N c))"
  proof (cases "m_bConnect c = 0")
    case True
    then show ?thesis using TryConnect_cases [OF True t] t by (auto simp: client_ok_def)
  next
    case False
    then show ?thesis using ok by (simp add: TryConnect_connected)
  qed
qed

lemma keeps_InitSystem [keeps_intros]: "keeps client_ok (InitSystem L N ip port)"
proof (rule keepsI)
  fix c :: "'a evt_client"
  assume ok: "client_ok c"
  obtain r c' where t: "InitSystem L N ip port c = (r, c')" by fastforce
  show "client_ok (snd (InitSystem L N ip port c))"
  proof (cases "m_bConnect c = 0")
    case True
    then show ?thesis using InitSystem_cases [OF True t] t by (auto simp: client_ok_def)
  next
    case False
    then show ?thesis using ok by (simp add: InitSystem_def client_IsConnect_def prog_simps)
  qed
qed

lemma keeps_SetIPAndPort [keeps_intros]: "keeps client_ok (SetIPAndPort ip port)"
  by (auto simp: keeps_def SetIPAndPort_def prog_simps client_ok_def connected_ok_def)

lemma keeps_await_flag [keeps_intros]: "keeps client_ok (await_flag L inputs)"
  by (induction inputs) (auto intro!: keeps_intros)

lemma keeps_client_set_flag [keeps_intros]: "keeps client_ok (client_set_flag n)"
  unfolding client_set_flag_def
  by (intro keeps_cl_with_worker keeps_on_client) (simp add: setCMDFinishFlag_def)

lemma keeps_Svc [keeps_intros]: "keeps client_ok (Svc L N)"
  unfolding Svc_def by (intro keeps_intros)

lemma keeps_requests [keeps_intros]:
  "keeps client_ok (request L inputs f)"
  "keeps client_ok (SendFileToServer L s)" "keeps client_ok (SendToServer L s)"
  "keeps client_ok (read_field g)"
  unfolding request_def SendFileToServer_def SendToServer_def read_field_def
  by (intro keeps_intros)+

lemma keeps_UpperFile [keeps_intros]: "keeps client_ok (UpperFile L a b c d e f n)"
  unfolding UpperFile_def by (intro keeps_intros)

lemma keeps_DownloadFile [keeps_intros]: "keeps client_ok (DownloadFile L inputs a b n m)"
  unfolding DownloadFile_def by (intro keeps_intros)

lemma keeps_client_GetFileList [keeps_intros]: "keeps client_ok (client_GetFileList L inputs a b s)"
  unfolding client_GetFileList_def by (intro keeps_intros)

lemma keeps_GetDeviceNum [keeps_intros]: "keeps client_ok (GetDeviceNum L inputs ip)"
  unfolding GetDeviceNum_def by (intro keeps_intros)

section \<open>The client as a system\<close>

datatype client_action =
    Act_Init string int
  | Act_Try
  | Act_SetIP string int
  | Act_Input string
  | Act_Event "16 word"
  | Act_Svc
  | Act_Upper string string string string string string int
  | Act_Download "string list" string string int int
  | Act_List "string list" string string string
  | Act_Device "string list" string

definition void :: "('s, 'a) prog \<Rightarrow> ('s, unit) prog" where
  "void m = andThen m (\<lambda>_. ret ())"

fun client_run :: "('j, 'd) libs \<Rightarrow> net \<Rightarrow> client_action \<Rightarrow> ('d evt_client, unit) prog" where
  "client_run L N (Act_Init ip port) = void (InitSystem L N ip port)"
| "client_run L N Act_Try = void (TryConnect L N)"
| "client_run L N (Act_SetIP ip port) = void (SetIPAndPort ip port)"
| "client_run L N (Act_Input input) = server_msg_cb L input"
| "client_run L N (Act_Event event) = event_cb event"
| "client_run L N Act_Svc = Svc L N"
| "client_run L N (Act_Upper a b c d e f n) = void (UpperFile L a b c d e f n)"
| "client_run L N (Act_Download inputs a b n m) = void (DownloadFile L inputs a b n m)"
| "client_run L N (Act_List inputs a b s) = void (client_GetFileList L inputs a b s)"
| "client_run L N (Act_Device inputs ip) = void (GetDeviceNum L inputs ip)"

lemma keeps_client_run: "keeps client_ok (client_run L N a)"
  by (cases a) (auto simp: void_def intro!: keeps_intros)

inductive client_step :: "('j, 'd) libs \<Rightarrow> net \<Rightarrow> 'd evt_client \<Rightarrow> 'd evt_client \<Rightarrow> bool" for L N where
  client_act: "client_run L N a c = (r, c') \<Longrightarrow> client_step L N c c'"

inductive_simps client_step_iff: "client_step L N c c'"

definition client_init :: "'d evt_client \<Rightarrow> bool" where
  "client_init c \<longleftrightarrow> (\<exists>junk d. c = LibEvtClient_new junk d)"

interpretation client: invariant_system client_init "client_step L N" client_ok
  for L :: "('j, 'd) libs" and N :: net
proof unfold_locales
  show "client_ok c" if "client_init c" for c :: "'d evt_client"
    using that by (auto simp: client_init_def LibEvtClient_new_def client_ok_def)
  show "client_ok c'" if ok: "client_ok c" and st: "client_step L N c c'"
    for c c' :: "'d evt_client"
  proof -
    obtain a r where "client_run L N a c = (r, c')" using st by (auto simp: client_step_iff)
    then show ?thesis using keepsD [OF keeps_client_run ok, of L N a] by simp
  qed
qed

section \<open>Polling\<close>

lemma await_flag_set:
  "m_spWorker c = Some w \<Longrightarrow> 0 \<le> m_cmdFinishFlag w \<Longrightarrow> await_flag L inputs c = (Inr (), c)"
  by (cases inputs) (simp_all add: prog_simps the_worker_def)

text \<open>The poll only ever returns with the flag raised.\<close>

lemma await_flag_returns:
  "await_flag L inputs c = (Inr (), c') \<Longrightarrow> \<exists>w. m_spWorker c' = Some w \<and> 0 \<le> m_cmdFinishFlag w"
proof (induction inputs arbitrary: c)
  case Nil
  then show ?case by (auto simp: prog_simps the_worker_def split: option.splits if_splits)
next
  case (Cons i inputs)
  then show ?case
    by (auto simp: prog_simps the_worker_def split: option.splits if_splits prod.splits sum.splits)
qed

text \<open>The request for a device number has cleared the flag before it polls.\<close>

lemma await_flag_cleared:
  assumes "await_flag L [] c = (r, c')" and "m_spWorker c = Some w" and "m_cmdFinishFlag w < 0"
  shows "r = Inl Blocked"
  using assms by (simp add: prog_simps the_worker_def)

lemma GetDeviceNum_flag:
  assumes "m_bConnect c \<noteq> 0" and "GetDeviceNum L inputs ip c = (Inr s, c')"
  shows "inputs \<noteq> [] \<and> (\<exists>w. m_spWorker c' = Some w \<and> 0 \<le> m_cmdFinishFlag w \<and> c_strDeviceNum w = s)"
proof -
  obtain w where w: "m_spWorker c = Some w"
    using assms by (auto simp: GetDeviceNum_def prog_simps client_set_flag_def cl_with_worker_def
        the_worker_def split: option.splits)
  let ?w = "setCMDFinishFlag (-1) w" and ?c1 = "c\<lparr>m_spWorker := Some (setCMDFinishFlag (-1) w)\<rparr>"
  obtain r2 c2 where s2: "cl_in_world (SendSBBH L ?w ip) ?c1 = (r2, c2)" by fastforce
  have w2: "m_spWorker c2 = Some ?w"
    using s2 by (auto simp: cl_in_world_def zoom_def split: prod.splits)
  have flag: "client_set_flag (-1) c = (Inr (), ?c1)"
    using w by (simp add: client_set_flag_def cl_with_worker_def the_worker_def prog_simps on_client_def)
  have run: "GetDeviceNum L inputs ip c = (case r2 of Inl e \<Rightarrow> (Inl e, c2)
      | Inr _ \<Rightarrow> andThen (await_flag L inputs) (\<lambda>_. andThen the_worker (\<lambda>w. ret (worker_GetDeviceNumber w))) c2)"
    using assms(1) w s2 flag
    by (simp add: GetDeviceNum_def prog_simps the_worker_def split: sum.split)
  then obtain c3 where a: "await_flag L inputs c2 = (Inr (), c3)"
    and s3: "andThen the_worker (\<lambda>w. ret (worker_GetDeviceNumber w)) c3 = (Inr s, c')"
    using assms(2) by (auto simp: andThen_apply split: sum.splits prod.splits)
  have "inputs \<noteq> []"
    using a await_flag_cleared [OF _ w2] by (cases inputs) (auto simp: setCMDFinishFlag_def)
  moreover obtain w3 where "m_spWorker c3 = Some w3" "0 \<le> m_cmdFinishFlag w3"
    using await_flag_returns [OF a] by blast
  ultimately show ?thesis
    using s3 by (auto simp: prog_simps the_worker_def worker_GetDeviceNumber_def)
qed

text \<open>The answer of the server ends the poll and is returned.\<close>

lemma GetDeviceNum_exchange:
  assumes "m_bConnect c \<noteq> 0" and "m_spWorker c = Some w" and "client_worker_ok (Some fd) w"
    and "m_strData w = []" and "m_strMsgContent w = []" and "length ip < 2147483648"
    and "length s < 1024" and "str_find PAGTAIL s = None" and "NUL \<notin> set s"
  shows "\<exists>r c'. GetDeviceNum L [package_string (first_page ''SBBH'' s)] ip c = (Inr s, c') \<and>
    r = c_int (sock_send L (w_sends (cl_world c)) fd (package_string (first_page ''SBBH'' ip))) \<and>
    w_sends (cl_world c') = w_sends (cl_world c) @ [(fd, package_string (first_page ''SBBH'' ip), r)]"
proof -
  let ?w1 = "setCMDFinishFlag (-1) w" and ?pkg = "package_string (first_page ''SBBH'' s)"
  have bev: "m_bev ?w1 = Some fd" using assms(3) by (simp add: client_worker_ok_def setCMDFinishFlag_def)
  define r where "r = c_int (sock_send L (w_sends (cl_world c)) fd (package_string (first_page ''SBBH'' ip)))"
  define d1 where "d1 = (cl_world c)\<lparr>w_sends := w_sends (cl_world c) @ [(fd, package_string (first_page ''SBBH'' ip), r)]\<rparr>"
  have send: "SendMsgTo L ?w1 ''SBBH'' ip (cl_world c) = (Inr (-1), d1)"
    using assms(6) bev
    by (simp add: SendMsgTo_run send_package_def prog_simps SendMsgTo_raw_def Let_def d1_def r_def)
  have ok: "client_tables_ok (?w1\<lparr>m_strMsgContent := s\<rparr>)"
    using assms(3) by (simp add: client_worker_ok_def client_tables_ok_def setCMDFinishFlag_def)
  let ?w2 = "?w1\<lparr>m_strMsgContent := s\<rparr>"
  obtain t w3 d3 where l: "lookup_client_command ''SBBH'' (?w2, d1) = (Inr t, (w3, d3))"
    by (cases "sm_at C_WCZL ''SBBH'' (c_commandType ?w2)") (auto simp: lookup_client_command_def)
  have t: "t = C_SBBH" and d3: "d3 = d1"
    using client_tables_lookup(2,3) [OF ok l] by (simp_all add: client_commands_def)
  let ?w4 = "setCMDFinishFlag 1 (w3\<lparr>c_strDeviceNum := s\<rparr>)"
  have "client_excuteCommand L ''SBBH'' s (?w2, d1) = (Inr (), (?w4, d1))"
    using l t d3 by (simp add: client_excuteCommand_def prog_simps client_CommanSBBH_def on_client_def)
  then have "excuteCommand (client_handlers L) ''SBBH'' (m_strMsgContent ?w1 @ s)
      (?w1\<lparr>m_strMsgContent := m_strMsgContent ?w1 @ s\<rparr>, d1) = (Inr (), (?w4, d1))"
    using assms(5) by (simp add: client_handlers_def setCMDFinishFlag_def)
  from cli.receive_short [OF _ assms(7,8) _ this] assms(4)
  have run: "Process L (client_handlers L) ?pkg (?w1, d1) =
      (Inr Drained, (?w4\<lparr>m_strMsgContent := [], m_strData := []\<rparr>, d1))"
    by (simp add: setCMDFinishFlag_def)
  have "NUL \<notin> set (num_to_string n)" for n
    by (rule num_to_string_avoids) (simp_all add: NUL_def is_digit_def)
  then have "NUL \<notin> set ?pkg"
    using assms(7,9) by (simp add: first_page_short package_string_def package_body_def wire_consts NUL_def)
  then have chunks: "read_chunks ?pkg = ?pkg" by (rule read_chunks_text)
  have "\<exists>c'. GetDeviceNum L [?pkg] ip c = (Inr s, c') \<and> cl_world c' = d1"
    using assms(1,2) send run chunks
    by (simp add: GetDeviceNum_def prog_simps client_set_flag_def cl_with_worker_def the_worker_def
        on_client_def cl_in_world_def SendSBBH_def server_msg_cb_def client_Process_def
        worker_GetDeviceNumber_def setCMDFinishFlag_def)
  then show ?thesis by (intro exI [of _ r]) (auto simp: r_def d1_def)
qed

lemma GetDeviceNum_answer:
  assumes "m_bConnect c \<noteq> 0" and "m_spWorker c = Some w" and "client_worker_ok (Some fd) w"
    and "m_strData w = []" and "m_strMsgContent w = []" and "length ip < 2147483648"
    and "length s < 1024" and "str_find PAGTAIL s = None" and "NUL \<notin> set s"
  shows "\<exists>c'. GetDeviceNum L [package_string (first_page ''SBBH'' s)] ip c = (Inr s, c')"
  using GetDeviceNum_exchange [OF assms, of L] by blast

end
