(* ===== verification/Programs.thy ===== *)
theory Programs
  imports ClientFacts
begin

text \<open>
  The entry points: the three-command database interface exported from main.cpp and the memory
  it hands out, the two test drivers of that file, and the demonstration client of
  clientMain.cpp.
\<close>

section \<open>QueryFromUpper and LpFree\<close>

definition MYSQL_CONNECT :: int where "MYSQL_CONNECT = 0"
definition MYSQL_EXXECUTE :: int where "MYSQL_EXXECUTE = 1"
definition MYSQL_GETDATA :: int where "MYSQL_GETDATA = 2"

text \<open>
  The answer is the \<open>BOOL\<close> and what \<open>*lpResult\<close> holds afterwards; \<open>lpKey\<close> is \<open>None\<close> for
  a null pointer. The buffer is a copy of the text as a C string.
\<close>

definition QueryFromUpper ::
    "('j, 'd) libs \<Rightarrow> int \<Rightarrow> string option \<Rightarrow> string ptr \<Rightarrow> ('d datahelper, bool \<times> string ptr) prog" where
  "QueryFromUpper L dwCmdId lpKey lpResult =
     (if dwCmdId = MYSQL_CONNECT then
        andThen (Connect L) (\<lambda>nRt. ret (nRt = 0, lpResult))
      else if dwCmdId = MYSQL_EXXECUTE then
        (case lpKey of
           None \<Rightarrow> ret (False, lpResult)
         | Some key \<Rightarrow> andThen (excuteSql L (c_str key)) (\<lambda>nRt. ret (nRt = 0, lpResult)))
      else if dwCmdId = MYSQL_GETDATA then
        (case lpKey of
           None \<Rightarrow> ret (False, lpResult)
         | Some key \<Rightarrow>
             andThen (Display L (c_str key) []) (\<lambda>(nRt, strRt).
             if nRt = 0 then ret (True, Live (c_str strRt)) else ret (False, lpResult)))
      else ret (False, lpResult))"

text \<open>\<open>LpFree\<close> frees what the pointer holds and clears it.\<close>

definition LpFree :: "'a ptr \<Rightarrow> error + bool \<times> 'a ptr" where
  "LpFree lpResult =
     (case free_if_set lpResult of
        Inl e \<Rightarrow> Inl e
      | Inr _ \<Rightarrow> Inr (True, Null))"

section \<open>The test drivers of main.cpp\<close>

definition create_table_sql :: string where
  "create_table_sql =
     ''CREATE TABLE IF NOT EXISTS new_paper1('' @
     ''NewID int(11) NOT NULL AUTO_INCREMENT,'' @
     ''NewCaption varchar(40) NOT NULL,'' @
     ''NewContent text,'' @
     ''NewTime datetime DEFAULT NULL,'' @
     ''PRIMARY KEY(NewID)'' @
     '') ''"

definition insert_paper_sql :: string where
  "insert_paper_sql =
     ''INSERT INTO test.new_paper1(NewID,NewCaption,NewContent,NewTime)'' @
     ''VALUES(default,'' @ quoted ''jack'' @ '','' @ quoted ''this a test'' @ '','' @
     quoted ''2017-01-11'' @ '');''"

definition select_paper_sql :: string where
  "select_paper_sql = ''SELECT NewID,NewCaption,NewContent,NewTime FROM test.new_paper1''"

definition drop_paper_sql :: string where
  "drop_paper_sql = ''DROP TABLE test.new_paper1''"

fun repeat_sql :: "('j, 'd) libs \<Rightarrow> nat \<Rightarrow> string \<Rightarrow> ('d datahelper, unit) prog" where
  "repeat_sql L 0 s = ret ()"
| "repeat_sql L (Suc n) s = andThen (excuteSql L s) (\<lambda>_. repeat_sql L n s)"

text \<open>\<open>mainTest\<close>, with what it prints.\<close>

definition mainTest :: "('j, 'd) libs \<Rightarrow> ('d datahelper, int \<times> string) prog" where
  "mainTest L =
     andThen (Connect L) (\<lambda>nRt.
     if nRt \<noteq> 0 then ret (0, [])
     else
       andThen (excuteSql L create_table_sql) (\<lambda>_.
       andThen (repeat_sql L 5 insert_paper_sql) (\<lambda>_.
       andThen (Display L select_paper_sql []) (\<lambda>(_, strRt).
       andThen (excuteSql L drop_paper_sql) (\<lambda>_.
       andThen (modify (DataHelper_close L)) (\<lambda>_.
       ret (0, strRt @ NEWLINE)))))))"

fun json_members :: "'j jsonlib \<Rightarrow> 'j \<Rightarrow> (string \<times> 'j) list \<Rightarrow> 'j option" where
  "json_members J v [] = Some v"
| "json_members J v ((k, x) # kvs) =
     (case js_put J v k x of None \<Rightarrow> None | Some v' \<Rightarrow> json_members J v' kvs)"

text \<open>
  \<open>testStudentDatahelper\<close>: the statements up to its first \<open>return\<close>; those after it never run.
  The name is the six bytes the source file has. The texts it prints are the result.
\<close>

definition test_student_name :: string where
  "test_student_name = [CHR 0xE5, CHR 0xB0, CHR 0x8F, CHR 0xE7, CHR 0x8E, CHR 0x8B]"

definition test_device_json :: "'j jsonlib \<Rightarrow> 'j option" where
  "test_device_json J = json_members J (js_null J)
     [(''ipaddr'', js_of_string J ''192.168.2.2''), (''deviceNumber'', js_of_string J ''T120_2''),
      (''type'', js_of_int J 0)]"

definition test_student_json :: "'j jsonlib \<Rightarrow> 'j option" where
  "test_student_json J = json_members J (js_null J)
     [(''name'', js_of_string J test_student_name), (''className'', js_of_string J ''xxx_1''),
      (''deviceNumber'', js_of_string J ''T120_1''), (''deviceIP'', js_of_string J ''192.168.2.1'')]"

definition testStudentDatahelper :: "('j, 'd) libs \<Rightarrow> ('d datahelper, int \<times> string list) prog" where
  "testStudentDatahelper L =
     andThen (Connect L) (\<lambda>_.
     andThen (of_option Json_error (test_device_json (json L))) (\<lambda>root.
     let str = js_write (json L) root in
     andThen (Device L str 0) (\<lambda>_.
     andThen (Device L str 2) (\<lambda>_.
     andThen (of_option Json_error (test_student_json (json L))) (\<lambda>student.
     let str1 = js_write (json L) student in
     andThen (Student L str1 0) (\<lambda>_.
     andThen (Student L str1 2) (\<lambda>(_, strsql).
     ret (0, [str @ NEWLINE, strsql @ NEWLINE]))))))))"

section \<open>The demonstration client\<close>

definition CLIENT_IP :: string where "CLIENT_IP = ''192.168.10.51''"
definition CLIENT_PORT :: int where "CLIENT_PORT = 8888"

text \<open>
  One line of output per second, ten times; \<open>inputs\<close> is what the event loop receives before
  each.
\<close>

definition client_report :: "('d evt_client, string) prog" where
  "client_report =
     andThen client_GetClass (\<lambda>strClass.
     andThen client_GetCourse (\<lambda>strCourse.
     andThen client_GetClassStudent (\<lambda>strInfo.
     ret (''class:'' @ strClass @ NEWLINE @ ''lesson:'' @ strCourse @ NEWLINE @ NEWLINE @
          '' classinfo:'' @ strInfo @ NEWLINE))))"

fun client_loop :: "('j, 'd) libs \<Rightarrow> nat \<Rightarrow> (nat \<Rightarrow> string list) \<Rightarrow> ('d evt_client, string list) prog" where
  "client_loop L 0 inputs = ret []"
| "client_loop L (Suc n) inputs =
     andThen (fold (\<lambda>i m. andThen m (\<lambda>_. server_msg_cb L i)) (inputs n) (ret ())) (\<lambda>_.
     andThen client_report (\<lambda>line.
     andThen (client_loop L n inputs) (\<lambda>out. ret (line # out))))"

text \<open>The object is a local variable: its destructor runs before \<open>main\<close> returns.\<close>

definition client_main ::
    "('j, 'd) libs \<Rightarrow> net \<Rightarrow> (nat \<Rightarrow> string list) \<Rightarrow> ('d evt_client, int \<times> string list) prog" where
  "client_main L N inputs =
     andThen (InitSystem L N CLIENT_IP CLIENT_PORT) (\<lambda>_.
     andThen (client_loop L 10 inputs) (\<lambda>out.
     andThen LibEvtClient_destroy (\<lambda>_.
     ret (0, out))))"

text \<open>Without input, and while the client is not connected, the reports change nothing.\<close>

lemma client_loop_idle:
  "m_bConnect c = 0 \<Longrightarrow> \<exists>out. client_loop L n (\<lambda>_. []) c = (Inr out, c) \<and> length out = n"
proof (induction n)
  case 0
  then show ?case by (simp add: prog_simps)
next
  case (Suc n)
  then obtain out where "client_loop L n (\<lambda>_. []) c = (Inr out, c)" "length out = n" by blast
  with Suc.prems show ?case
    by (simp add: prog_simps client_report_def client_GetClass_def client_GetCourse_def
        client_GetClassStudent_def read_field_def)
qed

lemma destroy_without_thread:
  assumes "m_spListenThread c = No_thread"
    and "free_if_set (m_pBev c) = Inr p" and "free_if_set (m_pBase c) = Inr q"
  shows "fst (LibEvtClient_destroy c) = Inl (UB Null_pointer)"
  using assms by (simp add: LibEvtClient_destroy_def prog_simps on_thread_def join_thread_def)

lemma refused_demo:
  assumes "InitSystem L N CLIENT_IP CLIENT_PORT (LibEvtClient_new junk d) = (Inr (-1), c)"
    and "m_bConnect c = 0"
  shows "fst (client_main L N (\<lambda>_. []) (LibEvtClient_new junk d)) = Inl (UB Null_pointer)"
proof -
  let ?c0 = "LibEvtClient_new junk d"
  have c0: "m_bConnect ?c0 = 0" by (simp add: LibEvtClient_new_def)
  from InitSystem_cases [OF c0 assms(1)] assms(2)
  have t: "m_spListenThread c = No_thread" by (auto simp: LibEvtClient_new_def)
  obtain p q where pq: "free_if_set (m_pBev c) = Inr p" "free_if_set (m_pBase c) = Inr q"
    using InitSystem_pointers [OF c0 assms(1)] by blast
  obtain out where "client_loop L 10 (\<lambda>_. []) c = (Inr out, c)" using client_loop_idle [OF assms(2)] by blast
  then show ?thesis
    using assms(1) destroy_without_thread [OF t pq]
    by (cases "LibEvtClient_destroy c") (auto simp: client_main_def andThen_apply)
qed

end
