(* ===== verification/ClientProps.thy ===== *)
theory ClientProps
  imports Programs DemoLibs
begin

text \<open>
  Properties of the client: connecting, reconnecting, the callbacks, the requests that poll,
  and the demonstration program.
\<close>

section \<open>Samples for the witnesses\<close>

definition good_net :: net where
  "good_net = \<lparr>net_base = (\<lambda>n. Some (int n)), net_bev = (\<lambda>n. Some (7 + int n)),
     net_connect = (\<lambda>n ip port. 0)\<rparr>"

text \<open>The first attempt is refused, the later ones succeed.\<close>

definition late_net :: net where
  "late_net = good_net\<lparr>net_connect := (\<lambda>n ip port. if n = 0 then -1 else 0)\<rparr>"

abbreviation new_client :: "demo_db evt_client" where
  "new_client \<equiv> LibEvtClient_new 0 (demo_world Map.empty)"

definition up_client :: "demo_db evt_client" where
  "up_client = snd (InitSystem (client_demo []) good_net ''10.0.0.1'' 8888 new_client)"

lemmas client_eval = InitSystem_def client_IsConnect_def SetIPAndPort_def make_base_def try_socket_def
  prog_simps cl_in_world_def the_ptr_def ptr_of_def new_worker_def put_worker_def on_thread_def
  reset_thread_def SetConnect_def TryAgain_def LibEvtClient_new_def BOOL_TRUE_def BOOL_FALSE_def
  demo_libs_def send_whole_def c_int_def demo_world_def

lemma up_client_run: "InitSystem (client_demo []) good_net ''10.0.0.1'' 8888 new_client = (Inr 0, up_client)"
  by (simp add: up_client_def client_eval good_net_def)

lemma up_client_fields [simp]:
  "m_bConnect up_client = 1" "m_pBev up_client = Live 7" "m_spListenThread up_client = Joinable"
  "m_spWorker up_client = Some (SetBev (Some 7) CClientWorker_new)"
  by (simp_all add: up_client_def client_eval good_net_def)

lemma up_client_reachable: "reachable client_init (client_step (client_demo []) good_net) up_client"
proof -
  have "reachable client_init (client_step (client_demo []) good_net) new_client"
    by (rule reachable_init) (auto simp: client_init_def)
  moreover have "client_step (client_demo []) good_net new_client up_client"
    by (rule client_act [of _ _ "Act_Init ''10.0.0.1'' 8888" _ "Inr ()"])
       (simp add: void_def prog_simps up_client_run)
  ultimately show ?thesis by (rule reachable_step)
qed

lemma refused_run:
  "\<exists>c. InitSystem (client_demo []) late_net ip port new_client = (Inr (-1), c) \<and> m_bConnect c = 0"
  by (simp add: client_eval good_net_def late_net_def)

text \<open>A short answer, delivered while the request waits.\<close>

lemma sample_answer:
  "\<exists>c'. GetDeviceNum (client_demo []) [package_string (first_page ''SBBH'' ''T120_2'')] ''192.168.2.2'' up_client =
     (Inr ''T120_2'', c')"
proof (rule GetDeviceNum_answer)
  show "client_worker_ok (Some 7) (SetBev (Some 7) CClientWorker_new)" by (rule new_worker_ok)
qed (simp_all add: PAGTAIL_def NUL_def SetBev_def CClientWorker_new_def cworker.defs CWorker_new_def)

section \<open>Connecting\<close>

text \<open>C21: whatever sequence of completed calls, reads, events and timer ticks a client goes through, while
  it counts as connected it has a socket, a worker on that very socket whose dispatch tables are intact,
  and a running event loop.\<close>

theorem connected_client_is_whole:
  assumes "reachable client_init (client_step L N) c" and "m_bConnect c \<noteq> 0"
  shows "\<exists>fd w. m_pBev c = Live fd \<and> m_spWorker c = Some w \<and> client_worker_ok (Some fd) w \<and>
    m_spListenThread c = Joinable"
  using client.reachable_inv [OF assms(1)] assms(2) by (auto simp: client_ok_def connected_ok_def)

theorem connected_client_is_whole_witness:
  "\<exists>fd w. m_pBev up_client = Live fd \<and> m_spWorker up_client = Some w \<and> client_worker_ok (Some fd) w \<and>
    m_spListenThread up_client = Joinable"
  by (rule connected_client_is_whole [OF up_client_reachable]) simp

text \<open>\<open>TryConnect\<close> answers a true \<open>BOOL\<close> in every outcome that returns, a failed attempt included:
  \<open>1\<close> when the client is connected afterwards and \<open>-1\<close> when it is not.\<close>

lemma TryConnect_never_false:
  assumes "TryConnect L N c = (Inr r, c')"
  shows "r \<noteq> 0 \<and> (r = 1) = (m_bConnect c' \<noteq> 0) \<and> (r = -1) = (m_bConnect c' = 0)"
proof (cases "m_bConnect c = 0")
  case True
  then show ?thesis using TryConnect_cases [OF True assms] by (auto simp: BOOL_TRUE_def)
next
  case False
  then show ?thesis using TryConnect_connected [OF False, of L N] assms by (auto simp: BOOL_TRUE_def)
qed

definition down_client :: "demo_db evt_client" where
  "down_client = up_client\<lparr>m_bConnect := 0\<rparr>"

lemma down_client_refused:
  "\<exists>c'. TryConnect (client_demo []) (good_net\<lparr>net_connect := (\<lambda>n ip port. -1)\<rparr>) down_client = (Inr (-1), c')"
  by (simp add: TryConnect_def down_client_def up_client_def client_eval free_if_set_def good_net_def)

text \<open>
  A client whose connections have all been refused: nothing has made the thread object yet. Whether the
  server takes the next attempt: the connect call does not fail and the socket takes the four test bytes.
\<close>

definition refused_client :: "'d evt_client \<Rightarrow> bool" where
  "refused_client c \<longleftrightarrow> m_bConnect c = 0 \<and> m_spListenThread c = No_thread \<and>
     (\<exists>fd. m_pBev c = Live fd) \<and> (\<exists>x. m_pBase c = ptr_of x)"

definition server_accepts :: "('j, 'd) libs \<Rightarrow> net \<Rightarrow> 'd evt_client \<Rightarrow> bool" where
  "server_accepts L N c \<longleftrightarrow>
     net_connect N (cl_attempts c) (c_str (m_strIP c)) (m_nPort c) \<noteq> -1 \<and>
     4 \<le> c_int (sock_send L (w_sends (cl_world c)) (the (net_bev N (cl_attempts c))) ''test'')"

fun try_times :: "('j, 'd) libs \<Rightarrow> net \<Rightarrow> nat \<Rightarrow> ('d evt_client, unit) prog" where
  "try_times L N 0 = ret ()"
| "try_times L N (Suc n) = andThen (TryConnect L N) (\<lambda>_. try_times L N n)"

lemma refused_by_init:
  assumes "InitSystem L N ip port (LibEvtClient_new junk d) = (Inr (-1), c)"
  shows "refused_client c"
  using assms
  by (auto simp: InitSystem_def client_IsConnect_def LibEvtClient_new_def SetIPAndPort_def make_base_def prog_simps
      try_socket_def cl_in_world_def zoom_def the_ptr_def ptr_of_def refused_client_def new_worker_def put_worker_def
      on_thread_def reset_thread_def SetConnect_def TryAgain_def Let_def
      split: option.splits if_splits)

lemma refused_step:
  assumes "refused_client c" and "net_bev N (cl_attempts c) = Some fd"
  shows "\<exists>c'. TryConnect L N c = (if server_accepts L N c then Inl (UB Null_pointer) else Inr (-1), c') \<and>
    refused_client c' \<and> (server_accepts L N c \<longrightarrow> m_spWorker c' = Some (SetBev (Some fd) CClientWorker_new))"
proof -
  obtain fd0 x where c: "m_bConnect c = 0" "m_spListenThread c = No_thread" "m_pBev c = Live fd0" "m_pBase c = ptr_of x"
    using assms(1) by (auto simp: refused_client_def)
  have "free_if_set (m_pBase c) \<in> {Inr Null, Inr Freed}"
    using c(4) by (auto simp: ptr_of_def free_if_set_def split: option.split)
  then show ?thesis
    using c(1-3) assms(2)
    by (auto simp: TryConnect_def prog_simps free_if_set_def make_base_def ptr_of_def [of "net_bev N k" for k]
        try_socket_def the_ptr_def cl_in_world_def zoom_def new_worker_def put_worker_def on_thread_def join_thread_def
        server_accepts_def refused_client_def Let_def)
qed

text \<open>C35: a client whose first connection attempt failed never comes up through
  \<open>TryConnect\<close>, as long as libevent can make its bufferevents: after any number of
  calls that returned, the next call answers -1 again when the server does not take the attempt;
  when the server takes it, the call makes the worker and then dereferences the null pointer to the
  thread that only a successful \<open>InitSystem\<close> makes. In both cases the client stays
  disconnected and without a thread.\<close>

theorem no_recovery_after_refusal:
  assumes "InitSystem L N ip port (LibEvtClient_new junk d) = (Inr (-1), c)"
    and "\<forall>k. net_bev N k \<noteq> None" and "try_times L N n c = (Inr (), c1)" and "TryConnect L N c1 = (r, c2)"
  shows "r = (if server_accepts L N c1 then Inl (UB Null_pointer) else Inr (-1)) \<and>
    m_bConnect c2 = 0 \<and> m_spListenThread c2 = No_thread \<and>
    (server_accepts L N c1 \<longrightarrow>
       m_spWorker c2 = Some (SetBev (net_bev N (cl_attempts c1)) CClientWorker_new))"
proof -
  have "refused_client c1" if "refused_client c" using assms(3) that
  proof (induction n arbitrary: c)
    case 0
    then show ?case by (simp add: prog_simps)
  next
    case (Suc n)
    obtain fd where fd: "net_bev N (cl_attempts c) = Some fd" using assms(2) by blast
    from refused_step [OF Suc.prems(2) fd, of L] Suc.prems(1) Suc.IH show ?case
      by (auto simp: prog_simps split: if_splits)
  qed
  then have c1: "refused_client c1" using refused_by_init [OF assms(1)] by blast
  obtain fd where fd: "net_bev N (cl_attempts c1) = Some fd" using assms(2) by blast
  from refused_step [OF c1 fd, of L] assms(4) show ?thesis by (auto simp: refused_client_def fd)
qed

theorem no_recovery_after_refusal_witness:
  "\<exists>c. InitSystem (client_demo []) late_net ''10.0.0.1'' 8888 new_client = (Inr (-1), c) \<and>
     fst (TryConnect (client_demo []) late_net c) = Inl (UB Null_pointer)"
proof -
  obtain c where c: "InitSystem (client_demo []) late_net ''10.0.0.1'' 8888 new_client = (Inr (-1), c)"
    "cl_attempts c = 1" "server_accepts (client_demo []) late_net c"
    by (simp add: client_eval good_net_def late_net_def server_accepts_def demo_libs_def send_whole_def)
  have bevs: "\<forall>k. net_bev late_net k \<noteq> None" by (simp add: late_net_def good_net_def)
  have zero: "try_times (client_demo []) late_net 0 c = (Inr (), c)" by (simp add: prog_simps)
  show ?thesis
    using no_recovery_after_refusal [OF c(1) bevs zero surjective_pairing] c(1,3) by auto
qed

text \<open>Calling \<open>InitSystem\<close> again after the connection was lost never brings it back: the attempt fails
  or ends the process, because the first event loop's thread was not joined.\<close>

lemma no_second_init:
  assumes "m_bConnect c = 0" and "m_spListenThread c = Joinable"
    and "InitSystem L N ip port c = (r, c')"
  shows "m_bConnect c' = 0 \<and> (r = Inr (-1) \<or> (\<exists>e. r = Inl e))"
  using InitSystem_thread [OF assms] InitSystem_cases [OF assms(1,3)] by auto

text \<open>A heartbeat that cannot be sent never leads to a reconnect while the client counts as connected:
  the timer only makes the one \<open>send\<close> call.\<close>

lemma heartbeat_never_reconnects:
  assumes "m_bConnect c \<noteq> 0" and "m_spWorker c = Some w" and "m_bev w = Some fd"
  shows "\<exists>n. Svc L N c =
    (Inr (), c\<lparr>cl_world := (cl_world c)\<lparr>w_sends := w_sends (cl_world c) @ [(fd, ''h'', n)]\<rparr>\<rparr>)"
proof -
  let ?n = "c_int (sock_send L (w_sends (cl_world c)) fd ''h'')"
  let ?c = "c\<lparr>cl_world := (cl_world c)\<lparr>w_sends := w_sends (cl_world c) @ [(fd, ''h'', ?n)]\<rparr>\<rparr>"
  have "TryConnect L N ?c = (Inr BOOL_TRUE, ?c)" using assms(1) by (intro TryConnect_connected) simp
  then have "Svc L N c = (Inr (), ?c)"
    using assms
    by (simp add: Svc_def client_IsConnect_def prog_simps the_worker_def cl_in_world_def
        SendMsgTo_raw_def Let_def)
  then show ?thesis by blast
qed

text \<open>An event marks the client disconnected unless it is a plain \<open>CONNECTED\<close> event.\<close>

lemma event_disconnects:
  "m_bConnect (snd (event_cb event c)) =
     (if \<not> has_flag event BEV_EVENT_EOF \<and> \<not> has_flag event BEV_EVENT_ERROR \<and> has_flag event BEV_EVENT_CONNECTED
      then m_bConnect c else 0)"
  by (simp add: event_cb_def SetConnect_def prog_simps BOOL_FALSE_def)

text \<open>Which events end a connection: of any set of bufferevent events reported together, exactly those
  that hold \<open>CONNECTED\<close> without \<open>EOF\<close> and \<open>ERROR\<close> leave the client's connection flag alone; every other
  set, the empty one and a timeout included, clears it.\<close>

lemma event_sets_decide:
  assumes "set fs \<subseteq> set bufferevent_events"
  shows "m_bConnect (snd (event_cb (combine fs) c)) =
    (if BEV_EVENT_CONNECTED \<in> set fs \<and> BEV_EVENT_EOF \<notin> set fs \<and> BEV_EVENT_ERROR \<notin> set fs
     then m_bConnect c else 0)"
proof -
  have "f \<in> set bufferevent_events \<Longrightarrow> has_flag (combine fs) f \<longleftrightarrow> f \<in> set fs" for f
    by (rule bev_event.decode [OF assms])
  moreover have "{BEV_EVENT_CONNECTED, BEV_EVENT_EOF, BEV_EVENT_ERROR} \<subseteq> set bufferevent_events"
    by (simp add: bufferevent_events_def)
  ultimately show ?thesis by (simp add: event_disconnects)
qed

section \<open>Requests\<close>

text \<open>Asking for a device number returns what the server answers: when the connection delivers the
  package of a short answer, the request returns its text.\<close>

lemma device_number_answered:
  assumes "m_bConnect c \<noteq> 0" and "m_spWorker c = Some w" and "client_worker_ok (Some fd) w"
    and "m_strData w = []" and "m_strMsgContent w = []" and "length ip < 2147483648"
    and "length s < 1024" and "str_find PAGTAIL s = None" and "NUL \<notin> set s"
  shows "\<exists>c'. GetDeviceNum L [package_string (first_page ''SBBH'' s)] ip c = (Inr s, c')"
  by (rule GetDeviceNum_answer [OF assms])

text \<open>The request for a device number returns only after the flag was raised; when the connection
  delivers nothing that raises it, the call never returns.\<close>

lemma device_number_waits:
  assumes "m_bConnect c \<noteq> 0" and "GetDeviceNum L inputs ip c = (Inr s, c')"
  shows "inputs \<noteq> [] \<and> (\<exists>w. m_spWorker c' = Some w \<and> 0 \<le> m_cmdFinishFlag w \<and> c_strDeviceNum w = s)"
  using GetDeviceNum_flag [OF assms] by blast

text \<open>The polling loop of \<open>waitCMDFinishFlag\<close> ends exactly when some poll finds a flag that is not
  negative.\<close>

lemma wait_ends_iff: "(waitCMDFinishFlag flags \<noteq> None) = (\<exists>k. flags k \<ge> 0)"
  using waitCMDFinishFlag_iff [of flags] by auto

text \<open>The demonstration client, when its connection is refused, prints its ten reports and then
  dereferences a null pointer in the destructor of its local object.\<close>

lemma refused_demo_crashes:
  assumes "InitSystem L N CLIENT_IP CLIENT_PORT (LibEvtClient_new junk d) = (Inr (-1), c)"
    and "m_bConnect c = 0"
  shows "fst (client_main L N (\<lambda>_. []) (LibEvtClient_new junk d)) = Inl (UB Null_pointer)"
  by (rule refused_demo [OF assms])

section \<open>The client's worker\<close>

text \<open>What an answer of the server does to the client: the method entered under its label, and for
  any other label the method of \<open>WCZL\<close>, which ends a pending wait.\<close>

lemma client_dispatch:
  assumes "client_worker_ok bev w"
  shows "\<exists>w'. client_worker_ok bev w' \<and>
    client_excuteCommand L command content (w, d) =
      (case map_of client_commands command of
         Some C_MSQL \<Rightarrow> client_CommanMSQL content
       | Some C_WJLB \<Rightarrow> client_CommanWJLB L content
       | Some C_SBBH \<Rightarrow> client_CommanSBBH content
       | Some C_SKBJ \<Rightarrow> client_CommanSKBJ L content
       | _ \<Rightarrow> client_CommanWCZL content) (w', d)"
proof -
  obtain t w' d' where l: "lookup_client_command command (w, d) = (Inr t, (w', d'))"
    by (cases "sm_at C_WCZL command (c_commandType w)") (auto simp: lookup_client_command_def)
  have tables: "client_tables_ok w" "m_bev w = bev" using assms by (simp_all add: client_worker_ok_def)
  note k = client_tables_lookup [OF tables(1) l]
  have "m_bev w' = m_bev w" using l by (auto simp: lookup_client_command_def split: prod.splits)
  then have ok: "client_worker_ok bev w'" using k(1) tables(2) by (simp add: client_worker_ok_def)
  have none: "t \<noteq> C_TEST"
    using k(3) by (auto simp: client_commands_def split: option.splits if_splits)
  have "client_excuteCommand L command content (w, d) =
      (case map_of client_commands command of
         Some C_MSQL \<Rightarrow> client_CommanMSQL content
       | Some C_WJLB \<Rightarrow> client_CommanWJLB L content
       | Some C_SBBH \<Rightarrow> client_CommanSBBH content
       | Some C_SKBJ \<Rightarrow> client_CommanSKBJ L content
       | _ \<Rightarrow> client_CommanWCZL content) (w', d)"
    using l k(2,3) none
    by (cases "map_of client_commands command")
       (auto simp: client_excuteCommand_def prog_simps split: client_command_type.splits)
  with ok show ?thesis by blast
qed

text \<open>Where a received file is copied to: the computation is defined for every type number except 2
  and the negative ones, for which it reads past its two-entry table.\<close>

lemma GetDirectory_defined_iff:
  "(\<exists>p. GetDirectory L nType name = Inr p) = (nType = 0 \<or> nType = 1 \<or> 2 < nType)"
  by (auto simp: GetDirectory_def Let_def TeachProgramDirect_def)

end
