(* ===== verification/Answers.thy ===== *)
theory Answers
  imports Preserve
begin

text \<open>
  Where the answers of a worker go: whatever a peer sends, the handlers of the server's worker
  make \<open>send\<close> calls only on the worker's own socket, and never take one back.
\<close>

definition sends_only :: "int option \<Rightarrow> send_call list \<Rightarrow> 'd world \<Rightarrow> bool" where
  "sends_only bev old d \<longleftrightarrow> (\<exists>cs. w_sends d = old @ cs \<and> (\<forall>c \<in> set cs. bev = Some (fst c)))"

text \<open>A worker of the server in good order, and only its own calls since \<open>old\<close>.\<close>

definition answering :: "int option \<Rightarrow> send_call list \<Rightarrow> 'd sstate \<Rightarrow> bool" where
  "answering bev old s \<longleftrightarrow> server_worker_ok bev (fst s) \<and> sends_only bev old (snd s)"

lemma sends_only_start: "sends_only bev (w_sends d) d"
  by (simp add: sends_only_def)

lemma sends_only_fs [simp]: "sends_only bev old (d\<lparr>w_fs := fs\<rparr>) = sends_only bev old d"
  by (simp add: sends_only_def)

lemma sends_only_db [simp]: "sends_only bev old (d\<lparr>w_db := h\<rparr>) = sends_only bev old d"
  by (simp add: sends_only_def)

lemma sends_only_call:
  "sends_only (Some fd) old d \<Longrightarrow> sends_only (Some fd) old (d\<lparr>w_sends := w_sends d @ [(fd, s, n)]\<rparr>)"
  by (fastforce simp: sends_only_def)

named_theorems confined "computations that send on one socket only"

lemma confined_raw [confined]: "m_bev w = bev \<Longrightarrow> keeps (sends_only bev old) (SendMsgTo_raw L w s)"
  by (auto simp: keeps_def SendMsgTo_raw_def Let_def intro: sends_only_call split: option.split)

lemma confined_package [confined]: "m_bev w = bev \<Longrightarrow> keeps (sends_only bev old) (send_package L w p)"
  unfolding send_package_def by (intro keeps_intros confined)

lemma confined_msg_loop: "m_bev w = bev \<Longrightarrow> keeps (sends_only bev old) (SendMsgTo_loop L w label s sz is)"
  by (induction "is") (auto intro!: keeps_intros confined)

lemma confined_msg [confined]: "m_bev w = bev \<Longrightarrow> keeps (sends_only bev old) (SendMsgTo L w label s)"
  by (simp add: SendMsgTo_def Let_def confined_msg_loop)

lemma confined_file_loop:
  "m_bev w = bev \<Longrightarrow> keeps (sends_only bev old) (SendFileTo_loop L w label v buf sz is)"
  by (induction "is") (auto intro!: keeps_intros confined)

lemma confined_file [confined]: "m_bev w = bev \<Longrightarrow> keeps (sends_only bev old) (SendFileTo L w label s)"
  unfolding SendFileTo_def by (intro keeps_intros confined_file_loop)

lemma confined_db [confined]: "keeps (sends_only bev old) (on_db m)"
  by (auto simp: keeps_def on_db_def prog_simps split: prod.split)

section \<open>The handlers\<close>

lemma answering_with_worker:
  fixes f :: "server_worker \<Rightarrow> ('d world, 'b) prog"
  assumes f: "\<And>w. m_bev w = bev \<Longrightarrow> keeps (sends_only bev old) (f w)"
  shows "keeps (answering bev old) (with_worker f)"
proof (rule keepsI)
  fix s :: "'d sstate"
  assume s: "answering bev old s"
  obtain w d where wd: "s = (w, d)" by (cases s)
  then have "sends_only bev old (snd (f w d))"
    using s keepsD [OF f, of w d] by (simp add: answering_def server_worker_ok_def)
  then show "answering bev old (snd (with_worker f s))"
    using s wd by (auto simp: answering_def with_worker_def split: prod.split)
qed

lemma answering_worker:
  assumes "keeps (worker_pred (server_worker_ok bev)) m" and "\<And>s. snd (snd (m s)) = snd s"
  shows "keeps (answering bev old) m"
  using assms by (simp add: keeps_def worker_pred_def answering_def)

lemma answering_flag: "keeps (answering bev old) (modify (\<lambda>(w, d). (setCMDFinishFlag n w, d)))"
  by (auto simp: keeps_def modify_def answering_def setCMDFinishFlag_def)

lemma lookup_server_world:
  "snd (snd (lookup_server_command command s)) = snd s" "snd (snd (lookup_server_file command s)) = snd s"
  by (simp_all add: lookup_server_command_def lookup_server_file_def split: prod.split)

lemmas answering_lookups =
  answering_worker [OF keeps_lookup_server_command lookup_server_world(1)]
  answering_worker [OF keeps_lookup_server_file lookup_server_world(2)]

interpretation srv_answers: state_handler "server_handlers L" "answering bev old"
  for L :: "('j, 'd) libs" and bev :: "int option" and old :: "send_call list"
proof unfold_locales
  show "keeps (answering bev old) (excuteCommand (server_handlers L) label content)"
    for label content
    unfolding server_handlers_def server_excuteCommand_def handlers.select_convs
      server_CommanWCZL_def server_CommanMSQL_def server_CommanXZWJ_def server_CommanWJLB_def
      server_CommanSBBH_def server_CommanTEST_def send_done_def SendWCZL_def SendCXWJ_def
    by (rule keeps_andThen [OF answering_lookups(1)])
       (auto intro!: keeps_intros confined answering_with_worker answering_flag
         split: server_command_type.split)
  show "keeps (answering bev old) (excuteFile (server_handlers L) label describe)"
    for label describe
    unfolding server_handlers_def server_excuteFile_def handlers.select_convs server_CommanCXWJ_def
    by (rule keeps_andThen [OF answering_lookups(2)])
       (auto intro!: keeps_intros confined answering_with_worker split: server_file_type.split)
qed (simp_all add: answering_def)

text \<open>Whatever arrives at a worker of the server, it answers on its own socket only.\<close>

lemma server_Process_answers:
  assumes "server_worker_ok bev w" and "Process L (server_handlers L) input (w, d) = (r, (w', d'))"
  shows "server_worker_ok bev w' \<and> sends_only bev (w_sends d) d'"
proof -
  have "keeps (answering bev (w_sends d)) (Process L (server_handlers L) input)"
    by (rule srv_answers.keeps_Process)
  then have "answering bev (w_sends d) (snd (Process L (server_handlers L) input (w, d)))"
    by (rule keepsD) (simp add: answering_def assms(1) sends_only_start)
  then show ?thesis using assms(2) by (simp add: answering_def)
qed

end
