(* ===== verification/Sessions.thy ===== *)
theory Sessions
  imports Answers NotifyProtocol
begin

text \<open>
  The sessions of the server: in every interleaving of \<open>pool_step\<close> the worker a thread keeps
  for a connection answers on that connection's socket and has intact dispatch tables, and a
  callback for one connection touches no other session and sends to nobody else.
\<close>

text \<open>The socket of the bufferevent made for an accepted descriptor.\<close>

definition conn_socket :: "('j, 'd) libs \<Rightarrow> int \<Rightarrow> int option" where
  "conn_socket L fd = bufferevent_socket_new L fd conn_options"

definition thread_ok :: "('j, 'd) libs \<Rightarrow> LibeventThread \<Rightarrow> bool" where
  "thread_ok L t \<longleftrightarrow>
     sm_ok (data_map t) \<and>
     (\<forall>fd w. sm_find fd (data_map t) = Some w \<longrightarrow> server_worker_ok (conn_socket L fd) w)"

definition sessions_ok :: "('j, 'd) libs \<Rightarrow> 'd LibEvtServer \<Rightarrow> bool" where
  "sessions_ok L s \<longleftrightarrow> (\<forall>t. Some t \<in> set (m_libevent_threads s) \<longrightarrow> thread_ok L t)"

text \<open>The worker thread \<open>i\<close> keeps for a descriptor.\<close>

definition worker_of :: "'d LibEvtServer \<Rightarrow> nat \<Rightarrow> int \<Rightarrow> server_worker option" where
  "worker_of s i fd =
     (case map_option data_map (m_libevent_threads s ! i) of None \<Rightarrow> None | Some m \<Rightarrow> sm_find fd m)"

lemma sessions_ok_thread:
  "sessions_ok L s \<Longrightarrow> thread_at i s = (Inr t, s') \<Longrightarrow> thread_ok L t"
  by (metis sessions_ok_def thread_at_InrD nth_mem)

lemma sessions_ok_cong:
  "m_libevent_threads s' = m_libevent_threads s \<Longrightarrow> sessions_ok L s' = sessions_ok L s"
  by (simp add: sessions_ok_def)

lemma sessions_ok_update:
  assumes "sessions_ok L s" and "\<And>t. thread_ok L t \<Longrightarrow> thread_ok L (f t)"
  shows "sessions_ok L (update_thread i f s)"
proof (cases "i < length (m_libevent_threads s)")
  case True
  have "thread_ok L t" if "Some t \<in> set (m_libevent_threads (update_thread i f s))" for t
  proof -
    have "Some t \<in> insert (map_option f (m_libevent_threads s ! i)) (set (m_libevent_threads s))"
      using that set_update_subset_insert [of "m_libevent_threads s" i "map_option f (m_libevent_threads s ! i)"]
      by (auto simp: update_thread_def)
    then show ?thesis
      using assms nth_mem [OF True] by (cases "m_libevent_threads s ! i") (auto simp: sessions_ok_def)
  qed
  then show ?thesis by (simp add: sessions_ok_def)
next
  case False
  then show ?thesis using assms(1) by (simp add: sessions_ok_def update_thread_def list_update_beyond)
qed

lemma sessions_ok_become:
  assumes "sessions_ok L s" and "threads_become s i f s'" and "\<And>t. thread_ok L t \<Longrightarrow> thread_ok L (f t)"
  shows "sessions_ok L s'"
  using sessions_ok_update [OF assms(1,3), where i = i] assms(2)
  by (simp add: threads_become_def sessions_ok_def)

text \<open>Updates of a thread that keep it in order.\<close>

lemma thread_ok_fields [simp]:
  "thread_ok L (t\<lparr>conn_queue := q\<rparr>) = thread_ok L t"
  "thread_ok L (t\<lparr>notify_bytes := b\<rparr>) = thread_ok L t"
  "thread_ok L (push_byte c t) = thread_ok L t"
  "thread_ok L (push_conn x t) = thread_ok L t"
  by (simp_all add: thread_ok_def push_byte_def push_conn_def)

lemma thread_ok_put:
  "thread_ok L t \<Longrightarrow> server_worker_ok (conn_socket L fd) w \<Longrightarrow>
   thread_ok L (t\<lparr>data_map := sm_put fd w (data_map t)\<rparr>)"
  by (simp add: thread_ok_def sm_ok_put sm_find_put)

lemma thread_ok_erase: "thread_ok L t \<Longrightarrow> thread_ok L (t\<lparr>data_map := sm_erase fd (data_map t)\<rparr>)"
  by (auto simp: thread_ok_def sm_ok_erase sm_find_erase)

text \<open>The worker of a new connection, whether or not an old entry is reused.\<close>

lemma opened_worker_ok:
  assumes "thread_ok L t"
  shows "server_worker_ok (conn_socket L fd)
    (SetIP ip (SetBev (conn_socket L fd) (fst (sm_at CServerWorker_new fd (data_map t)))))"
proof -
  have "server_tables_ok (fst (sm_at CServerWorker_new fd (data_map t)))"
    using assms server_tables_new
    by (auto simp: thread_ok_def server_worker_ok_def sm_at_value split: option.split)
  then show ?thesis by (simp add: server_worker_ok_def SetIP_def SetBev_def server_tables_ok_def)
qed

lemma sessions_ok_open:
  assumes "sessions_ok L s" and "open_conn L i item s = (r, s')"
  shows "sessions_ok L s'"
proof (cases "thread_at i s")
  case (Pair r0 s0)
  then have s0: "s0 = s" by (auto simp: thread_at_def split: if_splits option.splits)
  show ?thesis
  proof (cases r0)
    case (Inl e)
    then show ?thesis using assms Pair s0 by (simp add: open_conn_def prog_simps)
  next
    case (Inr t)
    define w where "w = SetIP (item_strIP item) (SetBev (conn_socket L (item_fd item))
      (fst (sm_at CServerWorker_new (item_fd item) (data_map t))))"
    define s1 where "s1 = update_thread i (\<lambda>t. t\<lparr>data_map := sm_put (item_fd item) w (data_map t)\<rparr>) s"
    have "thread_ok L t" using sessions_ok_thread [OF assms(1)] Pair Inr by blast
    then have w: "server_worker_ok (conn_socket L (item_fd item)) w"
      unfolding w_def by (rule opened_worker_ok)
    have "sessions_ok L s1"
      unfolding s1_def by (intro sessions_ok_update [OF assms(1)] thread_ok_put w)
    moreover have "in_world (SendSKBJ L w (GetClass s1) (GetCourse s1)) s1 = (r, s')"
      using assms(2) Pair s0 Inr by (simp add: open_conn_def prog_simps w_def s1_def conn_socket_def Let_def)
    ultimately show ?thesis using in_world_threads sessions_ok_cong by metis
  qed
qed

text \<open>What a read callback does, given that the connection has a session.\<close>

lemma conn_readcb_session:
  assumes "sessions_ok L s" and "thread_at i s = (Inr t, s)" and "sm_find fd (data_map t) = Some w"
    and "conn_readcb L i fd input s = (r, s')"
  obtains w' d' where "Process L (server_handlers L) (read_chunks input) (w, sv_world s) = (r, (w', d'))"
    and "s' = (update_thread i (\<lambda>t. t\<lparr>data_map := sm_put fd w' (data_map t)\<rparr>) s)\<lparr>sv_world := d'\<rparr>"
    and "server_worker_ok (conn_socket L fd) w'"
    and "sends_only (conn_socket L fd) (w_sends (sv_world s)) d'"
proof -
  obtain r1 w' d' where p: "Process L (server_handlers L) (read_chunks input) (w, sv_world s) = (r1, (w', d'))"
    by (metis prod.exhaust)
  have "server_worker_ok (conn_socket L fd) w"
    using sessions_ok_thread [OF assms(1,2)] assms(3) by (simp add: thread_ok_def)
  from server_Process_answers [OF this p]
  have ok: "server_worker_ok (conn_socket L fd) w'"
    and sends: "sends_only (conn_socket L fd) (w_sends (sv_world s)) d'" by simp_all
  have "r1 = r" and "s' = (update_thread i (\<lambda>t. t\<lparr>data_map := sm_put fd w' (data_map t)\<rparr>) s)\<lparr>sv_world := d'\<rparr>"
    using assms(2-4) p by (auto simp: conn_readcb_def prog_simps sm_at_def)
  then show thesis using that p ok sends by blast
qed

lemma worker_of_put:
  assumes "thread_at i s = (Inr t, s)"
  shows "worker_of ((update_thread i (\<lambda>t. t\<lparr>data_map := sm_put fd w (data_map t)\<rparr>) s)\<lparr>sv_world := d\<rparr>) j k =
    (if j = i \<and> k = fd then Some w else worker_of s j k)"
  using thread_at_InrD [OF assms]
  by (auto simp: worker_of_def update_thread_def nth_list_update sm_find_put)

section \<open>The invariant\<close>

definition session_inv :: "('j, 'd) libs \<Rightarrow> 'd pool \<Rightarrow> bool" where
  "session_inv L p \<longleftrightarrow> sessions_ok L (pl_server p)"

lemma session_init:
  assumes "pool_init L E p"
  shows "session_inv L p"
proof -
  obtain d where E: "os_base E" "\<forall>i < THREAD_NUMB. os_pair E i \<noteq> None"
    and n: "LibEvtServer_new L E d = (Inr True, pl_server p)"
    using assms by (auto simp: pool_init_def)
  have "m_libevent_threads (pl_server p) = map (\<lambda>i. Some (started_thread E i)) [0..<THREAD_NUMB]"
    using server_new_up [OF E, of L d] n by auto
  then show ?thesis by (auto simp: session_inv_def sessions_ok_def thread_ok_def sm_ok_def)
qed

lemma session_handle:
  assumes "sessions_ok L s" and "handle_byte L i c s = (Inr (), s')"
  shows "sessions_ok L s'"
proof (cases "is_conn c")
  case False
  then have "threads_become s i (\<lambda>t. t) s'"
    using handle_byte_broadcast [OF assms(2)] by (auto simp: is_conn_def)
  then show ?thesis by (rule sessions_ok_become [OF assms(1)])
next
  case True
  then obtain item s1 where pop: "pop_conn i s = (Inr item, s1)" and op: "open_conn L i item s1 = (Inr (), s')"
    using handle_byte_conn [OF assms(2)] by (auto simp: is_conn_def)
  obtain q where "threads_become s i (\<lambda>t. t\<lparr>conn_queue := q\<rparr>) s1"
    by (rule pop_conn_become [OF pop])
  then have "sessions_ok L s1" by (rule sessions_ok_become [OF assms(1)]) simp
  then show ?thesis using op by (rule sessions_ok_open)
qed

lemma session_event:
  assumes "sessions_ok L s" and "conn_eventcb i fd s = (r, s')"
  shows "sessions_ok L s'"
proof -
  have "sessions_ok L (update_thread i (\<lambda>t. t\<lparr>data_map := sm_erase fd (data_map t)\<rparr>) s)"
    by (intro sessions_ok_update [OF assms(1)] thread_ok_erase)
  then show ?thesis
    using assms
    by (auto simp: conn_eventcb_def prog_simps thread_at_def split: if_splits option.splits)
qed

lemma session_accept:
  assumes "sessions_ok L s" and "listener_queue fd ip s = (r, s')"
  shows "sessions_ok L s'"
proof -
  let ?s = "s\<lparr>m_last_thread := next_thread (m_last_thread s)\<rparr>"
  have s: "sessions_ok L ?s" using assms(1) by (simp add: sessions_ok_def)
  show ?thesis
    using assms(2) s sessions_ok_update [OF s, where f = "push_conn \<lparr>item_fd = fd, item_strIP = ip\<rparr>"]
    by (auto simp: listener_queue_def prog_simps thread_at_def split: if_splits option.splits)
qed

lemma session_notify:
  assumes "sessions_ok L s" and "notify_thread L i c s = (Inr (), s')"
  shows "sessions_ok L s'"
  using notify_thread_become(1) [OF assms(2)] sessions_ok_become [OF assms(1)] by fastforce

lemma session_step:
  assumes inv: "session_inv L p" and st: "pool_step L p q"
  shows "session_inv L q"
proof -
  have s: "sessions_ok L (pl_server p)" using inv by (simp add: session_inv_def)
  have "sessions_ok L (pl_server q)"
    using st
  proof cases
    case (step_accept fd ip i s')
    then show ?thesis using session_accept [OF s] by simp
  next
    case (step_wake i s')
    then show ?thesis using session_notify [OF s] by simp
  next
    case (step_class c k)
    then show ?thesis using s by (simp add: sessions_ok_def)
  next
    case (step_file n f)
    then show ?thesis using s by (simp add: sessions_ok_def)
  next
    case (step_broadcast c i s')
    then show ?thesis using session_notify [OF s] by simp
  next
    case (step_poll ips s')
    then show ?thesis using s poll_threads sessions_ok_cong by fastforce
  next
    case (step_recv i c s')
    obtain cs where "threads_become (pl_server p) i (\<lambda>t. t\<lparr>notify_bytes := cs\<rparr>) s'"
      by (rule recv_byte_become [OF step_recv(3)])
    then have "sessions_ok L s'" by (rule sessions_ok_become [OF s]) simp
    then show ?thesis using step_recv(1) by simp
  next
    case (step_handle i c s')
    then show ?thesis using session_handle [OF s] by simp
  next
    case (step_read i t fd input r s')
    then obtain w where w: "sm_find fd (data_map t) = Some w" by blast
    obtain w' d' where s': "s' = (update_thread i (\<lambda>t. t\<lparr>data_map := sm_put fd w' (data_map t)\<rparr>) (pl_server p))\<lparr>sv_world := d'\<rparr>"
      and ok: "server_worker_ok (conn_socket L fd) w'"
      by (rule conn_readcb_session [OF s step_read(3) w step_read(5)])
    have "sessions_ok L (update_thread i (\<lambda>t. t\<lparr>data_map := sm_put fd w' (data_map t)\<rparr>) (pl_server p))"
      by (intro sessions_ok_update [OF s] thread_ok_put ok)
    then have "sessions_ok L s'" by (simp add: s' sessions_ok_def)
    then show ?thesis using step_read(1) by simp
  next
    case (step_event i t fd s')
    then show ?thesis using session_event [OF s] by simp
  qed
  then show ?thesis by (simp add: session_inv_def)
qed

interpretation sessions: invariant_system "pool_init L E" "pool_step L" "session_inv L"
  for L :: "('j, 'd) libs" and E :: os
  by unfold_locales (rule session_init, assumption, rule session_step)

end
