(* ===== verification/Broadcast.thy ===== *)
theory Broadcast
  imports Sessions
begin

text \<open>
  The start of a class from end to end: \<open>Give_A_Class\<close> writes a byte to every worker thread, the
  thread's \<open>notify_cb\<close> tells every connection the class, and the client's worker stores it.
\<close>

section \<open>The text of a class\<close>

text \<open>
  The database answers the query for the students of a class with the same text as long as
  nothing is written in between: \<open>P\<close> holds of the handle before and after.
\<close>

definition steady_class :: "('j, 'd) libs \<Rightarrow> ('d datahelper \<Rightarrow> bool) \<Rightarrow> string \<Rightarrow> string \<Rightarrow> bool" where
  "steady_class L P strClass strOut \<longleftrightarrow>
     (\<forall>h. P h \<longrightarrow> (\<exists>r h'. Display L (skbj_sql strClass) [] h = (Inr (r, strOut), h') \<and> P h'))"

lemma skbj_json_view:
  assumes J: "json_objects (json L) is_obj"
  obtains js where "skbj_json L strClass strCourse strOut = Some js"
    and "json_str (json L) js FILE_CLASS = Some (js, strClass)"
    and "json_str (json L) js FILE_COURES = Some (js, strCourse)"
    and "json_str (json L) js CLASS_INFO = Some (js, strOut)"
proof -
  let ?J = "json L"
  let ?s = "js_of_string ?J"
  obtain v1 where v1: "js_put ?J (js_null ?J) FILE_CLASS (?s strClass) = Some v1" "is_obj v1"
    "js_index ?J v1 FILE_CLASS = Some (v1, ?s strClass)"
    using json_objects_set [OF J disjI2 [OF refl], of FILE_CLASS "?s strClass"] by blast
  obtain v2 where v2: "js_put ?J v1 FILE_COURES (?s strCourse) = Some v2" "is_obj v2"
    "js_index ?J v2 FILE_COURES = Some (v2, ?s strCourse)"
    using json_objects_set [OF J disjI1 [OF v1(2)], of FILE_COURES "?s strCourse"] by blast
  obtain v3 where v3: "js_put ?J v2 CLASS_INFO (?s strOut) = Some v3"
    "js_index ?J v3 CLASS_INFO = Some (v3, ?s strOut)"
    using json_objects_set [OF J disjI1 [OF v2(2)], of CLASS_INFO "?s strOut"] by blast
  note keep2 = json_objects_keep [OF J disjI1 [OF v1(2)] v2(1)]
  note keep3 = json_objects_keep [OF J disjI1 [OF v2(2)] v3(1)]
  have "js_index ?J v3 FILE_CLASS = Some (v3, ?s strClass)"
    using v1(3) by (intro keep3 keep2) (simp_all add: json_keys)
  moreover have "js_index ?J v3 FILE_COURES = Some (v3, ?s strCourse)"
    using v2(3) by (intro keep3) (simp_all add: json_keys)
  ultimately show thesis
    using v1(1) v2(1) v3
    by (intro that [of v3]) (simp_all add: skbj_json_def json_str_def json_objects_values [OF J])
qed

section \<open>One thread's connections\<close>

lemma SendSKBJ_steady:
  assumes "steady_class L P strClass strOut" and "P (w_db d)" and "sends_all L"
    and "skbj_json L strClass strCourse strOut = Some js" and "length (JsonToString L js) < 1024"
    and "m_bev w = Some fd"
  shows "\<exists>d'. SendSKBJ L w strClass strCourse d = (Inr (), d') \<and> P (w_db d') \<and> w_fs d' = w_fs d \<and>
    w_sends d' = w_sends d @ [sent fd (first_page ''SKBJ'' (JsonToString L js))]"
proof -
  obtain r h' where h: "Display L (skbj_sql strClass) [] (w_db d) = (Inr (r, strOut), h')" "P h'"
    using assms(1,2) by (auto simp: steady_class_def)
  have "length (package_string (first_page ''SKBJ'' (JsonToString L js))) < 2147483648"
    by (rule first_page_short_length [OF assms(5)]) simp
  from SendMsgTo_all [OF assms(3,6) _ this] assms(5)
  have "SendMsgTo L w ''SKBJ'' (JsonToString L js) (d\<lparr>w_db := h'\<rparr>) = (Inr (-1),
      (d\<lparr>w_db := h'\<rparr>)\<lparr>w_sends := w_sends d @ [sent fd (first_page ''SKBJ'' (JsonToString L js))]\<rparr>)"
    by (simp add: sent_def)
  then show ?thesis using h assms(4) by (simp add: SendSKBJ_def on_db_def prog_simps)
qed

lemma send_class_all_steady:
  assumes "steady_class L P strClass strOut" and "P (w_db d)" and "sends_all L"
    and "skbj_json L strClass strCourse strOut = Some js" and "length (JsonToString L js) < 1024"
    and "\<forall>(k, w) \<in> set m. m_bev w = Some k"
  shows "\<exists>d'. send_class_all L strClass strCourse m d = (Inr (), d') \<and> P (w_db d') \<and>
    w_sends d' = w_sends d @ map (\<lambda>(k, w). sent k (first_page ''SKBJ'' (JsonToString L js))) m"
  using assms(2,6)
proof (induction m arbitrary: d)
  case Nil
  then show ?case by (simp add: prog_simps)
next
  case (Cons kw m)
  obtain k w where kw: "kw = (k, w)" by (cases kw)
  obtain d1 where d1: "SendSKBJ L w strClass strCourse d = (Inr (), d1)" "P (w_db d1)"
    "w_sends d1 = w_sends d @ [sent k (first_page ''SKBJ'' (JsonToString L js))]"
    using SendSKBJ_steady [OF assms(1) _ assms(3-5), of d w k] Cons.prems kw by auto
  from Cons.IH [OF d1(2)] Cons.prems(2) kw d1 show ?case by (auto simp: prog_simps)
qed

text \<open>Of calls to distinct sockets, each socket sees its own.\<close>

lemma wire_other: "k \<notin> fst ` set m \<Longrightarrow> wire k (concat (map (\<lambda>(k, w). map (sent k) ps) m)) = []"
proof (induction m)
  case (Cons kw m)
  have none: "wire k (map (sent j) qs) = []" if "j \<noteq> k" for j qs
    using that by (induction qs) (auto simp: wire_def sent_def)
  obtain j v where kw: "kw = (j, v)" by (cases kw)
  with Cons none [of j ps] show ?case by (simp add: wire_def)
qed (simp add: wire_def)

lemma wire_many:
  assumes "distinct (map fst m)" and "(k, w) \<in> set m"
  shows "wire k (concat (map (\<lambda>(k, w). map (sent k) ps) m)) = concat (map package_string ps)"
  using assms
proof (induction m)
  case Nil
  then show ?case by simp
next
  case (Cons kw m)
  obtain j v where kw: "kw = (j, v)" by (cases kw)
  have split: "wire k (concat (map (\<lambda>(k, w). map (sent k) ps) (kw # m))) =
      wire k (map (sent j) ps) @ wire k (concat (map (\<lambda>(k, w). map (sent k) ps) m))"
    by (simp add: kw wire_def)
  show ?case
  proof (cases "j = k")
    case True
    then have "k \<notin> fst ` set m" using Cons.prems(1) kw by auto
    then show ?thesis unfolding split True wire_sent by (simp add: wire_other)
  next
    case False
    then have "k \<notin> fst ` set [(j, v)]" by simp
    then have "wire k (map (sent j) ps) = []" using wire_other [of k "[(j, v)]" ps] by simp
    moreover have "wire k (concat (map (\<lambda>(k, w). map (sent k) ps) m)) = concat (map package_string ps)"
      using False Cons kw by auto
    ultimately show ?thesis unfolding split by simp
  qed
qed

lemma wire_one:
  assumes "distinct (map fst m)" and "(k, w) \<in> set m"
  shows "wire k (map (\<lambda>(k, w). sent k p) m) = package_string p"
proof -
  have "map (\<lambda>(k, w). sent k p) m = concat (map (\<lambda>(k, w). map (sent k) [p]) m)"
    by (induction m) auto
  then show ?thesis using wire_many [OF assms, of "[p]"] by simp
qed

section \<open>A new connection\<close>

text \<open>Starting the server sets no class.\<close>

definition no_class :: "'d LibEvtServer \<Rightarrow> bool" where
  "no_class s \<longleftrightarrow> GetClass s = [] \<and> GetCourse s = []"

lemma no_class_make_threads: "keeps no_class (make_threads L E is)"
  by (induction "is")
     (auto intro!: keeps_intros keeps_modify simp: Let_def no_class_def GetClass_def GetCourse_def split: option.split)

lemma server_new_no_class: "no_class (snd (LibEvtServer_new L E d))"
proof -
  have "keeps no_class (server_init L E)"
    unfolding server_init_def init_threads_def listen_def
    by (intro keeps_intros keeps_modify no_class_make_threads) (auto simp: no_class_def GetClass_def GetCourse_def)
  then show ?thesis
    unfolding LibEvtServer_new_def by (rule keepsD) (simp add: no_class_def LibEvtServer_raw_def GetClass_def GetCourse_def)
qed

text \<open>The thread that takes a connection makes its worker and tells the client the class.\<close>

lemma open_conn_steady:
  assumes "thread_at i s = (Inr t, s)" and "bufferevent_socket_new L (item_fd item) conn_options = Some (item_fd item)"
    and "sends_all L" and "steady_class L P (GetClass s) strOut" and "P (w_db (sv_world s))"
    and "skbj_json L (GetClass s) (GetCourse s) strOut = Some js" and "length (JsonToString L js) < 1024"
  shows "\<exists>w d'. open_conn L i item s = (Inr (),
      (update_thread i (\<lambda>t. t\<lparr>data_map := sm_put (item_fd item) w (data_map t)\<rparr>) s)\<lparr>sv_world := d'\<rparr>) \<and>
    m_bev w = Some (item_fd item) \<and> GetIP w = item_strIP item \<and> P (w_db d') \<and>
    w_fs d' = w_fs (sv_world s) \<and>
    w_sends d' = w_sends (sv_world s) @ [sent (item_fd item) (first_page ''SKBJ'' (JsonToString L js))]"
proof -
  define w where "w = SetIP (item_strIP item) (SetBev (Some (item_fd item))
    (fst (sm_at CServerWorker_new (item_fd item) (data_map t))))"
  define s1 where "s1 = update_thread i (\<lambda>t. t\<lparr>data_map := sm_put (item_fd item) w (data_map t)\<rparr>) s"
  have w: "m_bev w = Some (item_fd item)" "GetIP w = item_strIP item"
    by (simp_all add: w_def SetIP_def SetBev_def GetIP_def)
  have s1: "GetClass s1 = GetClass s" "GetCourse s1 = GetCourse s" "sv_world s1 = sv_world s"
    by (simp_all add: s1_def GetClass_def GetCourse_def)
  obtain d' where d': "SendSKBJ L w (GetClass s) (GetCourse s) (sv_world s) = (Inr (), d')" "P (w_db d')"
    "w_fs d' = w_fs (sv_world s)" "w_sends d' = w_sends (sv_world s) @ [sent (item_fd item) (first_page ''SKBJ'' (JsonToString L js))]"
    using SendSKBJ_steady [OF assms(4,5,3,6,7) w(1)] by blast
  have "open_conn L i item s = in_world (SendSKBJ L w (GetClass s1) (GetCourse s1)) s1"
    using assms(1,2) by (simp add: open_conn_def prog_simps w_def s1_def Let_def)
  then have "open_conn L i item s = (Inr (), s1\<lparr>sv_world := d'\<rparr>)"
    using d'(1) by (simp add: in_world_def zoom_apply s1)
  then show ?thesis using w d' unfolding s1_def by blast
qed

section \<open>The bytes to the threads\<close>

lemma notify_thread_all:
  assumes "sends_all L" and "i < length (m_libevent_threads s)" and "m_libevent_threads s ! i = Some t"
  shows "\<exists>d'. notify_thread L i c s = (Inr (), update_thread i (push_byte c) (s\<lparr>sv_world := d'\<rparr>)) \<and>
    w_db d' = w_db (sv_world s) \<and> w_fs d' = w_fs (sv_world s)"
  using assms
  by (simp add: notify_thread_def prog_simps thread_at_def sends_all_def c_int_def Let_def)
    (rule exI [of _ "(sv_world s)\<lparr>w_sends := w_sends (sv_world s) @ [(notfiy_send_fd t, [c], 1)]\<rparr>"], simp)

lemma notify_all_up:
  assumes "sends_all L" and "threads_up s" and "distinct is" and "\<forall>i \<in> set is. i < THREAD_NUMB"
  shows "\<exists>s'. notify_all L c is s = (Inr (), s') \<and> threads_up s' \<and>
    m_strClass s' = m_strClass s \<and> m_strCourse s' = m_strCourse s \<and>
    m_strFilePath s' = m_strFilePath s \<and> m_nType s' = m_nType s \<and>
    w_db (sv_world s') = w_db (sv_world s) \<and> w_fs (sv_world s') = w_fs (sv_world s) \<and>
    (\<forall>j < THREAD_NUMB. \<forall>t. m_libevent_threads s ! j = Some t \<longrightarrow>
       m_libevent_threads s' ! j = Some (if j \<in> set is then push_byte c t else t))"
  using assms(2-)
proof (induction "is" arbitrary: s)
  case Nil
  then show ?case by (simp add: prog_simps)
next
  case (Cons i js)
  have i: "i < THREAD_NUMB" "i < length (m_libevent_threads s)" using Cons.prems by (auto simp: threads_up_def)
  obtain t where t: "m_libevent_threads s ! i = Some t" using threads_up_nth [OF Cons.prems(1) i(1)] by blast
  obtain d' where d': "notify_thread L i c s = (Inr (), update_thread i (push_byte c) (s\<lparr>sv_world := d'\<rparr>))"
    "w_db d' = w_db (sv_world s)" "w_fs d' = w_fs (sv_world s)"
    using notify_thread_all [OF assms(1) i(2) t] by blast
  let ?s1 = "update_thread i (push_byte c) (s\<lparr>sv_world := d'\<rparr>)"
  have up: "threads_up ?s1" using threads_up_update [of "s\<lparr>sv_world := d'\<rparr>"] Cons.prems(1) by (simp add: threads_up_def)
  obtain s' where s': "notify_all L c js ?s1 = (Inr (), s')" "threads_up s'"
    "m_strClass s' = m_strClass s" "m_strCourse s' = m_strCourse s" "w_db (sv_world s') = w_db d'"
    "m_strFilePath s' = m_strFilePath s" "m_nType s' = m_nType s" "w_fs (sv_world s') = w_fs d'"
    "\<forall>j < THREAD_NUMB. \<forall>t. m_libevent_threads ?s1 ! j = Some t \<longrightarrow>
       m_libevent_threads s' ! j = Some (if j \<in> set js then push_byte c t else t)"
    using Cons.IH [OF up] Cons.prems(2,3) by auto
  have "m_libevent_threads s' ! j = Some (if j \<in> set (i # js) then push_byte c u else u)"
    if "j < THREAD_NUMB" "m_libevent_threads s ! j = Some u" for j u
  proof -
    have "m_libevent_threads ?s1 ! j = Some (if i = j then push_byte c u else u)"
      using that Cons.prems(1) by (subst update_thread_nth) (simp_all add: threads_up_def)
    with s'(9) that(1) Cons.prems(2) show ?thesis by (cases "i = j") auto
  qed
  with d' s' show ?case by (simp add: prog_simps)
qed

text \<open>An idle thread then receives the byte first, and serves the same connections.\<close>

lemma broadcast_received:
  assumes up: "threads_up s" and i: "i < THREAD_NUMB" and t: "m_libevent_threads s ! i = Some t"
    and idle: "notify_bytes t = []" and L: "sends_all L"
  obtains s1 r t1 where "andThen each_thread (\<lambda>is. andThen (notify_all L c is) (\<lambda>_. ret (0::int))) s = (Inr 0, s1)"
    and "recv_byte i s1 = (Inr (Some c), r)" and "thread_at i r = (Inr t1, r)" and "data_map t1 = data_map t"
    and "GetClass r = GetClass s" and "GetCourse r = GetCourse s" and "GetFile r = GetFile s" and "GetType r = GetType s"
    and "sv_world r = sv_world s1" and "w_db (sv_world s1) = w_db (sv_world s)" and "w_fs (sv_world s1) = w_fs (sv_world s)"
proof -
  have len: "length (m_libevent_threads s) = THREAD_NUMB" using up by (simp add: threads_up_def)
  obtain s1 where s1: "notify_all L c [0..<THREAD_NUMB] s = (Inr (), s1)" "threads_up s1"
    "m_strClass s1 = m_strClass s" "m_strCourse s1 = m_strCourse s" "m_strFilePath s1 = m_strFilePath s" "m_nType s1 = m_nType s"
    "w_db (sv_world s1) = w_db (sv_world s)" "w_fs (sv_world s1) = w_fs (sv_world s)"
    "m_libevent_threads s1 ! i = Some (push_byte c t)"
    using notify_all_up [OF L up, of "[0..<THREAD_NUMB]" c] t i by auto
  have len1: "i < length (m_libevent_threads s1)" using s1(2) i by (simp add: threads_up_def)
  define r where "r = update_thread i (\<lambda>t. t\<lparr>notify_bytes := []\<rparr>) s1"
  define t1 where "t1 = (push_byte c t)\<lparr>notify_bytes := []\<rparr>"
  have "m_libevent_threads r ! i = Some t1"
    using s1(9) len1 by (simp add: r_def t1_def update_thread_nth)
  then have at: "thread_at i r = (Inr t1, r)"
    using len1 by (intro thread_at_Some) (simp_all add: r_def)
  have recv: "recv_byte i s1 = (Inr (Some c), r)"
    using thread_at_Some [OF len1 s1(9)] idle by (simp add: r_def recv_byte_def prog_simps push_byte_def)
  have "andThen each_thread (\<lambda>is. andThen (notify_all L c is) (\<lambda>_. ret (0::int))) s = (Inr 0, s1)"
    using s1(1) len by (simp add: each_thread_def prog_simps)
  from this recv at show thesis
    by (rule that)
       (simp_all add: s1 r_def t1_def push_byte_def GetClass_def GetCourse_def GetFile_def GetType_def)
qed

lemma notify_cb_class:
  assumes "recv_byte i s = (Inr (Some (CHR ''a'')), s1)" and "thread_at i s1 = (Inr t, s1)"
    and "send_class_all L (m_strClass s1) (m_strCourse s1) (data_map t) (sv_world s1) = (Inr (), d)"
  shows "notify_cb L i s = (Inr (), s1\<lparr>sv_world := d\<rparr>)"
  using assms by (simp add: notify_cb_def handle_byte_def prog_simps in_world_def GetClass_def GetCourse_def)

section \<open>The client's side\<close>

lemma client_class_stored:
  assumes w: "client_worker_ok bev w" and e: "m_strData w = []" "m_strMsgContent w = []"
    and len: "length text < 1024" and tail: "str_find PAGTAIL text = None"
    and parse: "StringToJson L text = Some js"
    and c: "json_str (json L) js FILE_CLASS = Some (js, strClass)"
    and k: "json_str (json L) js FILE_COURES = Some (js, strCourse)"
    and i: "json_str (json L) js CLASS_INFO = Some (js, strOut)"
  shows "\<exists>w'. Process L (client_handlers L) (package_string (first_page ''SKBJ'' text)) (w, d) =
      (Inr Drained, (w', d)) \<and> client_worker_ok bev w' \<and>
    worker_GetClass w' = strClass \<and> worker_GetCourse w' = strCourse \<and> worker_GetClassStudent w' = strOut"
proof -
  let ?w2 = "w\<lparr>m_strMsgContent := text\<rparr>"
  have ok: "client_tables_ok ?w2" using w by (simp add: client_worker_ok_def client_tables_ok_def)
  obtain t w3 d3 where l: "lookup_client_command ''SKBJ'' (?w2, d) = (Inr t, (w3, d3))"
    by (cases "sm_at C_WCZL ''SKBJ'' (c_commandType ?w2)") (auto simp: lookup_client_command_def)
  have t: "t = C_SKBJ" and d3: "d3 = d"
    using client_tables_lookup(2,3) [OF ok l] by (simp_all add: client_commands_def)
  let ?w4 = "w3\<lparr>c_strClass := strClass, c_strCourse := strCourse, c_strClassInfo := strOut\<rparr>"
  have "client_excuteCommand L ''SKBJ'' text (?w2, d) = (Inr (), (?w4, d))"
    using l t d3 parse c k i
    by (simp add: client_excuteCommand_def client_CommanSKBJ_def prog_simps on_client_def)
  then have "excuteCommand (client_handlers L) ''SKBJ'' (m_strMsgContent w @ text)
      (w\<lparr>m_strMsgContent := m_strMsgContent w @ text\<rparr>, d) = (Inr (), (?w4, d))"
    using e(2) by (simp add: client_handlers_def)
  from cli.receive_short [OF _ len tail e(1) this]
  have run: "Process L (client_handlers L) (package_string (first_page ''SKBJ'' text)) (w, d) =
      (Inr Drained, (?w4\<lparr>m_strMsgContent := [], m_strData := []\<rparr>, d))" by simp
  from cli_stable.Process_keeps [OF w run] run show ?thesis
    by (simp add: worker_GetClass_def worker_GetCourse_def worker_GetClassStudent_def)
qed

section \<open>Together\<close>

text \<open>libevent makes a bufferevent for the descriptor it is given.\<close>

definition bev_made :: "('j, 'd) libs \<Rightarrow> bool" where
  "bev_made L \<longleftrightarrow> (\<forall>fd. bufferevent_socket_new L fd conn_options = Some fd)"

lemma thread_ok_sockets:
  assumes "thread_ok L t" and "bev_made L"
  shows "\<forall>(k, w) \<in> set (data_map t). m_bev w = Some k"
proof -
  have "sm_find k (data_map t) = Some w" if "(k, w) \<in> set (data_map t)" for k w
    using that assms(1) sm_find_member by (auto simp: thread_ok_def)
  with assms show ?thesis
    by (auto simp: thread_ok_def bev_made_def conn_socket_def server_worker_ok_def)
qed

lemma connected_wire:
  assumes "thread_ok L t" and "m_libevent_threads s ! i = Some t" and "worker_of s i fd \<noteq> None"
  obtains w where "(fd, w) \<in> set (data_map t)" and "distinct (map fst (data_map t))"
proof -
  have "sm_find fd (data_map t) \<noteq> None" using assms(2,3) by (simp add: worker_of_def)
  then have "fd \<in> fst ` set (data_map t)" by (simp only: sm_find_mem)
  then obtain w where "(fd, w) \<in> set (data_map t)" by auto
  moreover have "distinct (map fst (data_map t))" using assms(1) by (simp add: thread_ok_def sm_ok_distinct)
  ultimately show thesis by (rule that)
qed

lemma class_broadcast:
  assumes inv: "threads_up s" "sessions_ok L s" and i: "i < THREAD_NUMB" and idle: "bytes_of s i = []"
    and L: "sends_all L" "bev_made L"
    and db: "steady_class L P strClass strOut" "P (w_db (sv_world s))"
    and js: "skbj_json L strClass strCourse strOut = Some js" "length (JsonToString L js) < 1024"
  shows "\<exists>s1 s2. Give_A_Class L strClass strCourse s = (Inr 0, s1) \<and> notify_cb L i s1 = (Inr (), s2) \<and>
    (\<forall>fd. worker_of s i fd \<noteq> None \<longrightarrow>
       wire fd (drop (length (w_sends (sv_world s1))) (w_sends (sv_world s2))) =
         package_string (first_page ''SKBJ'' (JsonToString L js)))"
proof -
  let ?s0 = "s\<lparr>m_strClass := strClass, m_strCourse := strCourse\<rparr>"
  obtain t where t: "m_libevent_threads s ! i = Some t" using threads_up_nth [OF inv(1) i] by blast
  have len: "i < length (m_libevent_threads s)" using inv(1) i by (simp add: threads_up_def)
  have up0: "threads_up ?s0" using inv(1) by (simp add: threads_up_def)
  have bytes: "notify_bytes t = []" using idle t by (simp add: bytes_of_def)
  have t0: "m_libevent_threads ?s0 ! i = Some t" using t by simp
  obtain s1 r t1 where
    n: "andThen each_thread (\<lambda>is. andThen (notify_all L (CHR ''a'') is) (\<lambda>_. ret (0::int))) ?s0 = (Inr 0, s1)"
    and recv: "recv_byte i s1 = (Inr (Some (CHR ''a'')), r)" and at: "thread_at i r = (Inr t1, r)"
    and m1: "data_map t1 = data_map t"
    and r: "GetClass r = GetClass ?s0" "GetCourse r = GetCourse ?s0" "sv_world r = sv_world s1"
    and db1: "w_db (sv_world s1) = w_db (sv_world ?s0)"
    by (rule broadcast_received [OF up0 i t0 bytes L(1)]) (rule that)
  have give: "Give_A_Class L strClass strCourse s = (Inr 0, s1)"
    using n by (simp add: Give_A_Class_def prog_simps)
  let ?m = "data_map t"
  have t_ok: "thread_ok L t" using sessions_ok_thread [OF inv(2) thread_at_Some [OF len t]] .
  obtain d' where d': "send_class_all L strClass strCourse ?m (sv_world s1) = (Inr (), d')"
    "w_sends d' = w_sends (sv_world s1) @
       map (\<lambda>(k, w). sent k (first_page ''SKBJ'' (JsonToString L js))) ?m"
    using send_class_all_steady [OF db(1) _ L(1) js thread_ok_sockets [OF t_ok L(2)], of "sv_world s1"]
      db1 db(2) by auto
  have cb: "notify_cb L i s1 = (Inr (), r\<lparr>sv_world := d'\<rparr>)"
    using d'(1) r by (intro notify_cb_class [OF recv at]) (simp_all add: m1 GetClass_def GetCourse_def)
  have wires: "wire fd (drop (length (w_sends (sv_world s1))) (w_sends (sv_world (r\<lparr>sv_world := d'\<rparr>)))) =
      package_string (first_page ''SKBJ'' (JsonToString L js))" if on: "worker_of s i fd \<noteq> None" for fd
  proof -
    obtain w where "(fd, w) \<in> set ?m" "distinct (map fst ?m)" using connected_wire [OF t_ok t on] .
    then show ?thesis by (simp add: d'(2) wire_one)
  qed
  show ?thesis by (intro exI conjI allI impI) (rule give, rule cb, erule wires)
qed

end
