(* ===== verification/CatchUp.thy ===== *)
theory CatchUp
  imports Broadcast
begin

text \<open>
  A worker thread left to itself: libevent calls \<open>notify_cb\<close> for as long as the notification socket
  is readable. After as many calls as bytes are waiting, every connection of the thread's queue has
  a worker and has been told the class.
\<close>

fun notify_rounds :: "('j, 'd) libs \<Rightarrow> nat \<Rightarrow> nat \<Rightarrow> ('d LibEvtServer, unit) prog" where
  "notify_rounds L i 0 = ret ()"
| "notify_rounds L i (Suc n) = andThen (notify_cb L i) (\<lambda>_. notify_rounds L i n)"

lemma set_sm_put: "x \<in> set (sm_put k v m) \<Longrightarrow> x = (k, v) \<or> x \<in> set m"
  by (induction k v m rule: sm_put.induct) (auto split: if_splits)

text \<open>What the rounds need: the thread, the class's students, and sockets that take everything.\<close>

definition answers_class ::
    "('j, 'd) libs \<Rightarrow> ('d datahelper \<Rightarrow> bool) \<Rightarrow> string \<Rightarrow> 'j \<Rightarrow> 'd LibEvtServer \<Rightarrow> bool" where
  "answers_class L P strOut js s \<longleftrightarrow>
     steady_class L P (GetClass s) strOut \<and> P (w_db (sv_world s)) \<and>
     skbj_json L (GetClass s) (GetCourse s) strOut = Some js \<and> length (JsonToString L js) < 1024"

lemma notify_cb_open:
  assumes t: "i < length (m_libevent_threads s)" "m_libevent_threads s ! i = Some t"
    and bytes: "notify_bytes t = c # cs" "is_conn c" and queue: "conn_queue t = x # q"
    and L: "sends_all L" "bev_made L" and ans: "answers_class L P strOut js s"
  shows "\<exists>w s'. notify_cb L i s = (Inr (), s') \<and> length (m_libevent_threads s') = length (m_libevent_threads s) \<and>
    m_libevent_threads s' ! i =
      Some (t\<lparr>notify_bytes := cs, conn_queue := q, data_map := sm_put (item_fd x) w (data_map t)\<rparr>) \<and>
    m_bev w = Some (item_fd x) \<and> GetIP w = item_strIP x \<and> answers_class L P strOut js s' \<and>
    GetClass s' = GetClass s \<and> GetCourse s' = GetCourse s \<and> w_fs (sv_world s') = w_fs (sv_world s) \<and>
    m_last_thread s' = m_last_thread s \<and>
    w_sends (sv_world s') = w_sends (sv_world s) @ [sent (item_fd x) (first_page ''SKBJ'' (JsonToString L js))]"
proof -
  define s1 where "s1 = update_thread i (\<lambda>t. t\<lparr>notify_bytes := cs\<rparr>) s"
  define s2 where "s2 = update_thread i (\<lambda>t. t\<lparr>conn_queue := q\<rparr>) s1"
  define t2 where "t2 = t\<lparr>notify_bytes := cs, conn_queue := q\<rparr>"
  have t1: "m_libevent_threads s1 ! i = Some (t\<lparr>notify_bytes := cs\<rparr>)" and len1: "i < length (m_libevent_threads s1)"
    using t by (simp_all add: s1_def update_thread_nth)
  have t2: "m_libevent_threads s2 ! i = Some t2" and len2: "i < length (m_libevent_threads s2)"
    using t1 len1 by (simp_all add: s2_def t2_def update_thread_nth)
  have recv: "recv_byte i s = (Inr (Some c), s1)"
    using thread_at_Some [OF t] bytes(1) by (simp add: recv_byte_def prog_simps s1_def)
  have pop: "pop_conn i s1 = (Inr x, s2)"
    using thread_at_Some [OF len1 t1] queue by (simp add: pop_conn_def prog_simps s2_def)
  have same: "GetClass s2 = GetClass s" "GetCourse s2 = GetCourse s" "sv_world s2 = sv_world s"
    by (simp_all add: s2_def s1_def GetClass_def GetCourse_def)
  have bev: "bufferevent_socket_new L (item_fd x) conn_options = Some (item_fd x)"
    using L(2) by (simp add: bev_made_def)
  obtain w d' where op: "open_conn L i x s2 = (Inr (),
      (update_thread i (\<lambda>t. t\<lparr>data_map := sm_put (item_fd x) w (data_map t)\<rparr>) s2)\<lparr>sv_world := d'\<rparr>)"
    and w: "m_bev w = Some (item_fd x)" "GetIP w = item_strIP x" and d': "P (w_db d')" "w_fs d' = w_fs (sv_world s)"
    "w_sends d' = w_sends (sv_world s) @ [sent (item_fd x) (first_page ''SKBJ'' (JsonToString L js))]"
    using open_conn_steady [OF thread_at_Some [OF len2 t2] bev L(1), of P strOut js] ans
    by (auto simp: answers_class_def same)
  define s3 where "s3 = (update_thread i (\<lambda>t. t\<lparr>data_map := sm_put (item_fd x) w (data_map t)\<rparr>) s2)\<lparr>sv_world := d'\<rparr>"
  have "notify_cb L i s = (Inr (), s3)"
    using recv pop op bytes(2) by (simp add: notify_cb_def handle_byte_def is_conn_def prog_simps s3_def)
  moreover have "m_libevent_threads s3 ! i =
      Some (t\<lparr>notify_bytes := cs, conn_queue := q, data_map := sm_put (item_fd x) w (data_map t)\<rparr>)"
    using t2 len2 by (simp add: s3_def update_thread_nth t2_def)
  moreover have "length (m_libevent_threads s3) = length (m_libevent_threads s)"
    by (simp add: s3_def s2_def s1_def)
  moreover have "answers_class L P strOut js s3"
    using ans d'(1) same by (simp add: answers_class_def s3_def GetClass_def GetCourse_def)
  moreover have "GetClass s3 = GetClass s" "GetCourse s3 = GetCourse s" "m_last_thread s3 = m_last_thread s"
    using same by (simp_all add: s3_def s2_def s1_def GetClass_def GetCourse_def)
  ultimately show ?thesis using w d'(2,3) by (intro exI [of _ w] exI [of _ s3]) (simp add: s3_def)
qed

lemma notify_cb_told:
  assumes t: "i < length (m_libevent_threads s)" "m_libevent_threads s ! i = Some t"
    and bytes: "notify_bytes t = CHR ''a'' # cs"
    and L: "sends_all L" and bevs: "\<forall>(k, w) \<in> set (data_map t). m_bev w = Some k"
    and ans: "answers_class L P strOut js s"
  shows "\<exists>s' more. notify_cb L i s = (Inr (), s') \<and> length (m_libevent_threads s') = length (m_libevent_threads s) \<and>
    m_libevent_threads s' ! i = Some (t\<lparr>notify_bytes := cs\<rparr>) \<and> answers_class L P strOut js s' \<and>
    w_sends (sv_world s') = w_sends (sv_world s) @ more"
proof -
  define s1 where "s1 = update_thread i (\<lambda>t. t\<lparr>notify_bytes := cs\<rparr>) s"
  have t1: "m_libevent_threads s1 ! i = Some (t\<lparr>notify_bytes := cs\<rparr>)" and len1: "i < length (m_libevent_threads s1)"
    using t by (simp_all add: s1_def update_thread_nth)
  have recv: "recv_byte i s = (Inr (Some (CHR ''a'')), s1)"
    using thread_at_Some [OF t] bytes by (simp add: recv_byte_def prog_simps s1_def)
  obtain d' where d': "send_class_all L (m_strClass s) (m_strCourse s) (data_map t) (sv_world s) = (Inr (), d')"
    "P (w_db d')" "\<exists>more. w_sends d' = w_sends (sv_world s) @ more"
    using send_class_all_steady [OF _ _ L, of P "m_strClass s" strOut "sv_world s" "m_strCourse s" js "data_map t"] ans bevs
    by (auto simp: answers_class_def GetClass_def GetCourse_def)
  have "notify_cb L i s = (Inr (), s1\<lparr>sv_world := d'\<rparr>)"
    using d'(1) by (intro notify_cb_class [OF recv thread_at_Some [OF len1 t1]]) (simp add: s1_def)
  then show ?thesis
    using t1 d'(2,3) ans
    by (intro exI [of _ "s1\<lparr>sv_world := d'\<rparr>"])
       (auto simp: s1_def answers_class_def GetClass_def GetCourse_def)
qed

text \<open>As many rounds as bytes empty the queue: the connection bytes are as many as the connections.\<close>

lemma rounds_open_all:
  assumes L: "sends_all L" "bev_made L" and "i < length (m_libevent_threads s)"
    and "m_libevent_threads s ! i = Some t" and "answers_class L P strOut js s"
    and "length (filter is_conn (notify_bytes t)) = length (conn_queue t)"
    and "CHR ''b'' \<notin> set (notify_bytes t)" and "\<forall>(k, w) \<in> set (data_map t). m_bev w = Some k"
  shows "\<exists>s' t' more. notify_rounds L i (length (notify_bytes t)) s = (Inr (), s') \<and>
    m_libevent_threads s' ! i = Some t' \<and> conn_queue t' = [] \<and> notify_bytes t' = [] \<and>
    w_sends (sv_world s') = w_sends (sv_world s) @ more \<and>
    (\<forall>x \<in> set (conn_queue t). sent (item_fd x) (first_page ''SKBJ'' (JsonToString L js)) \<in> set more) \<and>
    (\<forall>k. k \<in> item_fd ` set (conn_queue t) \<or> sm_find k (data_map t) \<noteq> None \<longrightarrow> sm_find k (data_map t') \<noteq> None)"
  using assms(3-)
proof (induction "notify_bytes t" arbitrary: s t)
  case Nil
  then show ?case by (intro exI [of _ s] exI [of _ t] exI [of _ "[]"]) (simp add: prog_simps)
next
  case (Cons c cs)
  show ?case
  proof (cases "is_conn c")
    case True
    then obtain x q where q: "conn_queue t = x # q"
      using Cons.hyps(2) Cons.prems(4) by (cases "conn_queue t") (auto simp flip: Cons.hyps(2))
    obtain w s1 where s1: "notify_cb L i s = (Inr (), s1)" "length (m_libevent_threads s1) = length (m_libevent_threads s)"
      "m_libevent_threads s1 ! i =
         Some (t\<lparr>notify_bytes := cs, conn_queue := q, data_map := sm_put (item_fd x) w (data_map t)\<rparr>)"
      "m_bev w = Some (item_fd x)" "answers_class L P strOut js s1"
      "w_sends (sv_world s1) = w_sends (sv_world s) @ [sent (item_fd x) (first_page ''SKBJ'' (JsonToString L js))]"
      using notify_cb_open [OF Cons.prems(1,2) Cons.hyps(2) [symmetric] True q L Cons.prems(3)] by blast
    let ?t1 = "t\<lparr>notify_bytes := cs, conn_queue := q, data_map := sm_put (item_fd x) w (data_map t)\<rparr>"
    have cnt: "length (filter is_conn (notify_bytes ?t1)) = length (conn_queue ?t1)"
      using Cons.prems(4) q True by (simp flip: Cons.hyps(2))
    have nb: "CHR ''b'' \<notin> set (notify_bytes ?t1)" using Cons.prems(5) by (simp flip: Cons.hyps(2))
    have bevs: "\<forall>(k, w) \<in> set (data_map ?t1). m_bev w = Some k"
      using Cons.prems(6) s1(4) by (auto dest: set_sm_put)
    have cs: "cs = notify_bytes ?t1" by simp
    obtain s' t' more where r: "notify_rounds L i (length cs) s1 = (Inr (), s')" "m_libevent_threads s' ! i = Some t'"
      "conn_queue t' = []" "notify_bytes t' = []" "w_sends (sv_world s') = w_sends (sv_world s1) @ more"
      "\<forall>x \<in> set q. sent (item_fd x) (first_page ''SKBJ'' (JsonToString L js)) \<in> set more"
      "\<forall>k. k \<in> item_fd ` set q \<or> sm_find k (sm_put (item_fd x) w (data_map t)) \<noteq> None \<longrightarrow> sm_find k (data_map t') \<noteq> None"
      using Cons.hyps(1) [OF cs _ s1(3,5) cnt nb bevs] s1(2) Cons.prems(1) by auto
    show ?thesis
      using s1(1,6) r q
      by (intro exI [of _ s'] exI [of _ t'] exI [of _ "sent (item_fd x) (first_page ''SKBJ'' (JsonToString L js)) # more"])
         (auto simp: prog_simps sm_find_put simp flip: Cons.hyps(2))
  next
    case False
    then have c: "c = CHR ''a''" using Cons.prems(5) by (auto simp: is_conn_def simp flip: Cons.hyps(2))
    obtain s1 more1 where s1: "notify_cb L i s = (Inr (), s1)" "length (m_libevent_threads s1) = length (m_libevent_threads s)"
      "m_libevent_threads s1 ! i = Some (t\<lparr>notify_bytes := cs\<rparr>)" "answers_class L P strOut js s1"
      "w_sends (sv_world s1) = w_sends (sv_world s) @ more1"
      using notify_cb_told [OF Cons.prems(1,2) _ L(1) Cons.prems(6,3), of cs] c Cons.hyps(2) by metis
    let ?t1 = "t\<lparr>notify_bytes := cs\<rparr>"
    have cnt: "length (filter is_conn (notify_bytes ?t1)) = length (conn_queue ?t1)"
      using Cons.prems(4) False by (simp flip: Cons.hyps(2))
    have nb: "CHR ''b'' \<notin> set (notify_bytes ?t1)" using Cons.prems(5) by (simp flip: Cons.hyps(2))
    have cs: "cs = notify_bytes ?t1" by simp
    obtain s' t' more where r: "notify_rounds L i (length cs) s1 = (Inr (), s')" "m_libevent_threads s' ! i = Some t'"
      "conn_queue t' = []" "notify_bytes t' = []" "w_sends (sv_world s') = w_sends (sv_world s1) @ more"
      "\<forall>x \<in> set (conn_queue t). sent (item_fd x) (first_page ''SKBJ'' (JsonToString L js)) \<in> set more"
      "\<forall>k. k \<in> item_fd ` set (conn_queue t) \<or> sm_find k (data_map t) \<noteq> None \<longrightarrow> sm_find k (data_map t') \<noteq> None"
      using Cons.hyps(1) [OF cs _ s1(3,4) cnt nb] s1(2) Cons.prems(1,6) by auto
    show ?thesis
      using s1(1,5) r
      by (intro exI [of _ s'] exI [of _ t'] exI [of _ "more1 @ more"])
         (auto simp: prog_simps simp flip: Cons.hyps(2))
  qed
qed

text \<open>A byte goes out whole on a socket that takes everything.\<close>

lemma sends_all_notify: "sends_all L \<Longrightarrow> notify_ok L E"
  by (simp add: sends_all_def notify_ok_def)

end
