(* ===== verification/Admission.thy ===== *)
theory Admission
  imports CatchUp
begin

text \<open>
  The way of a connection through the pool, as steps: it is accepted and queued, its thread is
  notified, and the thread's \<open>notify_cb\<close> takes it and tells the client the class.
\<close>

text \<open>A whole \<open>notify_cb\<close> is a run of the pool: the byte is received, then handled.\<close>

lemma reachable_notify_cb:
  assumes "reachable I (pool_step L) p" and "pl_held p i = None"
    and "recv_byte i (pl_server p) = (Inr (Some c), s1)" and "notify_cb L i (pl_server p) = (Inr (), s')"
  shows "reachable I (pool_step L) (p\<lparr>pl_server := s'\<rparr>)"
proof -
  let ?p1 = "p\<lparr>pl_server := s1, pl_held := (pl_held p)(i := Some c)\<rparr>"
  have "pool_step L p ?p1" using assms(2,3) by (rule step_recv)
  with assms(1) have "reachable I (pool_step L) ?p1" by (rule reachable_step)
  moreover have "handle_byte L i c s1 = (Inr (), s')"
    using assms(3,4) by (simp add: notify_cb_def prog_simps)
  then have "pool_step L ?p1 (?p1\<lparr>pl_server := s', pl_held := (pl_held ?p1)(i := None)\<rparr>)"
    by (intro step_handle) simp_all
  ultimately have "reachable I (pool_step L) (?p1\<lparr>pl_server := s', pl_held := (pl_held ?p1)(i := None)\<rparr>)"
    by (rule reachable_step)
  moreover have "?p1\<lparr>pl_server := s', pl_held := (pl_held ?p1)(i := None)\<rparr> = p\<lparr>pl_server := s'\<rparr>"
    using assms(2) by (simp add: fun_upd_idem)
  ultimately show ?thesis by simp
qed

text \<open>The first connection of a new server: the calls that accept it, after which it waits in the first
  thread.\<close>

definition first_waiting :: "os \<Rightarrow> int \<Rightarrow> string \<Rightarrow> 'd world \<Rightarrow> 'd LibEvtServer \<Rightarrow> bool" where
  "first_waiting E fd ip d s \<longleftrightarrow>
     0 < length (m_libevent_threads s) \<and>
     m_libevent_threads s ! 0 = Some (push_byte (CHR ''c'') (push_conn (item_of (fd, ip)) (started_thread E 0))) \<and>
     m_last_thread s = 0 \<and> GetClass s = [] \<and> GetCourse s = [] \<and>
     w_db (sv_world s) = w_db d \<and> w_fs (sv_world s) = w_fs d"

lemma first_connection_calls:
  assumes E: "os_base E" "\<forall>i < THREAD_NUMB. os_pair E i \<noteq> None" and L: "sends_all L"
  obtains s0 s1 s2 where "LibEvtServer_new L E d = (Inr True, s0)" and "listener_queue fd ip s0 = (Inr 0, s1)"
    and "notify_thread L 0 (CHR ''c'') s1 = (Inr (), s2)" and "first_waiting E fd ip d s2"
proof -
  obtain s0 where new: "LibEvtServer_new L E d = (Inr True, s0)" and s0: "threads_up s0" "m_last_thread s0 = -1"
    "m_libevent_threads s0 = map (\<lambda>i. Some (started_thread E i)) [0..<THREAD_NUMB]" "sv_world s0 = d"
    using server_new_up [OF E, of L d] by blast
  have class0: "GetClass s0 = []" "GetCourse s0 = []"
    using server_new_no_class [of L E d] by (simp_all add: new no_class_def)
  define s1 where "s1 = update_thread 0 (push_conn (item_of (fd, ip))) (s0\<lparr>m_last_thread := 0\<rparr>)"
  have len0: "0 < length (m_libevent_threads s0)" by (simp add: s0(3) THREAD_NUMB_def)
  have t0: "m_libevent_threads s0 ! 0 = Some (started_thread E 0)" by (simp add: s0(3) THREAD_NUMB_def)
  have q1: "listener_queue fd ip s0 = (Inr 0, s1)"
    using thread_at_Some [of 0 "s0\<lparr>m_last_thread := 0\<rparr>"] len0 t0 s0(2)
    by (simp add: listener_queue_def prog_simps next_thread_mod s1_def item_of_def)
  have t1: "m_libevent_threads s1 ! 0 = Some (push_conn (item_of (fd, ip)) (started_thread E 0))"
    and len1: "0 < length (m_libevent_threads s1)"
    using t0 len0 by (simp_all add: s1_def update_thread_nth)
  obtain d2 where n2: "notify_thread L 0 (CHR ''c'') s1 =
      (Inr (), update_thread 0 (push_byte (CHR ''c'')) (s1\<lparr>sv_world := d2\<rparr>))"
    "w_db d2 = w_db d" "w_fs d2 = w_fs d"
    using notify_thread_all [OF L len1 t1, of "CHR ''c''"] s0(4) by (auto simp: s1_def)
  have "first_waiting E fd ip d (update_thread 0 (push_byte (CHR ''c'')) (s1\<lparr>sv_world := d2\<rparr>))"
    using t1 len1 class0 n2(2,3)
    by (simp add: first_waiting_def update_thread_nth) (simp add: s1_def GetClass_def GetCourse_def)
  then show thesis by (rule that [OF new q1 n2(1)])
qed

lemma first_connection_waits:
  fixes d :: "'d world"
  assumes E: "os_base E" "\<forall>i < THREAD_NUMB. os_pair E i \<noteq> None" and L: "sends_all L"
  obtains p where "reachable (pool_init L E) (pool_step L) p" and "pl_held p = (\<lambda>i. None)" and "pl_accept p = None"
    and "first_waiting E fd ip d (pl_server p)"
proof -
  obtain s0 s1 s2 where new: "LibEvtServer_new L E d = (Inr True, s0)"
    and calls: "listener_queue fd ip s0 = (Inr 0, s1)" "notify_thread L 0 (CHR ''c'') s1 = (Inr (), s2)"
    and s2: "first_waiting E fd ip d s2"
    by (rule first_connection_calls [OF E L])
  let ?p0 = "\<lparr>pl_server = s0, pl_accept = None, pl_held = (\<lambda>i. None)\<rparr>"
  let ?p1 = "?p0\<lparr>pl_server := s1, pl_accept := Some 0\<rparr>"
  let ?p2 = "?p1\<lparr>pl_server := s2, pl_accept := None\<rparr>"
  have "pool_init L E ?p0" unfolding pool_init_def using E new by auto
  then have "reachable (pool_init L E) (pool_step L) ?p0" by (rule reachable_init)
  moreover have "pool_step L ?p0 ?p1" using calls(1) by (intro step_accept) simp_all
  ultimately have "reachable (pool_init L E) (pool_step L) ?p1" by (rule reachable_step)
  moreover have "pool_step L ?p1 ?p2" using calls(2) by (intro step_wake) simp_all
  ultimately have "reachable (pool_init L E) (pool_step L) ?p2" by (rule reachable_step)
  with s2 show thesis by (intro that [of ?p2]) simp_all
qed

text \<open>Then the thread takes it: the connection has a worker and was told the class.\<close>

lemma waiting_taken:
  assumes len: "0 < length (m_libevent_threads s)"
    and t: "m_libevent_threads s ! 0 = Some (push_byte (CHR ''c'') (push_conn (item_of (fd, ip)) (started_thread E 0)))"
    and L: "sends_all L" "bev_made L" and ans: "answers_class L P strOut js s"
  obtains s1 s' t' w where "recv_byte 0 s = (Inr (Some (CHR ''c'')), s1)" and "notify_cb L 0 s = (Inr (), s')"
    and "thread_at 0 s' = (Inr t', s')" and "data_map t' = sm_put fd w []" and "notify_bytes t' = []"
    and "answers_class L P strOut js s'" and "m_last_thread s' = m_last_thread s"
    and "GetClass s' = GetClass s" and "GetCourse s' = GetCourse s" and "w_fs (sv_world s') = w_fs (sv_world s)"
proof -
  let ?t = "push_byte (CHR ''c'') (push_conn (item_of (fd, ip)) (started_thread E 0))"
  have v: "notify_bytes ?t = CHR ''c'' # []" "conn_queue ?t = item_of (fd, ip) # []" "data_map ?t = []"
    by (simp_all add: push_byte_def push_conn_def)
  have conn: "is_conn (CHR ''c'')" by (simp add: is_conn_def)
  obtain w s' where s': "notify_cb L 0 s = (Inr (), s')"
    "length (m_libevent_threads s') = length (m_libevent_threads s)"
    "m_libevent_threads s' ! 0 = Some (?t\<lparr>notify_bytes := [], conn_queue := [], data_map := sm_put (item_fd (item_of (fd, ip))) w []\<rparr>)"
    "answers_class L P strOut js s'" "m_last_thread s' = m_last_thread s" "GetClass s' = GetClass s"
    "GetCourse s' = GetCourse s" "w_fs (sv_world s') = w_fs (sv_world s)"
    using notify_cb_open [OF len t v(1) conn v(2) L ans] v(3) by auto
  have recv: "recv_byte 0 s = (Inr (Some (CHR ''c'')), update_thread 0 (\<lambda>t. t\<lparr>notify_bytes := []\<rparr>) s)"
    using thread_at_Some [OF len t] v(1) by (simp add: recv_byte_def prog_simps)
  have "thread_at 0 s' =
      (Inr (?t\<lparr>notify_bytes := [], conn_queue := [], data_map := sm_put (item_fd (item_of (fd, ip))) w []\<rparr>), s')"
    using s'(2,3) len by (intro thread_at_Some) simp_all
  then show thesis using s'(4-8) by (elim that [OF recv s'(1)]) (simp_all add: item_of_def)
qed

lemma first_connection_served:
  fixes d :: "'d world"
  assumes E: "os_base E" "\<forall>i < THREAD_NUMB. os_pair E i \<noteq> None" and L: "sends_all L" "bev_made L"
    and db: "steady_class L P [] strOut" "P (w_db d)"
    and js: "skbj_json L [] [] strOut = Some js" "length (JsonToString L js) < 1024"
  obtains p t w where "reachable (pool_init L E) (pool_step L) p"
    and "thread_at 0 (pl_server p) = (Inr t, pl_server p)" and "data_map t = sm_put fd w []"
    and "notify_bytes t = []" and "pl_held p = (\<lambda>i. None)" and "pl_accept p = None"
    and "m_last_thread (pl_server p) = 0" and "GetClass (pl_server p) = []" and "GetCourse (pl_server p) = []"
    and "P (w_db (sv_world (pl_server p)))" and "w_fs (sv_world (pl_server p)) = w_fs d"
proof -
  obtain p where p: "reachable (pool_init L E) (pool_step L) p" "pl_held p = (\<lambda>i. None)" "pl_accept p = None"
    and s: "first_waiting E fd [] d (pl_server p)"
    by (rule first_connection_waits [OF E L(1)])
  have ans: "answers_class L P strOut js (pl_server p)" using s db js by (simp add: answers_class_def first_waiting_def)
  have t: "0 < length (m_libevent_threads (pl_server p))" "m_libevent_threads (pl_server p) ! 0 =
      Some (push_byte (CHR ''c'') (push_conn (item_of (fd, [])) (started_thread E 0)))"
    using s by (simp_all add: first_waiting_def)
  obtain s1 s' t w where s': "recv_byte 0 (pl_server p) = (Inr (Some (CHR ''c'')), s1)"
    "notify_cb L 0 (pl_server p) = (Inr (), s')" "thread_at 0 s' = (Inr t, s')" "data_map t = sm_put fd w []"
    "notify_bytes t = []" "answers_class L P strOut js s'" "m_last_thread s' = m_last_thread (pl_server p)"
    "GetClass s' = GetClass (pl_server p)" "GetCourse s' = GetCourse (pl_server p)"
    "w_fs (sv_world s') = w_fs (sv_world (pl_server p))"
    by (rule waiting_taken [OF t L ans])
  have "reachable (pool_init L E) (pool_step L) (p\<lparr>pl_server := s'\<rparr>)"
    by (rule reachable_notify_cb [OF p(1) _ s'(1,2)]) (simp add: p(2))
  then show thesis
    using s' s p(2,3) by (intro that [of "p\<lparr>pl_server := s'\<rparr>" t w]) (simp_all add: answers_class_def first_waiting_def)
qed

end
