(* ===== verification/Requests.thy ===== *)
theory Requests
  imports ClientFacts
begin

text \<open>
  Requests of a client and the server's answers to them, both sides together: asking for a
  device number and asking for a file.
\<close>

section \<open>Looking a command up\<close>

text \<open>A worker in good order finds the method of an entered label and stays in good order.\<close>

lemma server_finds:
  assumes "server_worker_ok bev w" and "map_of server_commands label = Some t"
  obtains w' where "lookup_server_command label (w, d) = (Inr t, (w', d))" and "server_worker_ok bev w'"
proof -
  obtain u w' d' where l: "lookup_server_command label (w, d) = (Inr u, (w', d'))"
    by (cases "sm_at S_WCZL label (s_commandType w)") (auto simp: lookup_server_command_def)
  have "server_tables_ok w" using assms(1) by (simp add: server_worker_ok_def)
  note k = server_tables_lookup [OF this l]
  have "m_bev w' = m_bev w" using l by (auto simp: lookup_server_command_def split: prod.splits)
  with k assms l show thesis by (intro that [of w']) (simp_all add: server_worker_ok_def)
qed

lemma client_finds_file:
  assumes "client_worker_ok bev w"
  obtains w' where "lookup_client_file ''CXWJ'' (w, d) = (Inr CF_CXWJ, (w', d))" and "client_worker_ok bev w'"
    and "m_strData w' = m_strData w"
proof -
  have "sm_find ''CXWJ'' (c_fileType w) = Some CF_CXWJ"
    using assms by (simp add: client_worker_ok_def client_tables_ok_def client_files_def)
  then have "lookup_client_file ''CXWJ'' (w, d) = (Inr CF_CXWJ, (w\<lparr>c_fileType := c_fileType w\<rparr>, d))"
    by (simp add: lookup_client_file_def sm_at_def)
  then show thesis using assms by (intro that [of "w\<lparr>c_fileType := c_fileType w\<rparr>"]) simp_all
qed

section \<open>The number of a device\<close>

lemma server_device_answer:
  assumes L: "sends_all L" and w: "server_worker_ok (Some fd) w" "m_strData w = []" "m_strMsgContent w = []"
    and ip: "length ip < 1024" "str_find PAGTAIL ip = None"
    and dev: "Device L (sbbh_request ip) 2 (w_db d) = (Inr (r, s), h)" and s: "length s < 1024"
  shows "\<exists>w' d'. Process L (server_handlers L) (package_string (first_page ''SBBH'' ip)) (w, d) =
      (Inr Drained, (w', d')) \<and> w_db d' = h \<and>
    w_sends d' = w_sends d @ [sent fd (first_page ''SBBH'' s)]"
proof -
  let ?w1 = "w\<lparr>m_strMsgContent := ip\<rparr>"
  obtain w2 where l: "lookup_server_command ''SBBH'' (?w1, d) = (Inr S_SBBH, (w2, d))"
    and w2: "server_worker_ok (Some fd) w2"
    using w(1) by (elim server_finds [of "Some fd" ?w1, rotated -1]) (simp_all add: server_commands_def)
  let ?d1 = "d\<lparr>w_db := h\<rparr>"
  have "length (package_string (first_page ''SBBH'' s)) < 2147483648"
    by (rule first_page_short_length [OF s]) simp
  then have send: "SendMsgTo L w2 ''SBBH'' s ?d1 =
      (Inr (-1), ?d1\<lparr>w_sends := w_sends d @ [sent fd (first_page ''SBBH'' s)]\<rparr>)"
    using SendMsgTo_all [OF L, of w2 fd s "''SBBH''" ?d1] w2 s by (simp add: server_worker_ok_def sent_def)
  let ?d2 = "?d1\<lparr>w_sends := w_sends d @ [sent fd (first_page ''SBBH'' s)]\<rparr>"
  have "server_excuteCommand L ''SBBH'' ip (?w1, d) = (Inr (), (w2, ?d2))"
    using l send dev
    by (simp add: server_excuteCommand_def server_CommanSBBH_def prog_simps on_db_def)
  then have "excuteCommand (server_handlers L) ''SBBH'' (m_strMsgContent w @ ip)
      (w\<lparr>m_strMsgContent := m_strMsgContent w @ ip\<rparr>, d) = (Inr (), (w2, ?d2))"
    using w(3) by (simp add: server_handlers_def)
  from srv.receive_short [OF _ ip w(2) this] show ?thesis by simp
qed

section \<open>A file\<close>

text \<open>The server sends an existing file's pages when it is asked for it.\<close>

lemma server_sends_file:
  assumes L: "sends_all L" and w: "server_worker_ok (Some fd) w" "m_strData w = []" "m_strMsgContent w = []"
    and msg: "length strMsg < 1024" "str_find PAGTAIL strMsg = None"
    and len: "length c < 2147483648" and nul: "NUL \<notin> set c"
    and parse: "StringToJson L strMsg = Some js0"
    and path: "json_str2 (json L) js0 FILE_DESCRIBE FILE_PATH = Some (js1, filePath)"
    and there: "IsFileExist L (w_fs d) (c_str filePath)" and content: "w_fs d (c_str filePath) = Some c"
    and desc: "js_index (json L) js1 FILE_DESCRIBE = Some (js2, describe)"
    and J: "\<And>i. i \<le> length c div 1024 \<Longrightarrow> page_json L describe (page_text c i) \<noteq> None"
    and p: "\<And>i. i \<le> length c div 1024 \<Longrightarrow>
      length (package_string (file_page_of L ''CXWJ'' describe c i)) < 2147483648"
  shows "\<exists>w' d'. Process L (server_handlers L) (package_string (first_page ''XZWJ'' strMsg)) (w, d) =
      (Inr Drained, (w', d')) \<and>
    w_sends d' = w_sends d @ map (sent fd) (file_pages L ''CXWJ'' describe c)"
proof -
  let ?w1 = "w\<lparr>m_strMsgContent := strMsg\<rparr>"
  obtain w2 where l: "lookup_server_command ''XZWJ'' (?w1, d) = (Inr S_XZWJ, (w2, d))"
    and w2: "server_worker_ok (Some fd) w2"
    using w(1) by (elim server_finds [of "Some fd" ?w1, rotated -1]) (simp_all add: server_commands_def)
  have bev: "m_bev w2 = Some fd" using w2 by (simp add: server_worker_ok_def)
  let ?d1 = "d\<lparr>w_sends := w_sends d @ map (sent fd) (file_pages L ''CXWJ'' describe c)\<rparr>"
  have "SendFileTo L w2 ''CXWJ'' strMsg d = (Inr (), ?d1)"
    by (rule SendFileTo_all [OF L bev len nul parse path content desc J p])
  then have "server_excuteCommand L ''XZWJ'' strMsg (?w1, d) = (Inr (), (w2, ?d1))"
    using l parse path there
    by (simp add: server_excuteCommand_def server_CommanXZWJ_def SendCXWJ_def prog_simps)
  then have "excuteCommand (server_handlers L) ''XZWJ'' (m_strMsgContent w @ strMsg)
      (w\<lparr>m_strMsgContent := m_strMsgContent w @ strMsg\<rparr>, d) = (Inr (), (w2, ?d1))"
    using w(3) by (simp add: server_handlers_def)
  from srv.receive_short [OF _ msg w(2) this] show ?thesis by simp
qed

text \<open>Copying a file makes the destination's content that of the source.\<close>

definition copies :: "('j, 'd) libs \<Rightarrow> string \<Rightarrow> string \<Rightarrow> bool" where
  "copies L src dst \<longleftrightarrow> (\<forall>fs c. fs src = Some c \<longrightarrow> snd (CxxCopyFile L fs src dst) dst = Some c)"

text \<open>The client's command for a complete file: it copies the file and raises the flag.\<close>

lemma client_file_copied:
  assumes J: "json_objects (json L) is_obj" and d: "is_obj describe"
    and put: "js_put (json L) describe FILE_PATH (js_of_string (json L) src) = Some describe'"
    and ty: "member_int (json L) describe FILE_TYPE nType"
    and name: "member_str (json L) describe FILE_NAME name"
    and dir: "GetDirectory L nType name = Inr dst"
    and copies: "copies L (c_str src) (c_str dst)" and src: "w_fs dd (c_str src) = Some c"
    and w: "client_worker_ok bev w"
  shows "\<exists>w' d'. client_excuteFile L ''CXWJ'' describe' (w, dd) = (Inr (), (w', d')) \<and>
    client_worker_ok bev w' \<and> m_cmdFinishFlag w' = 1 \<and> w_fs d' (c_str dst) = Some c \<and> w_sends d' = w_sends dd"
proof -
  obtain v where v: "js_put (json L) describe FILE_PATH (js_of_string (json L) src) = Some v" "is_obj v"
    "js_index (json L) v FILE_PATH = Some (v, js_of_string (json L) src)"
    using json_objects_set [OF J disjI1 [OF d], of FILE_PATH "js_of_string (json L) src"] by blast
  note keep = json_objects_keep [OF J disjI1 [OF d] v(1)]
  have v': "v = describe'" using v(1) put by simp
  obtain x where x: "js_index (json L) describe FILE_TYPE = Some (describe, x)" "js_asInt (json L) x = Some nType"
    using ty by (rule member_intE)
  obtain y where y: "js_index (json L) describe FILE_NAME = Some (describe, y)" "js_asString (json L) y = Some name"
    using name by (rule member_strE)
  have "json_int (json L) describe' FILE_TYPE = Some (describe', nType)"
    using keep [OF _ x(1)] x(2) v' by (simp add: json_int_def json_keys)
  moreover have "json_str (json L) describe' FILE_NAME = Some (describe', name)"
    using keep [OF _ y(1)] y(2) v' by (simp add: json_str_def json_keys)
  moreover have "json_str (json L) describe' FILE_PATH = Some (describe', src)"
    using v(3) v' by (simp add: json_str_def json_objects_values [OF J])
  moreover obtain w1 where l: "lookup_client_file ''CXWJ'' (w, dd) = (Inr CF_CXWJ, (w1, dd))"
    and w1: "client_worker_ok bev w1"
    using w by (rule client_finds_file)
  ultimately have "client_excuteFile L ''CXWJ'' describe' (w, dd) = (Inr (), (setCMDFinishFlag 1 w1,
      dd\<lparr>w_fs := snd (CxxCopyFile L (w_fs dd) (c_str src) (c_str dst))\<rparr>))"
    using dir by (simp add: client_excuteFile_def client_CommanCXWJ_def copy_file_def on_client_def prog_simps)
  then show ?thesis using w1 copies src by (simp add: setCMDFinishFlag_def copies_def)
qed

end
