(* ===== verification/Download.thy ===== *)
theory Download
  imports Requests
begin

text \<open>
  Fetching a file from end to end: \<open>DownloadFile\<close> describes the file and asks for it, the server's
  worker sends its pages, and the polling client stores, copies and returns.
\<close>

section \<open>Descriptions\<close>

text \<open>
  Documented behaviour of \<open>operator[]\<close> on a null value: it becomes an object, with a null member.
\<close>

definition json_inserts :: "'j jsonlib \<Rightarrow> ('j \<Rightarrow> bool) \<Rightarrow> bool" where
  "json_inserts J is_obj \<longleftrightarrow> (\<forall>k. \<exists>w. js_index J (js_null J) k = Some (w, js_null J) \<and> is_obj w)"

text \<open>A value whose description is an object with the given members.\<close>

definition described :: "'j jsonlib \<Rightarrow> ('j \<Rightarrow> bool) \<Rightarrow> 'j \<Rightarrow> 'j \<Rightarrow> (string \<times> 'j) list \<Rightarrow> bool" where
  "described J is_obj root describe kvs \<longleftrightarrow>
     is_obj root \<and> is_obj describe \<and> js_index J root FILE_DESCRIBE = Some (root, describe) \<and>
     (\<forall>(k, x) \<in> set kvs. js_index J describe k = Some (describe, x))"

lemma described_put:
  assumes J: "json_objects J is_obj" and d: "described J is_obj root describe kvs"
  obtains root' where "js_put J root FILE_DESCRIBE describe = Some root'"
    and "described J is_obj root' describe kvs"
  using json_objects_set [OF J, of root FILE_DESCRIBE describe] d unfolding described_def by blast

lemma described_set2:
  assumes J: "json_objects J is_obj" and d: "described J is_obj root describe kvs"
    and new: "k \<notin> fst ` set kvs"
  obtains root' describe' where "json_set2 J root FILE_DESCRIBE k x = Some root'"
    and "described J is_obj root' describe' (kvs @ [(k, x)])"
proof -
  have obj: "is_obj describe" using d by (simp add: described_def)
  obtain m where m: "js_put J describe k x = Some m" "is_obj m" "js_index J m k = Some (m, x)"
    using json_objects_set [OF J disjI1 [OF obj], of k x] by blast
  obtain r where r: "js_put J root FILE_DESCRIBE m = Some r" "is_obj r" "js_index J r FILE_DESCRIBE = Some (r, m)"
    using json_objects_set [OF J, of root FILE_DESCRIBE m] d unfolding described_def by blast
  have "js_index J m j = Some (m, y)" if "(j, y) \<in> set kvs" for j y
  proof (rule json_objects_keep [OF J disjI1 [OF obj] m(1)])
    show "j \<noteq> k" using that new by force
    show "js_index J describe j = Some (describe, y)" using that d by (auto simp: described_def)
  qed
  then have "described J is_obj r m (kvs @ [(k, x)])"
    using m r by (auto simp: described_def)
  moreover have "json_set2 J root FILE_DESCRIBE k x = Some r"
    using d m(1) r(1) by (simp add: json_set2_def described_def)
  ultimately show thesis by (intro that)
qed

lemma json_describe_more:
  assumes J: "json_objects J is_obj"
  shows "described J is_obj root describe kvs0 \<Longrightarrow> distinct (map fst (kvs0 @ kvs)) \<Longrightarrow>
    \<exists>root' describe'. json_describe J root kvs = Some root' \<and> described J is_obj root' describe' (kvs0 @ kvs)"
proof (induction kvs arbitrary: root describe kvs0)
  case Nil
  then show ?case by auto
next
  case (Cons kx kvs)
  obtain k x where kx: "kx = (k, x)" by (cases kx)
  have "k \<notin> fst ` set kvs0" using Cons.prems(2) kx by auto
  then obtain r d where r: "json_set2 J root FILE_DESCRIBE k x = Some r" "described J is_obj r d (kvs0 @ [(k, x)])"
    by (rule described_set2 [OF J Cons.prems(1)])
  from Cons.IH [OF r(2)] Cons.prems(2) kx r(1) show ?case by simp
qed

text \<open>The description built from null has all the members written into it.\<close>

lemma json_describe_null:
  assumes J: "json_objects J is_obj" and N: "json_inserts J is_obj" and "distinct (map fst kvs)" and "kvs \<noteq> []"
  obtains root describe where "json_describe J (js_null J) kvs = Some root"
    and "described J is_obj root describe kvs"
proof -
  obtain k x kvs' where kvs: "kvs = (k, x) # kvs'" using assms(4) by (cases kvs) auto
  obtain v where v: "js_index J (js_null J) FILE_DESCRIBE = Some (v, js_null J)" "is_obj v"
    using N unfolding json_inserts_def by blast
  obtain m where m: "js_put J (js_null J) k x = Some m" "is_obj m" "js_index J m k = Some (m, x)"
    using json_objects_set [OF J disjI2 [OF refl], of k x] by blast
  obtain r where r: "js_put J v FILE_DESCRIBE m = Some r" "is_obj r" "js_index J r FILE_DESCRIBE = Some (r, m)"
    using json_objects_set [OF J disjI1 [OF v(2)], of FILE_DESCRIBE m] by blast
  have "described J is_obj r m [(k, x)]" using m r by (simp add: described_def)
  from json_describe_more [OF J this, of kvs'] assms(3) kvs
  obtain root describe where "json_describe J r kvs' = Some root" "described J is_obj root describe kvs" by auto
  moreover have "json_set2 J (js_null J) FILE_DESCRIBE k x = Some r"
    using v(1) m(1) r(1) by (simp add: json_set2_def)
  ultimately show thesis using kvs by (intro that) simp_all
qed

text \<open>Reading a text member of the description, as the server does, leaves the description.\<close>

lemma described_str2:
  assumes J: "json_objects J is_obj" and d: "described J is_obj root describe kvs"
    and k: "(k, js_of_string J s) \<in> set kvs"
  obtains root' where "json_str2 J root FILE_DESCRIBE k = Some (root', s)"
    and "js_index J root' FILE_DESCRIBE = Some (root', describe)"
proof -
  obtain root' where r: "js_put J root FILE_DESCRIBE describe = Some root'" "described J is_obj root' describe kvs"
    by (rule described_put [OF J d])
  moreover have "js_index J describe k = Some (describe, js_of_string J s)"
    using d k by (auto simp: described_def)
  ultimately show thesis
    using d by (intro that [of root'])
      (simp_all add: json_str2_def json_at2_def described_def json_objects_values [OF J])
qed

text \<open>The members of the description of a file to fetch.\<close>

definition download_members ::
    "'j jsonlib \<Rightarrow> string \<Rightarrow> string \<Rightarrow> string \<Rightarrow> int \<Rightarrow> int \<Rightarrow> (string \<times> 'j) list" where
  "download_members J strFileName strCoures strPath nType nTemplate =
     [(FILE_CLASS, js_of_string J ''Class''), (FILE_NAME, js_of_string J strFileName),
      (FILE_COURES, js_of_string J strCoures), (FILE_PATH, js_of_string J strPath),
      (FILE_TYPE, js_of_int J nType), (FILE_TEMPLATE, js_of_int J nTemplate)]"

lemma download_described:
  assumes "json_objects J is_obj" and "json_inserts J is_obj"
    and "download_json J strFileName strCoures strPath nType nTemplate = Some root"
  obtains describe where
    "described J is_obj root describe (download_members J strFileName strCoures strPath nType nTemplate)"
proof -
  let ?kvs = "download_members J strFileName strCoures strPath nType nTemplate"
  have "distinct (map fst ?kvs)" "?kvs \<noteq> []" by (simp_all add: download_members_def json_keys)
  then obtain root' describe where "json_describe J (js_null J) ?kvs = Some root'" "described J is_obj root' describe ?kvs"
    by (rule json_describe_null [OF assms(1,2)])
  moreover from this(1) have "root' = root"
    using assms(3) by (simp add: download_json_def download_members_def)
  ultimately show thesis by (intro that [of describe]) simp
qed

section \<open>A request and its answer\<close>

lemma request_answered:
  assumes w: "m_spWorker c = Some w" "m_bev w = Some fd" and msg: "length msg < 2147483648"
    and nul: "NUL \<notin> set answer"
    and d1: "d1 = (cl_world c)\<lparr>w_sends := w_sends (cl_world c) @ [(fd, package_string (first_page label msg),
      c_int (sock_send L (w_sends (cl_world c)) fd (package_string (first_page label msg))))]\<rparr>"
    and run: "Process L (client_handlers L) answer (setCMDFinishFlag (-1) w, d1) = (Inr ex, (w', d'))"
    and flag: "0 \<le> m_cmdFinishFlag w'"
  shows "request L [answer] (\<lambda>w. SendMsgTo L w label msg) c = (Inr (), c\<lparr>m_spWorker := Some w', cl_world := d'\<rparr>)"
proof -
  let ?w1 = "setCMDFinishFlag (-1) w"
  have send: "SendMsgTo L ?w1 label msg (cl_world c) = (Inr (-1), d1)"
    using w(2) msg
    by (simp add: SendMsgTo_run send_package_def prog_simps SendMsgTo_raw_def Let_def d1 setCMDFinishFlag_def)
  have chunks: "read_chunks answer = answer" using nul by (rule read_chunks_text)
  have neg: "m_cmdFinishFlag ?w1 = -1" by (simp add: setCMDFinishFlag_def)
  show ?thesis
    using w(1) send run chunks flag neg
    by (simp add: request_def prog_simps client_set_flag_def cl_with_worker_def the_worker_def
        on_client_def cl_in_world_def server_msg_cb_def client_Process_def)
qed

section \<open>The client's side of a file\<close>

text \<open>
  A client that reads the pages of a file that is described by name and type ends up with the file
  in the directory for that type, and its flag raised.
\<close>

lemma client_stores_file:
  assumes J: "json_objects (json L) is_obj" and obj: "is_obj describe" and client: "\<not> SERVER L"
    and mem: "member_str (json L) describe FILE_CLASS cls" "member_str (json L) describe FILE_NAME name"
      "member_int (json L) describe FILE_TYPE nType"
    and files: "files_at L (c_str (upload_path L cls name))"
    and dir: "GetDirectory L nType name = Inr dst" and copies: "copies L (c_str (upload_path L cls name)) (c_str dst)"
    and rt: "\<forall>i \<le> length c div 1024. page_roundtrip L describe (page_text c i)"
    and wf: "\<forall>p \<in> set (file_pages L ''CXWJ'' describe c). wf_package p"
    and len: "length (concat (map package_string (file_pages L ''CXWJ'' describe c))) < 2147483648"
    and w: "client_worker_ok bev w" "m_strData w = []"
  shows "\<exists>w' d'. Process L (client_handlers L) (concat (map package_string (file_pages L ''CXWJ'' describe c))) (w, d) =
      (Inr Drained, (w', d')) \<and>
    client_worker_ok bev w' \<and> m_cmdFinishFlag w' = 1 \<and> w_fs d' (c_str dst) = Some c \<and> w_sends d' = w_sends d"
proof -
  have dn: "describes_name L describe name" using mem(2) client by (simp add: describes_name_def)
  obtain describe' dd' where r:
    "js_put (json L) describe FILE_PATH (js_of_string (json L) (upload_path L cls name)) = Some describe'"
    "w_fs dd' (c_str (upload_path L cls name)) = Some c" "same_elsewhere d dd'"
    "\<And>w' d'. excuteFile (client_handlers L) ''CXWJ'' describe' (w, dd') = (Inr (), (w', d')) \<Longrightarrow>
       Process L (client_handlers L) (concat (map package_string (file_pages L ''CXWJ'' describe c))) (w, d) =
         (Inr Drained, (w'\<lparr>m_strData := []\<rparr>, d'))"
    using cli.receive_file [OF J obj mem(1) dn files rt wf len w(2), of d] by blast
  obtain w' d' where f: "client_excuteFile L ''CXWJ'' describe' (w, dd') = (Inr (), (w', d'))"
    "client_worker_ok bev w'" "m_cmdFinishFlag w' = 1" "w_fs d' (c_str dst) = Some c" "w_sends d' = w_sends dd'"
    using client_file_copied [OF J obj r(1) mem(3,2) dir copies r(2) w(1)] by blast
  have "Process L (client_handlers L) (concat (map package_string (file_pages L ''CXWJ'' describe c))) (w, d) =
      (Inr Drained, (w'\<lparr>m_strData := []\<rparr>, d'))"
    using r(4) f(1) by (simp add: client_handlers_def)
  then show ?thesis
    using f(2-5) r(3) by (intro exI [of _ "w'\<lparr>m_strData := []\<rparr>"] exI [of _ d']) (simp add: same_elsewhere_def)
qed

section \<open>Together\<close>

lemma download:
  assumes J: "json_objects (json Ls) is_obj" and N: "json_inserts (json Ls) is_obj" and same: "json Lc = json Ls"
    and Ls: "sends_all Ls" and Lc: "sends_all Lc" "\<not> SERVER Lc"
    and c: "m_bConnect c \<noteq> 0" "m_spWorker c = Some w" "client_worker_ok (Some fd) w" "m_strData w = []"
    and name: "download_name strPath = Inr fname"
    and root: "download_json (json Lc) fname strCoures strPath nType nTemplate = Some root"
    and parse: "StringToJson Ls (js_write (json Lc) root) = Some root"
    and msg: "length (js_write (json Lc) root) < 1024" "str_find PAGTAIL (js_write (json Lc) root) = None"
    and sw: "server_worker_ok (Some sfd) sw" "m_strData sw = []" "m_strMsgContent sw = []"
    and there: "IsFileExist Ls (w_fs sd) (c_str strPath)" and content: "w_fs sd (c_str strPath) = Some text"
    and body: "length text < 2147483648" "NUL \<notin> set text"
    and descr: "js_index (json Ls) root FILE_DESCRIBE = Some (root, describe)"
    and rt: "\<And>i. i \<le> length text div 1024 \<Longrightarrow> page_roundtrip Lc describe (page_text text i)"
    and wf: "\<forall>p \<in> set (file_pages Lc ''CXWJ'' describe text). wf_package p"
    and len: "length (concat (map package_string (file_pages Lc ''CXWJ'' describe text))) < 2147483648"
    and nul: "NUL \<notin> set (concat (map package_string (file_pages Lc ''CXWJ'' describe text)))"
    and files: "files_at Lc (c_str (upload_path Lc ''Class'' fname))"
    and dir: "GetDirectory Lc nType fname = Inr dst"
    and copies: "copies Lc (c_str (upload_path Lc ''Class'' fname)) (c_str dst)"
  shows "\<exists>c' sw' sd'.
    DownloadFile Lc [wire sfd (drop (length (w_sends sd)) (w_sends sd'))] strPath strCoures nType nTemplate c =
      (Inr (no_return Lc), c') \<and>
    Process Ls (server_handlers Ls) (wire fd (drop (length (w_sends (cl_world c))) (w_sends (cl_world c')))) (sw, sd) =
      (Inr Drained, (sw', sd')) \<and>
    w_fs (cl_world c') (c_str dst) = Some text"
proof -
  let ?J = "json Ls" and ?msg = "js_write (json Lc) root"
  let ?pkg = "package_string (first_page ''XZWJ'' ?msg)"
  obtain v where "described ?J is_obj root v (download_members ?J fname strCoures strPath nType nTemplate)"
    using root by (elim download_described [OF J N, of fname strCoures strPath nType nTemplate root, rotated]) (simp_all add: same)
  moreover from this have "v = describe" using descr by (simp add: described_def)
  ultimately have de: "described ?J is_obj root describe (download_members ?J fname strCoures strPath nType nTemplate)"
    by simp
  have obj: "is_obj describe" using de by (simp add: described_def)
  have mem: "member_str (json Lc) describe FILE_CLASS ''Class''" "member_str (json Lc) describe FILE_NAME fname"
    "member_int (json Lc) describe FILE_TYPE nType"
    using de by (simp_all add: described_def download_members_def member_str_def member_int_def same
        json_objects_values [OF J])
  let ?pages = "file_pages Ls ''CXWJ'' describe text"
  have pages: "file_pages Lc ''CXWJ'' describe text = ?pages" by (rule file_pages_cong [OF same])
  have js: "page_json Ls describe (page_text text i) \<noteq> None" if "i \<le> length text div 1024" for i
  proof -
    have "page_json Lc describe (page_text text i) = page_json Ls describe (page_text text i)"
      unfolding page_json_def same by simp
    then show ?thesis using rt [OF that] by (auto simp: page_roundtrip_def split: option.splits)
  qed
  have short: "length (package_string (file_page_of Ls ''CXWJ'' describe text i)) < 2147483648"
    if "i \<le> length text div 1024" for i
    using that len pages by (intro file_page_short) simp_all
  obtain root' where path: "json_str2 ?J root FILE_DESCRIBE FILE_PATH = Some (root', strPath)"
    and desc: "js_index ?J root' FILE_DESCRIBE = Some (root', describe)"
    by (rule described_str2 [OF J de, of FILE_PATH strPath]) (simp add: download_members_def)
  obtain sw' sd' where srv: "Process Ls (server_handlers Ls) ?pkg (sw, sd) = (Inr Drained, (sw', sd'))"
    and sent: "w_sends sd' = w_sends sd @ map (sent sfd) ?pages"
    using server_sends_file [OF Ls sw msg body parse path there content desc js short] by blast
  have answer: "wire sfd (drop (length (w_sends sd)) (w_sends sd')) = concat (map package_string ?pages)"
    by (simp add: sent wire_sent)
  define d1 where "d1 = (cl_world c)\<lparr>w_sends := w_sends (cl_world c) @
    [(fd, ?pkg, c_int (sock_send Lc (w_sends (cl_world c)) fd ?pkg))]\<rparr>"
  let ?w1 = "setCMDFinishFlag (-1) w"
  have w1: "client_worker_ok (Some fd) ?w1" "m_strData ?w1 = []" using c(3,4) by (simp_all add: setCMDFinishFlag_def)
  obtain w' d' where run: "Process Lc (client_handlers Lc) (concat (map package_string ?pages)) (?w1, d1) =
      (Inr Drained, (w', d'))"
    and f: "m_cmdFinishFlag w' = 1" "w_fs d' (c_str dst) = Some text" "w_sends d' = w_sends d1"
    using client_stores_file [OF J [folded same] obj Lc(2) mem files dir copies _ wf len w1, of d1] rt
    unfolding pages by blast
  let ?c' = "c\<lparr>m_spWorker := Some w', cl_world := d'\<rparr>"
  have "request Lc [concat (map package_string ?pages)] (\<lambda>w. SendMsgTo Lc w ''XZWJ'' ?msg) c = (Inr (), ?c')"
    using c msg(1) nul f(1)
    by (intro request_answered [OF c(2) _ _ _ d1_def run]) (simp_all add: client_worker_ok_def pages)
  then have down: "DownloadFile Lc [concat (map package_string ?pages)] strPath strCoures nType nTemplate c =
      (Inr (no_return Lc), ?c')"
    using c(1) name root by (simp add: DownloadFile_def prog_simps SendXZWJ_def)
  have "wire fd (drop (length (w_sends (cl_world c))) (w_sends (cl_world ?c'))) = ?pkg"
    using Lc(1) first_page_short_length [OF msg(1), of "''XZWJ''"]
    by (simp add: f(3) d1_def wire_def accepted_def sends_all_def c_int_nat)
  with down srv answer f(2) show ?thesis by (intro exI [of _ ?c'] exI [of _ sw'] exI [of _ sd']) simp
qed

end
