(* ===== verification/SessionProps.thy ===== *)
theory SessionProps
  imports WireProps ServerProps ClientProps Admission Download
begin

text \<open>
  Properties that span the components: the sessions of the server in every interleaving, the
  start of a class, and requests from the client's call to its answer.
\<close>

section \<open>Sessions\<close>

text \<open>C6: in every reachable state of the server, whatever bytes a connection delivers, its read callback
  makes \<open>send\<close> calls only on that connection's socket and changes no other connection's
  worker, on its own thread or another: clients cannot reach each other's sessions or answers.\<close>

theorem answers_go_to_asker:
  assumes "reachable (pool_init L E) (pool_step L) p"
    and "thread_at i (pl_server p) = (Inr t, pl_server p)" and "sm_find fd (data_map t) \<noteq> None"
    and "conn_readcb L i fd input (pl_server p) = (r, s')"
  shows "(\<exists>cs. w_sends (sv_world s') = w_sends (sv_world (pl_server p)) @ cs \<and>
      (\<forall>c \<in> set cs. conn_socket L fd = Some (fst c))) \<and>
    (\<forall>j k. (j, k) \<noteq> (i, fd) \<longrightarrow> worker_of s' j k = worker_of (pl_server p) j k)"
proof -
  have ok: "sessions_ok L (pl_server p)"
    using sessions.reachable_inv [OF assms(1)] by (simp add: session_inv_def)
  obtain w where w: "sm_find fd (data_map t) = Some w" using assms(3) by blast
  obtain w' d' where
    s': "s' = (update_thread i (\<lambda>t. t\<lparr>data_map := sm_put fd w' (data_map t)\<rparr>) (pl_server p))\<lparr>sv_world := d'\<rparr>"
    and sends: "sends_only (conn_socket L fd) (w_sends (sv_world (pl_server p))) d'"
    by (rule conn_readcb_session [OF ok assms(2) w assms(4)])
  show ?thesis using sends unfolding s' worker_of_put [OF assms(2)] by (auto simp: sends_only_def)
qed

text \<open>A database whose every query answers the same table, and the worlds the witnesses start from.\<close>

definition class_table :: myres where
  "class_table = \<lparr>res_fields = [''name''], res_rows = [[Some ''zhang'']]\<rparr>"

definition class_text :: string where
  "class_text = ''name'' @ TAB2 @ NEWLINE @ ''zhang'' @ TAB2 @ NEWLINE"

definition class_value :: "string \<Rightarrow> string \<Rightarrow> jval" where
  "class_value strClass strCourse =
     JObj [(FILE_CLASS, JStr strClass), (FILE_COURES, JStr strCourse), (CLASS_INFO, JStr class_text)]"

definition class_libs :: "(jval, demo_db) libs" where
  "class_libs = (server_demo [class_value ''c1'' ''k''])
     \<lparr>mysql := (demo_mysql True [])\<lparr>my_store_result := (\<lambda>d. (Some class_table, d))\<rparr>\<rparr>"

lemma class_libs_fields [simp]:
  "json class_libs = demo_json [class_value ''c1'' ''k'']" "sends_all class_libs" "bev_made class_libs"
  "bufferevent_socket_new class_libs fd opts = Some fd"
  by (simp_all add: class_libs_def demo_libs_def sends_all_def bev_made_def send_whole_def)

lemma class_steady: "steady_class class_libs datahelper.m_bConnect strClass class_text"
  by (simp add: steady_class_def Display_def connect_if_needed_def IsConnect_def run_query_def store_result_def
      prog_simps class_libs_def demo_libs_def demo_mysql_def class_table_def class_text_def print_header_def Let_def)

lemma class_json: "skbj_json class_libs strClass strCourse class_text = Some (class_value strClass strCourse)"
  by (simp add: skbj_json_def demo_json_def class_value_def json_keys)

lemma class_written: "JsonToString class_libs v = demo_text v"
  by (simp add: JsonToString_def demo_json_def)

lemma class_value_text:
  "length (demo_text (class_value [] [])) < 1024" "length (demo_text (class_value ''c1'' ''k'')) < 1024"
  "str_find PAGTAIL (demo_text (class_value ''c1'' ''k'')) = None"
  by code_simp+

lemma class_parse: "StringToJson (client_demo [class_value ''c1'' ''k'']) (demo_text (class_value ''c1'' ''k'')) =
    Some (class_value ''c1'' ''k'')"
  by (simp add: StringToJson_def demo_libs_def demo_json_def class_value_def)

text \<open>A served connection: accepted, announced, taken by the first thread and told the class.\<close>

lemma served_pool:
  "\<exists>p t. reachable (pool_init class_libs sample_os) (pool_step class_libs) p \<and>
     thread_at 0 (pl_server p) = (Inr t, pl_server p) \<and> sm_find 40 (data_map t) \<noteq> None \<and>
     worker_of (pl_server p) 0 40 \<noteq> None \<and> bytes_of (pl_server p) 0 = [] \<and>
     datahelper.m_bConnect (w_db (sv_world (pl_server p)))"
proof -
  have db: "datahelper.m_bConnect (w_db (demo_world Map.empty))" by (simp add: demo_world_def fresh_db_def)
  have len: "length (JsonToString class_libs (class_value [] [])) < 1024"
    using class_value_text(1) by (simp add: class_written)
  obtain p :: "demo_db pool" and t w where p: "reachable (pool_init class_libs sample_os) (pool_step class_libs) p"
    "thread_at 0 (pl_server p) = (Inr t, pl_server p)" "data_map t = sm_put 40 w []" "notify_bytes t = []"
    "datahelper.m_bConnect (w_db (sv_world (pl_server p)))"
    using first_connection_served [OF sample_os_ok class_libs_fields(2,3) class_steady db class_json len, of 40] by blast
  moreover have "m_libevent_threads (pl_server p) ! 0 = Some t"
    using thread_at_InrD [OF p(2)] by simp
  ultimately show ?thesis by (intro exI [of _ p] exI [of _ t]) (simp add: worker_of_def bytes_of_def)
qed

theorem answers_go_to_asker_witness:
  "\<exists>p r s'. conn_readcb class_libs 0 40 (package_string (first_page ''WCZL'' ''1'')) (pl_server (p :: demo_db pool)) = (r, s') \<and>
     (\<exists>cs. w_sends (sv_world s') = w_sends (sv_world (pl_server p)) @ cs \<and> (\<forall>c \<in> set cs. fst c = 40))"
proof -
  obtain p t where p: "reachable (pool_init class_libs sample_os) (pool_step class_libs) p"
    "thread_at 0 (pl_server p) = (Inr t, pl_server p)" "sm_find 40 (data_map t) \<noteq> None"
    using served_pool by blast
  obtain r s' where r: "conn_readcb class_libs 0 40 (package_string (first_page ''WCZL'' ''1'')) (pl_server p) = (r, s')"
    by fastforce
  from answers_go_to_asker [OF p r] r show ?thesis
    by (intro exI [of _ p] exI [of _ r] exI [of _ s']) (auto simp: conn_socket_def)
qed

section \<open>Starting a class\<close>

text \<open>C15: starting a class reaches the clients: after \<open>Give_A_Class\<close>, once a worker thread
  with no other notification waiting has handled its own, every client connected to that thread
  whose worker, intact and with nothing unread or pending, processes what came over its socket knows
  the class, the course and the students of the class. Conditions: sockets take everything and
  libevent makes the bufferevents; every query for the class's students gives the same text; the
  JSON text of the announcement  is shorter than 1024 bytes, does not hold the
  marker TCPTAIL, and is read back by the client's parser.\<close>

theorem class_reaches_clients:
  assumes "reachable (pool_init L E) (pool_step L) p" and "i < THREAD_NUMB"
    and "bytes_of (pl_server p) i = []" and "sends_all L" and "bev_made L"
    and "steady_class L P strClass strOut" and "P (w_db (sv_world (pl_server p)))"
    and "json_objects (json L) is_obj" and "json Lc = json L"
    and "skbj_json L strClass strCourse strOut = Some js"
    and "length (JsonToString L js) < 1024" and "str_find PAGTAIL (JsonToString L js) = None"
    and "StringToJson Lc (JsonToString L js) = Some js"
    and "worker_of (pl_server p) i fd \<noteq> None"
    and "client_worker_ok bev cw" and "m_strData cw = []" and "m_strMsgContent cw = []"
  shows "\<exists>s1 s2 cw'. Give_A_Class L strClass strCourse (pl_server p) = (Inr 0, s1) \<and>
    notify_cb L i s1 = (Inr (), s2) \<and>
    Process Lc (client_handlers Lc)
      (wire fd (drop (length (w_sends (sv_world s1))) (w_sends (sv_world s2)))) (cw, cd) = (Inr Drained, (cw', cd)) \<and>
    worker_GetClass cw' = strClass \<and> worker_GetCourse cw' = strCourse \<and> worker_GetClassStudent cw' = strOut"
proof -
  have up: "threads_up (pl_server p)" using pool.reachable_inv [OF assms(1)] by (simp add: pool_inv_def)
  have ok: "sessions_ok L (pl_server p)"
    using sessions.reachable_inv [OF assms(1)] by (simp add: session_inv_def)
  obtain s1 s2 where s: "Give_A_Class L strClass strCourse (pl_server p) = (Inr 0, s1)" "notify_cb L i s1 = (Inr (), s2)"
    "wire fd (drop (length (w_sends (sv_world s1))) (w_sends (sv_world s2))) =
       package_string (first_page ''SKBJ'' (JsonToString L js))"
    using class_broadcast [OF up ok assms(2-7,10,11)] assms(14) by blast
  have v: "json_str (json Lc) js FILE_CLASS = Some (js, strClass)"
    "json_str (json Lc) js FILE_COURES = Some (js, strCourse)" "json_str (json Lc) js CLASS_INFO = Some (js, strOut)"
    using assms(10) by (auto simp: assms(9) intro: skbj_json_view [OF assms(8), of strClass strCourse strOut])
  from client_class_stored [OF assms(15-17,11-13) v, of cd] s show ?thesis by auto
qed

theorem class_reaches_clients_witness:
  "\<exists>p s1 s2 cw'. Give_A_Class class_libs ''c1'' ''k'' (pl_server (p :: demo_db pool)) = (Inr 0, s1) \<and>
    notify_cb class_libs 0 s1 = (Inr (), s2) \<and>
    Process (client_demo [class_value ''c1'' ''k'']) (client_handlers (client_demo [class_value ''c1'' ''k'']))
      (wire 40 (drop (length (w_sends (sv_world s1))) (w_sends (sv_world s2))))
      (SetBev (Some 7) CClientWorker_new, demo_world Map.empty) = (Inr Drained, (cw', demo_world Map.empty)) \<and>
    worker_GetClass cw' = ''c1'' \<and> worker_GetCourse cw' = ''k'' \<and> worker_GetClassStudent cw' = class_text"
proof -
  obtain p t where p: "reachable (pool_init class_libs sample_os) (pool_step class_libs) p"
    "worker_of (pl_server p) 0 40 \<noteq> None" "bytes_of (pl_server p) 0 = []"
    "datahelper.m_bConnect (w_db (sv_world (pl_server p)))"
    using served_pool by blast
  have zero: "0 < THREAD_NUMB" by (simp add: THREAD_NUMB_def)
  note r = class_reaches_clients [OF p(1) zero p(3) _ _ class_steady p(4) _ _ class_json _ _ _ p(2) new_worker_ok,
      where is_obj = is_JObj and Lc = "client_demo [class_value ''c1'' ''k'']" and strClass = "''c1''" and strCourse = "''k''"
        and bev = "Some 7" and cd = "demo_world Map.empty"]
  show ?thesis
    by (rule exI [of _ p], rule r)
       (simp_all add: class_written class_value_text class_parse demo_json_objects SetBev_def CClientWorker_new_def
          cworker.defs CWorker_new_def demo_libs_json)
qed

section \<open>Requests\<close>

text \<open>C18: asking for a device number, end to end: what the client's call sends makes the server's worker
  look the device up, and what the server then sends makes the call return exactly the text of that
  lookup, when the lookup itself returns. Conditions: the address and the text of the lookup are
  shorter than 1024 bytes and do not hold the marker TCPTAIL,  and
  the text has no zero byte; sockets take everything; both workers
  are intact with nothing unread or pending.\<close>

theorem device_number_round_trip:
  assumes "sends_all Lc" and "sends_all Ls"
    and "m_bConnect c \<noteq> 0" and "m_spWorker c = Some w" and "client_worker_ok (Some fd) w"
    and "m_strData w = []" and "m_strMsgContent w = []"
    and "server_worker_ok (Some sfd) sw" and "m_strData sw = []" and "m_strMsgContent sw = []"
    and "length ip < 1024" and "str_find PAGTAIL ip = None"
    and "Device Ls (sbbh_request ip) 2 (w_db sd) = (Inr (r, s), h)"
    and "length s < 1024" and "str_find PAGTAIL s = None" and "NUL \<notin> set s"
  shows "\<exists>c' sw' sd'.
    GetDeviceNum Lc [wire sfd (drop (length (w_sends sd)) (w_sends sd'))] ip c = (Inr s, c') \<and>
    Process Ls (server_handlers Ls) (wire fd (drop (length (w_sends (cl_world c))) (w_sends (cl_world c')))) (sw, sd) =
      (Inr Drained, (sw', sd')) \<and>
    w_db sd' = h"
proof -
  obtain sw' sd' where srv: "Process Ls (server_handlers Ls) (package_string (first_page ''SBBH'' ip)) (sw, sd) =
      (Inr Drained, (sw', sd'))" "w_db sd' = h" "w_sends sd' = w_sends sd @ [sent sfd (first_page ''SBBH'' s)]"
    using server_device_answer [OF assms(2,8-14)] by blast
  have answer: "wire sfd (drop (length (w_sends sd)) (w_sends sd')) = package_string (first_page ''SBBH'' s)"
    using wire_sent [of sfd "[first_page ''SBBH'' s]"] by (simp add: srv(3))
  have len: "length ip < 2147483648" using assms(11) by simp
  obtain n c' where cl: "GetDeviceNum Lc [package_string (first_page ''SBBH'' s)] ip c = (Inr s, c')"
    "n = c_int (sock_send Lc (w_sends (cl_world c)) fd (package_string (first_page ''SBBH'' ip)))"
    "w_sends (cl_world c') = w_sends (cl_world c) @ [(fd, package_string (first_page ''SBBH'' ip), n)]"
    using GetDeviceNum_exchange [OF assms(3-7) len assms(14-16), of Lc] by blast
  have "wire fd (drop (length (w_sends (cl_world c))) (w_sends (cl_world c'))) = package_string (first_page ''SBBH'' ip)"
    using assms(1) first_page_short_length [OF assms(11), of "''SBBH''"]
    by (simp add: cl(2,3) wire_def accepted_def sends_all_def c_int_nat)
  with cl(1) srv(1,2) answer show ?thesis by (intro exI [of _ c'] exI [of _ sw'] exI [of _ sd']) simp
qed

text \<open>A device that the database knows, and what the lookup prints.\<close>

definition device_request :: jval where
  "device_request = JObj [(''deviceNumber'', JStr []), (''ipaddr'', JStr ''10.1'')]"

definition device_libs :: "(jval, demo_db) libs" where
  "device_libs = (server_demo [])\<lparr>json := (demo_json [])\<lparr>js_parse := (\<lambda>s. Some device_request)\<rparr>\<rparr>"

definition device_text :: string where
  "device_text = ''number'' @ TAB2 @ NEWLINE @ ''T1'' @ TAB2 @ NEWLINE"

definition device_world :: "demo_db world" where
  "device_world = \<lparr>w_fs = Map.empty, w_sends = [],
     w_db = fresh_db [Some \<lparr>res_fields = [''number''], res_rows = [[Some ''T1'']]\<rparr>]\<rparr>"

lemma device_lookup: "\<exists>r h. Device device_libs (sbbh_request ''10.1'') 2 (w_db device_world) = (Inr (r, device_text), h)"
  by (simp add: Device_def get_str_def get_int_def get_null_def get_int_when_null_is_def prog_simps json_str_def json_int_def
      json_null_def device_libs_def device_request_def demo_libs_def demo_json_def demo_mysql_def device_world_def fresh_db_def
      Display_def connect_if_needed_def IsConnect_def run_query_def store_result_def print_header_def device_text_def)

theorem device_number_round_trip_witness:
  "\<exists>c' sw' sd'.
    GetDeviceNum (client_demo []) [wire 7 (drop (length (w_sends device_world)) (w_sends sd'))] ''10.1'' up_client =
      (Inr device_text, c') \<and>
    Process device_libs (server_handlers device_libs)
      (wire 7 (drop (length (w_sends (cl_world up_client))) (w_sends (cl_world c')))) (sample_worker, device_world) =
      (Inr Drained, (sw', sd'))"
proof -
  obtain r h where d: "Device device_libs (sbbh_request ''10.1'') 2 (w_db device_world) = (Inr (r, device_text), h)"
    using device_lookup by blast
  have t: "length device_text < 1024" "NUL \<notin> set device_text" "str_find PAGTAIL device_text = None"
    "str_find PAGTAIL ''10.1'' = None"
    by (simp_all add: device_text_def TAB2_def NEWLINE_def NUL_def PAGTAIL_def)
  have "server_worker_ok (Some 7) sample_worker" unfolding sample_worker_def by (rule server_worker_ok_new)
  then have "\<exists>c' sw' sd'.
    GetDeviceNum (client_demo []) [wire 7 (drop (length (w_sends device_world)) (w_sends sd'))] ''10.1'' up_client =
      (Inr device_text, c') \<and>
    Process device_libs (server_handlers device_libs)
      (wire 7 (drop (length (w_sends (cl_world up_client))) (w_sends (cl_world c')))) (sample_worker, device_world) =
      (Inr Drained, (sw', sd')) \<and> w_db sd' = h"
    using t new_worker_ok
    by (intro device_number_round_trip [OF _ _ _ _ _ _ _ _ _ _ _ _ d, where w = "SetBev (Some 7) CClientWorker_new"])
       (simp_all add: device_libs_def sends_all_def demo_libs_def send_whole_def SetBev_def CClientWorker_new_def
          cworker.defs CWorker_new_def)
  then show ?thesis by blast
qed

text \<open>C4: fetching a file, end to end: what \<open>DownloadFile\<close> sends makes the server's worker
  send the pages of the file, and what the server then sends makes the call return with the file's
  exact content in the directory the program type belongs to. Conditions: the file exists on the
  server, is shorter than 2 to the 31 bytes, also in pages, and has no zero byte; sockets take
  everything; the request's JSON text is shorter than 1024 bytes; neither the request nor any page
  of the file holds the marker TCPTAIL or a zero byte, and all are read back by the JSON parser; the
  workers of both sides are intact and have nothing unread or pending; the client can store and copy
  files, and the type has a directory.\<close>

theorem download_completes:
  assumes "json_objects (json Ls) is_obj" and "json_inserts (json Ls) is_obj" and "json Lc = json Ls"
    and "sends_all Ls" and "sends_all Lc" and "\<not> SERVER Lc"
    and "m_bConnect c \<noteq> 0" and "m_spWorker c = Some w" and "client_worker_ok (Some fd) w" and "m_strData w = []"
    and "download_name strPath = Inr fname"
    and "download_json (json Lc) fname strCoures strPath nType nTemplate = Some root"
    and "StringToJson Ls (js_write (json Lc) root) = Some root"
    and "length (js_write (json Lc) root) < 1024" and "str_find PAGTAIL (js_write (json Lc) root) = None"
    and "server_worker_ok (Some sfd) sw" and "m_strData sw = []" and "m_strMsgContent sw = []"
    and "IsFileExist Ls (w_fs sd) (c_str strPath)" and "w_fs sd (c_str strPath) = Some content"
    and "length content < 2147483648" and "NUL \<notin> set content"
    and "js_index (json Ls) root FILE_DESCRIBE = Some (root, describe)"
    and "\<forall>i \<le> length content div 1024. page_roundtrip Lc describe (page_text content i)"
    and "\<forall>p \<in> set (file_pages Lc ''CXWJ'' describe content). wf_package p"
    and "length (concat (map package_string (file_pages Lc ''CXWJ'' describe content))) < 2147483648"
    and "NUL \<notin> set (concat (map package_string (file_pages Lc ''CXWJ'' describe content)))"
    and "files_at Lc (c_str (upload_path Lc ''Class'' fname))"
    and "GetDirectory Lc nType fname = Inr dst"
    and "copies Lc (c_str (upload_path Lc ''Class'' fname)) (c_str dst)"
  shows "\<exists>c' sw' sd'.
    DownloadFile Lc [wire sfd (drop (length (w_sends sd)) (w_sends sd'))] strPath strCoures nType nTemplate c =
      (Inr (no_return Lc), c') \<and>
    Process Ls (server_handlers Ls) (wire fd (drop (length (w_sends (cl_world c))) (w_sends (cl_world c')))) (sw, sd) =
      (Inr Drained, (sw', sd')) \<and>
    w_fs (cl_world c') (c_str dst) = Some content"
  using assms(24) by (intro download [OF assms(1-23) _ assms(25-30)]) blast

definition fetch_describe :: jval where
  "fetch_describe = JObj [(FILE_CLASS, JStr ''Class''), (FILE_NAME, JStr ''f''), (FILE_COURES, JStr ''k''),
     (FILE_PATH, JStr ''/f''), (FILE_TYPE, JInt 1), (FILE_TEMPLATE, JInt 0)]"

abbreviation fetch_root :: jval where
  "fetch_root \<equiv> demo_request fetch_describe"

abbreviation fetch_page :: jval where
  "fetch_page \<equiv> demo_page fetch_describe"

abbreviation fetch_server :: "(jval, demo_db) libs" where
  "fetch_server \<equiv> server_demo [fetch_page, fetch_root]"

abbreviation fetch_client :: "(jval, demo_db) libs" where
  "fetch_client \<equiv> client_demo [fetch_page, fetch_root]"

abbreviation fetch_path :: string where
  "fetch_path \<equiv> ''/opt/../robotTeachABB/robotTeachABBFile/RobotProgram.xml''"

lemma fetch_name: "download_name ''/f'' = Inr ''f''"
  by code_simp

lemma fetch_json: "download_json (json fetch_client) ''f'' ''k'' ''/f'' 1 0 = Some fetch_root"
  by (simp add: demo_libs_json download_json_def json_set2_def demo_json_def demo_request_def fetch_describe_def json_keys)

lemma fetch_texts:
  "length (demo_text fetch_root) < 1024" "str_find PAGTAIL (demo_text fetch_root) = None"
  "str_find PAGTAIL (demo_text fetch_page) = None" "length (demo_text fetch_page) < 500"
  "NUL \<notin> set (demo_text fetch_page)"
  by code_simp+

lemmas fetch_wire = demo_pages_wire [OF demo_libs_json fetch_texts(3,4)] demo_pages_no_nul [OF demo_libs_json fetch_texts(5)]

theorem download_completes_witness:
  "\<exists>c' sw' sd'.
    DownloadFile fetch_client [wire 7 (drop (length (w_sends (demo_world [''/f'' \<mapsto> ''abc'']))) (w_sends sd'))]
      ''/f'' ''k'' 1 0 up_client = (Inr (no_return fetch_client), c') \<and>
    Process fetch_server (server_handlers fetch_server)
      (wire 7 (drop (length (w_sends (cl_world up_client))) (w_sends (cl_world c'))))
      (sample_worker, demo_world [''/f'' \<mapsto> ''abc'']) = (Inr Drained, (sw', sd')) \<and>
    w_fs (cl_world c') (c_str fetch_path) = Some ''abc''"
proof (rule download_completes [OF _ _ _ _ _ _ _ _ new_worker_ok _ fetch_name fetch_json _ _ _ _ _ _ _ _ _ _ _ _ fetch_wire])
  show "json_objects (json fetch_server) is_JObj" by (simp add: demo_libs_json demo_json_objects)
  show "json_inserts (json fetch_server) is_JObj" by (simp add: demo_libs_json json_inserts_def demo_json_def)
  show "server_worker_ok (Some 7) sample_worker" unfolding sample_worker_def by (rule server_worker_ok_new)
  show "StringToJson fetch_server (js_write (json fetch_client) fetch_root) = Some fetch_root"
    by (simp add: demo_libs_json) (simp add: demo_json_def demo_request_parse [OF demo_libs_json])
  show "length (js_write (json fetch_client) fetch_root) < 1024" "str_find PAGTAIL (js_write (json fetch_client) fetch_root) = None"
    using fetch_texts(1,2) by (simp_all add: demo_libs_json) (simp_all add: demo_json_def)
  show "IsFileExist fetch_server (w_fs (demo_world [''/f'' \<mapsto> ''abc''])) (c_str ''/f'')"
    by (simp add: demo_libs_def demo_world_def c_str_def NUL_def)
  show "js_index (json fetch_server) fetch_root FILE_DESCRIBE = Some (fetch_root, fetch_describe)"
    by (simp add: demo_libs_json demo_request_describes)
  show "\<forall>i \<le> length ''abc'' div 1024. page_roundtrip fetch_client fetch_describe (page_text ''abc'' i)"
    by (rule demo_page_roundtrips [OF demo_libs_json])
  show "files_at fetch_client (c_str (upload_path fetch_client ''Class'' ''f''))"
    by (simp add: files_at_def demo_libs_def)
  show "GetDirectory fetch_client 1 ''f'' = Inr fetch_path"
    by (simp add: GetDirectory_def demo_libs_def TeachProgramDirect_def)
  show "copies fetch_client (c_str (upload_path fetch_client ''Class'' ''f'')) (c_str fetch_path)"
    by (simp add: copies_def demo_libs_def)
qed (simp_all add: sample_contents demo_libs_json NUL_def SetBev_def CClientWorker_new_def cworker.defs CWorker_new_def,
     simp add: demo_libs_def)

end
