(* ===== verification/Dispatcher.thy ===== *)
theory Dispatcher
  imports NotifyProtocol
begin

text \<open>
  What handing out connections promises, without threads, bytes and locks: a dispatcher with a turn
  and one waiting line per worker. Every run of \<open>pool_step\<close>, with its acceptances and openings as
  events, is a run of the dispatcher; the locale \<open>simulation\<close> is the contract behind it.
\<close>

section \<open>Simulation\<close>

text \<open>
  A system whose steps carry an event or none implements an abstract machine when every event is a
  move of the machine from the abstraction of the state before to that of the state after.
\<close>

fun machine_run :: "('a \<Rightarrow> 'e \<Rightarrow> 'a option) \<Rightarrow> 'a \<Rightarrow> 'e list \<Rightarrow> 'a option" where
  "machine_run move a [] = Some a"
| "machine_run move a (e # es) =
     (case move a e of None \<Rightarrow> None | Some b \<Rightarrow> machine_run move b es)"

lemma machine_run_append:
  "machine_run move a (es @ fs) =
     (case machine_run move a es of None \<Rightarrow> None | Some b \<Rightarrow> machine_run move b fs)"
  by (induction es arbitrary: a) (auto split: option.split)

definition event_list :: "'e option \<Rightarrow> 'e list" where
  "event_list e = (case e of None \<Rightarrow> [] | Some x \<Rightarrow> [x])"

lemma event_list_simps [simp]: "event_list None = []" "event_list (Some x) = [x]"
  by (simp_all add: event_list_def)

text \<open>The histories of a system: the events on the way to a state.\<close>

inductive history :: "('s \<Rightarrow> bool) \<Rightarrow> ('s \<Rightarrow> 'e option \<Rightarrow> 's \<Rightarrow> bool) \<Rightarrow> 's \<Rightarrow> 'e list \<Rightarrow> bool"
  for init :: "'s \<Rightarrow> bool" and does :: "'s \<Rightarrow> 'e option \<Rightarrow> 's \<Rightarrow> bool"
where
  history_init: "init s \<Longrightarrow> history init does s []"
| history_step: "history init does s es \<Longrightarrow> does s e t \<Longrightarrow> history init does t (es @ event_list e)"

locale simulation = invariant_system init step inv
  for init :: "'s \<Rightarrow> bool" and step :: "'s \<Rightarrow> 's \<Rightarrow> bool" and inv :: "'s \<Rightarrow> bool" +
  fixes does :: "'s \<Rightarrow> 'e option \<Rightarrow> 's \<Rightarrow> bool"
    and move :: "'a \<Rightarrow> 'e \<Rightarrow> 'a option"
    and start :: 'a
    and abs :: "'s \<Rightarrow> 'a"
  assumes does_step: "does s e t \<Longrightarrow> step s t"
    and step_does: "inv s \<Longrightarrow> step s t \<Longrightarrow> \<exists>e. does s e t"
    and abs_init: "init s \<Longrightarrow> abs s = start"
    and abs_step: "inv s \<Longrightarrow> does s e t \<Longrightarrow> machine_run move (abs s) (event_list e) = Some (abs t)"
begin

lemma history_reachable: "history init does s es \<Longrightarrow> reachable init step s"
proof (induction rule: history.induct)
  case (history_init s)
  then show ?case by (rule reachable_init)
next
  case (history_step s es e t)
  show ?case by (rule reachable_step [OF history_step.IH does_step [OF history_step.hyps(2)]])
qed

lemma reachable_history: "reachable init step s \<Longrightarrow> \<exists>es. history init does s es"
proof (induction rule: reachable.induct)
  case (reachable_init s)
  then show ?case by (intro exI) (rule history_init)
next
  case (reachable_step s t)
  then obtain es where es: "history init does s es" by blast
  obtain e where "does s e t"
    using step_does [OF reachable_inv [OF reachable_step.hyps(1)] reachable_step.hyps(2)] by blast
  with es show ?case by (intro exI) (rule history_step)
qed

lemma history_runs: "history init does s es \<Longrightarrow> machine_run move start es = Some (abs s)"
proof (induction rule: history.induct)
  case (history_init s)
  then show ?case by (simp add: abs_init)
next
  case (history_step s es e t)
  have "inv s" using history_reachable [OF history_step.hyps(1)] by (rule reachable_inv)
  then show ?case using history_step abs_step by (simp add: machine_run_append)
qed

end

section \<open>The dispatcher\<close>

record dispatcher =
  turn :: nat
  waiting :: "nat \<Rightarrow> conn_queue_item list"

datatype pool_event = Accepted conn_queue_item | Opened nat conn_queue_item

definition idle_dispatcher :: dispatcher where
  "idle_dispatcher = \<lparr>turn = 0, waiting = (\<lambda>i. [])\<rparr>"

text \<open>An accepted connection joins the line whose turn it is; only the first of a line is opened.\<close>

fun dispatch :: "dispatcher \<Rightarrow> pool_event \<Rightarrow> dispatcher option" where
  "dispatch a (Accepted x) =
     Some (a\<lparr>turn := Suc (turn a) mod THREAD_NUMB,
             waiting := (waiting a)(turn a := waiting a (turn a) @ [x])\<rparr>)"
| "dispatch a (Opened i x) =
     (case waiting a i of
        [] \<Rightarrow> None
      | y # q \<Rightarrow> if y = x then Some (a\<lparr>waiting := (waiting a)(i := q)\<rparr>) else None)"

text \<open>The accepted connections of a list of events, and those a worker has opened.\<close>

fun accepted_in :: "pool_event list \<Rightarrow> conn_queue_item list" where
  "accepted_in [] = []"
| "accepted_in (Accepted x # es) = x # accepted_in es"
| "accepted_in (Opened i x # es) = accepted_in es"

fun opened_by :: "nat \<Rightarrow> pool_event list \<Rightarrow> conn_queue_item list" where
  "opened_by i [] = []"
| "opened_by i (Accepted x # es) = opened_by i es"
| "opened_by i (Opened j x # es) = (if j = i then x # opened_by i es else opened_by i es)"

lemma accepted_in_append [simp]: "accepted_in (es @ fs) = accepted_in es @ accepted_in fs"
  by (induction es rule: accepted_in.induct) simp_all

lemma opened_by_append [simp]: "opened_by i (es @ fs) = opened_by i es @ opened_by i fs"
  by (induction i es rule: opened_by.induct) simp_all

text \<open>The share of worker \<open>i\<close> in a list of connections: every fourth one from the i-th on.\<close>

definition share :: "nat \<Rightarrow> 'x list \<Rightarrow> 'x list" where
  "share i xs = nths xs {n. n mod THREAD_NUMB = i}"

lemma share_Nil [simp]: "share i [] = []"
  by (simp add: share_def)

lemma share_snoc: "share i (xs @ [x]) = share i xs @ (if length xs mod THREAD_NUMB = i then [x] else [])"
  by (simp add: share_def nths_append nths_singleton)

text \<open>The dispatcher serves every line in order: first come, first served, none lost or repeated.\<close>

lemma dispatcher_in_order:
  "machine_run dispatch idle_dispatcher es = Some a \<Longrightarrow>
   turn a = length (accepted_in es) mod THREAD_NUMB \<and>
   (\<forall>i. opened_by i es @ waiting a i = share i (accepted_in es))"
proof (induction es arbitrary: a rule: rev_induct)
  case Nil
  then show ?case by (auto simp: idle_dispatcher_def)
next
  case (snoc e es)
  then obtain b where b: "machine_run dispatch idle_dispatcher es = Some b" "dispatch b e = Some a"
    by (auto simp: machine_run_append split: option.splits)
  show ?case
  proof (cases e)
    case (Accepted x)
    then show ?thesis using snoc.IH [OF b(1)] b(2) by (auto simp: share_snoc mod_Suc_eq)
  next
    case (Opened i x)
    then obtain q where q: "waiting b i = x # q" "a = b\<lparr>waiting := (waiting b)(i := q)\<rparr>"
      using b(2) by (auto split: list.splits if_splits)
    have "opened_by j (es @ [e]) @ waiting a j = opened_by j es @ waiting b j" for j
      using q Opened by simp
    then show ?thesis using snoc.IH [OF b(1)] q(2) Opened by simp
  qed
qed

section \<open>The events of the pool\<close>

text \<open>
  Queueing a connection is an acceptance, acting on a byte that is not a broadcast opens the
  connection taken from the queue, and any other step is silent; it leaves every queue alone.
\<close>

inductive pool_does :: "('j, 'd) libs \<Rightarrow> 'd pool \<Rightarrow> pool_event option \<Rightarrow> 'd pool \<Rightarrow> bool" for L where
  does_accept:
    "pl_accept p = None \<Longrightarrow> listener_queue fd ip (pl_server p) = (Inr i, s') \<Longrightarrow>
     pool_does L p (Some (Accepted (item_of (fd, ip)))) (p\<lparr>pl_server := s', pl_accept := Some i\<rparr>)"
| does_open:
    "pl_held p i = Some c \<Longrightarrow> is_conn c \<Longrightarrow> pop_conn i (pl_server p) = (Inr x, s1) \<Longrightarrow>
     open_conn L i x s1 = (Inr (), s') \<Longrightarrow>
     pool_does L p (Some (Opened i x)) (p\<lparr>pl_server := s', pl_held := (pl_held p)(i := None)\<rparr>)"
| does_silent:
    "pool_step L p q \<Longrightarrow> m_last_thread (pl_server q) = m_last_thread (pl_server p) \<Longrightarrow>
     (\<forall>i < THREAD_NUMB. queue_of (pl_server q) i = queue_of (pl_server p) i) \<Longrightarrow>
     pool_does L p None q"

lemma handle_byte_open:
  fixes s :: "'d LibEvtServer"
  assumes "is_conn c"
  shows "handle_byte L i c s = andThen (pop_conn i) (\<lambda>item. open_conn L i item) s"
  using assms by (simp add: handle_byte_def is_conn_def)

lemma pool_does_step: "pool_does L p e q \<Longrightarrow> pool_step L p q"
proof (induction rule: pool_does.induct)
  case (does_accept p fd ip i s')
  then show ?case by (rule step_accept)
next
  case (does_open p i c x s1 s')
  have "handle_byte L i c (pl_server p) = (Inr (), s')"
    unfolding handle_byte_open [OF does_open(2)] andThen_apply using does_open(3,4) by simp
  with does_open(1) show ?case by (rule step_handle)
qed simp

text \<open>A quiet update of the threads shows in no queue.\<close>

lemma queues_quiet:
  assumes "threads_up s" and "threads_become s i f s'" and "\<And>t. conn_queue (f t) = conn_queue t"
  shows "m_last_thread s' = m_last_thread s \<and> (\<forall>j < THREAD_NUMB. queue_of s' j = queue_of s j)"
proof -
  have "queue_of s' j = queue_of s j" if j: "j < THREAD_NUMB" for j
  proof -
    obtain t where t: "m_libevent_threads s ! j = Some t" using threads_up_nth [OF assms(1) j] by blast
    show ?thesis using become_view [OF assms(2,1) j t] assms(3) by auto
  qed
  then show ?thesis using become_up [OF assms(2,1)] by simp
qed

lemma pool_step_does:
  assumes inv: "pool_inv L E p" and st: "pool_step L p q"
  shows "\<exists>e. pool_does L p e q"
proof -
  have up: "threads_up (pl_server p)" using inv by (simp add: pool_inv_def)
  have silent: "\<exists>e. pool_does L p e q"
    if "m_last_thread (pl_server q) = m_last_thread (pl_server p) \<and>
        (\<forall>i < THREAD_NUMB. queue_of (pl_server q) i = queue_of (pl_server p) i)"
    using does_silent [OF st] that by blast
  have notify: "\<exists>e. pool_does L p e q"
    if n: "notify_thread L i c (pl_server p) = (Inr (), pl_server q)" for i c
  proof (rule silent)
    from notify_thread_become(1) [OF n]
    show "m_last_thread (pl_server q) = m_last_thread (pl_server p) \<and>
      (\<forall>i < THREAD_NUMB. queue_of (pl_server q) i = queue_of (pl_server p) i)"
      using queues_quiet [OF up, of i "\<lambda>t. t"] queues_quiet [OF up, of i "push_byte c"] by (auto simp: push_byte_def)
  qed
  from st show ?thesis
  proof (cases rule: pool_step_kinds)
    case (accept fd ip i s')
    then show ?thesis using does_accept [of p fd ip i s' L] by blast
  next
    case (wake i s')
    then show ?thesis using notify [of i] by simp
  next
    case (signal c i s')
    then show ?thesis using notify [of i c] by simp
  next
    case (recv i c s')
    obtain cs where "threads_become (pl_server p) i (\<lambda>t. t\<lparr>notify_bytes := cs\<rparr>) s'"
      by (rule recv_byte_become [OF recv(2)])
    then show ?thesis using silent queues_quiet [OF up] recv(3) by simp
  next
    case (handle i c s')
    show ?thesis
    proof (cases "is_conn c")
      case True
      then obtain x s1 where "pop_conn i (pl_server p) = (Inr x, s1)" "open_conn L i x s1 = (Inr (), s')"
        using handle_byte_conn [OF handle(2)] by (auto simp: is_conn_def)
      then show ?thesis using does_open [OF handle(1) True] handle(3) by blast
    next
      case False
      then have "threads_become (pl_server p) i (\<lambda>t. t) s'"
        using handle_byte_broadcast [OF handle(2)] by (auto simp: is_conn_def)
      then show ?thesis using silent queues_quiet [OF up] handle(3) by simp
    qed
  next
    case (session i f s')
    then show ?thesis using silent queues_quiet [OF up session(2)] by (simp add: quiet_def)
  qed
qed

section \<open>The pool implements the dispatcher\<close>

definition dispatcher_of :: "'d pool \<Rightarrow> dispatcher" where
  "dispatcher_of p =
     \<lparr>turn = nat (next_thread (m_last_thread (pl_server p))),
      waiting = (\<lambda>i. if i < THREAD_NUMB then queue_of (pl_server p) i else [])\<rparr>"

lemma turn_advances:
  assumes "-1 \<le> k"
  shows "nat (next_thread (next_thread k)) = Suc (nat (next_thread k)) mod THREAD_NUMB"
proof -
  have "0 \<le> next_thread k" using next_thread_range [OF assms] by simp
  then have "next_thread (next_thread k) = (next_thread k + 1) mod 4"
    by (intro next_thread_mod) simp
  then show ?thesis using \<open>0 \<le> next_thread k\<close> by (simp add: THREAD_NUMB_def nat_mod_distrib nat_add_distrib)
qed

lemma dispatcher_accept:
  assumes inv: "pool_inv L E p" and "listener_queue fd ip (pl_server p) = (Inr i, s')"
  shows "dispatch (dispatcher_of p) (Accepted (item_of (fd, ip))) =
    Some (dispatcher_of (p\<lparr>pl_server := s', pl_accept := a\<rparr>))"
proof -
  have up: "threads_up (pl_server p)" and last: "-1 \<le> m_last_thread (pl_server p)"
    using inv by (simp_all add: pool_inv_def)
  let ?c = "next_thread (m_last_thread (pl_server p))"
  have s': "m_last_thread s' = ?c"
    "m_libevent_threads s' = m_libevent_threads (update_thread (nat ?c) (push_conn (item_of (fd, ip))) (pl_server p))"
    using listener_queue_up [OF up last, of fd ip] assms(2) by auto
  have "queue_of s' j = queue_of (pl_server p) j @ (if nat ?c = j then [item_of (fd, ip)] else [])"
    if "j < THREAD_NUMB" for j
    using queue_of_push_conn [OF up that, of "nat ?c"] s'(2) by (simp add: queue_of_def)
  moreover have "nat ?c < THREAD_NUMB" using next_thread_range [OF last] by (auto simp: THREAD_NUMB_def)
  ultimately show ?thesis
    by (simp add: dispatcher_of_def s'(1) turn_advances [OF last] fun_eq_iff)
qed

lemma dispatcher_open:
  assumes inv: "pool_inv L E p" and pop: "pop_conn i (pl_server p) = (Inr x, s1)"
    and op: "open_conn L i x s1 = (Inr (), s')"
  shows "dispatch (dispatcher_of p) (Opened i x) =
    Some (dispatcher_of (p\<lparr>pl_server := s', pl_held := h\<rparr>))"
proof -
  have up: "threads_up (pl_server p)" using inv by (simp add: pool_inv_def)
  obtain t q where t: "i < length (m_libevent_threads (pl_server p))" "m_libevent_threads (pl_server p) ! i = Some t"
    "conn_queue t = x # q" and b: "threads_become (pl_server p) i (\<lambda>t. t\<lparr>conn_queue := q\<rparr>) s1"
    by (rule pop_conn_become [OF pop])
  have i: "i < THREAD_NUMB" using t(1) up by (simp add: threads_up_def)
  obtain f where f: "quiet f" "threads_become s1 i f s'" using open_conn_become [OF op] by blast
  have q1: "queue_of s1 j = (if i = j then q else queue_of (pl_server p) j)" if j: "j < THREAD_NUMB" for j
  proof -
    obtain u where u: "m_libevent_threads (pl_server p) ! j = Some u" using threads_up_nth [OF up j] by blast
    show ?thesis using become_view [OF b up j u] by auto
  qed
  have "m_last_thread s' = m_last_thread s1 \<and> (\<forall>j < THREAD_NUMB. queue_of s' j = queue_of s1 j)"
    using queues_quiet [OF become_up(1) [OF b up] f(2)] f(1) by (simp add: quiet_def)
  then have "m_last_thread s' = m_last_thread (pl_server p)"
    and "queue_of s' j = (if i = j then q else queue_of (pl_server p) j)" if "j < THREAD_NUMB" for j
    using q1 that become_up(2) [OF b up] by simp_all
  moreover have "queue_of (pl_server p) i = x # q" using t by (simp add: queue_of_def)
  ultimately show ?thesis using i by (simp add: dispatcher_of_def fun_eq_iff)
qed

interpretation pool_sim: simulation "pool_init L E" "pool_step L" "pool_inv L E" "pool_does L"
    dispatch idle_dispatcher dispatcher_of
  for L :: "('j, 'd) libs" and E :: os
proof unfold_locales
  fix p q :: "'d pool" and e
  show "pool_does L p e q \<Longrightarrow> pool_step L p q" by (rule pool_does_step)
  show "pool_inv L E p \<Longrightarrow> pool_step L p q \<Longrightarrow> \<exists>e. pool_does L p e q" by (rule pool_step_does)
  show "dispatcher_of p = idle_dispatcher" if init: "pool_init L E p"
  proof -
    obtain d where E: "os_base E" "\<forall>i < THREAD_NUMB. os_pair E i \<noteq> None"
      and n: "LibEvtServer_new L E d = (Inr True, pl_server p)"
      using init by (auto simp: pool_init_def)
    have "m_last_thread (pl_server p) = -1"
      "m_libevent_threads (pl_server p) = map (\<lambda>i. Some (started_thread E i)) [0..<THREAD_NUMB]"
      using server_new_up [OF E, of L d] n by auto
    then show ?thesis
      by (simp add: dispatcher_of_def idle_dispatcher_def queue_of_def next_thread_mod fun_eq_iff)
  qed
  assume inv: "pool_inv L E p" and do_e: "pool_does L p e q"
  show "machine_run dispatch (dispatcher_of p) (event_list e) = Some (dispatcher_of q)"
    using do_e
  proof cases
    case (does_accept fd ip i s')
    have "dispatch (dispatcher_of p) (Accepted (item_of (fd, ip))) = Some (dispatcher_of q)"
      unfolding does_accept(2) by (rule dispatcher_accept [OF inv does_accept(4)])
    then show ?thesis unfolding does_accept(1) by (simp del: dispatch.simps)
  next
    case (does_open i c x s1 s')
    have "dispatch (dispatcher_of p) (Opened i x) = Some (dispatcher_of q)"
      unfolding does_open(2) by (rule dispatcher_open [OF inv does_open(5,6)])
    then show ?thesis unfolding does_open(1) by (simp del: dispatch.simps)
  next
    case does_silent
    then show ?thesis by (simp add: dispatcher_of_def fun_eq_iff)
  qed
qed

end
