(* ===== verification/FairRuns.thy ===== *)
theory FairRuns
  imports Dispatcher "HOL-Library.Sublist"
begin

text \<open>
  Infinite runs of the thread pool. A worker thread keeps running when its callbacks return and
  libevent calls \<open>notify_cb\<close> while bytes are waiting; then every connection handed to it is opened, in
  the order in which they were accepted.
\<close>

section \<open>A byte that waits is handled\<close>

text \<open>
  The thread's own view of a run: the byte in its hand and those in its socket. A step takes the first
  byte, finishes with the byte in hand, or lets more bytes arrive.
\<close>

definition byte_step :: "char option \<Rightarrow> char list \<Rightarrow> char option \<Rightarrow> char list \<Rightarrow> bool" where
  "byte_step h b h' b' \<longleftrightarrow>
     (\<exists>c. h = None \<and> b = c # b' \<and> h' = Some c) \<or>
     (\<exists>c. h = Some c \<and> h' = None \<and> b' = b) \<or>
     (\<exists>cs. h' = h \<and> b' = b @ cs)"

definition byte_run :: "(nat \<Rightarrow> char option) \<Rightarrow> (nat \<Rightarrow> char list) \<Rightarrow> bool" where
  "byte_run h b \<longleftrightarrow> (\<forall>n. byte_step (h n) (b n) (h (Suc n)) (b (Suc n)))"

lemma byte_step_arrive: "h' = h \<Longrightarrow> b' = b @ cs \<Longrightarrow> byte_step h b h' b'"
  by (auto simp: byte_step_def)

lemma byte_step_same: "h' = h \<Longrightarrow> b' = b \<Longrightarrow> byte_step h b h' b'"
  by (rule byte_step_arrive [of _ _ _ _ "[]"]) simp_all

definition bytes_served :: "(nat \<Rightarrow> char option) \<Rightarrow> (nat \<Rightarrow> char list) \<Rightarrow> bool" where
  "bytes_served h b \<longleftrightarrow>
     (\<forall>n. \<exists>m\<ge>n. h m = None) \<and> (\<forall>n. \<exists>m\<ge>n. h m \<noteq> None \<or> b m = [])"

lemma byte_run_idle:
  assumes "byte_run h b" and "\<And>k. n \<le> k \<Longrightarrow> k < n + d \<Longrightarrow> h (Suc k) = h k"
  shows "h (n + d) = h n \<and> (\<exists>cs. b (n + d) = b n @ cs)"
  using assms(2)
proof (induction d)
  case 0
  then show ?case by simp
next
  case (Suc d)
  then have h: "h (n + d) = h n" "h (Suc (n + d)) = h (n + d)" and "\<exists>cs. b (n + d) = b n @ cs" by auto
  moreover have "\<exists>cs. b (Suc (n + d)) = b (n + d) @ cs"
    using assms(1) [unfolded byte_run_def byte_step_def, rule_format, of "n + d"] h(2) by auto
  ultimately show ?case by auto
qed

text \<open>Until the hand changes, bytes only arrive.\<close>

lemma byte_run_change:
  assumes run: "byte_run h b" and m: "n \<le> m" "h m \<noteq> h n \<or> (\<forall>cs. b m \<noteq> b n @ cs)"
  obtains k cs where "n \<le> k" and "h k = h n" and "b k = b n @ cs" and "h (Suc k) \<noteq> h k"
proof -
  let ?P = "\<lambda>d. h (Suc (n + d)) \<noteq> h (n + d)"
  have "\<exists>d. ?P d"
  proof (rule ccontr)
    assume no: "\<nexists>d. ?P d"
    have "h (Suc k) = h k" if "n \<le> k" for k using no le_Suc_ex [OF that] by auto
    then have "h (n + (m - n)) = h n \<and> (\<exists>cs. b (n + (m - n)) = b n @ cs)" by (intro byte_run_idle [OF run])
    with m show False by auto
  qed
  then have d: "?P (LEAST d. ?P d)" by (rule LeastI_ex)
  let ?d = "LEAST d. ?P d"
  have "h (Suc k) = h k" if k: "n \<le> k" "k < n + ?d" for k
  proof -
    obtain e where e: "k = n + e" using le_Suc_ex [OF k(1)] by blast
    then have "\<not> ?P e" using k(2) by (intro not_less_Least) simp
    then show ?thesis by (simp add: e)
  qed
  then have "h (n + ?d) = h n \<and> (\<exists>cs. b (n + ?d) = b n @ cs)" by (intro byte_run_idle [OF run])
  with d show thesis using that [of "n + ?d"] by auto
qed

lemma held_byte_handled:
  assumes run: "byte_run h b" and served: "bytes_served h b" and "h n = Some c"
  obtains k cs where "n \<le> k" and "h k = Some c" and "h (Suc k) = None" and "b (Suc k) = b n @ cs"
proof -
  obtain m where m: "n \<le> m" "h m = None" using served unfolding bytes_served_def by blast
  then have "h m \<noteq> h n \<or> (\<forall>cs. b m \<noteq> b n @ cs)" using assms(3) by auto
  then obtain k cs where k: "n \<le> k" "h k = h n" "b k = b n @ cs" "h (Suc k) \<noteq> h k"
    by (rule byte_run_change [OF run m(1)])
  with run assms(3) have "h (Suc k) = None \<and> b (Suc k) = b k"
    unfolding byte_run_def byte_step_def by (metis option.distinct(1))
  with k assms(3) show thesis by (intro that [of k cs]) auto
qed

lemma next_byte_taken:
  assumes run: "byte_run h b" and served: "bytes_served h b" and "h n = None" and "b n = c # xs"
  obtains k cs where "n \<le> k" and "h (Suc k) = Some c" and "b (Suc k) = xs @ cs"
proof -
  obtain m where m: "n \<le> m" "h m \<noteq> None \<or> b m = []" using served unfolding bytes_served_def by blast
  then have "h m \<noteq> h n \<or> (\<forall>cs. b m \<noteq> b n @ cs)" using assms(3,4) by auto
  then obtain k cs where k: "n \<le> k" "h k = h n" "b k = b n @ cs" "h (Suc k) \<noteq> h k"
    by (rule byte_run_change [OF run m(1)])
  with run assms(3) have "\<exists>c. b k = c # b (Suc k) \<and> h (Suc k) = Some c"
    unfolding byte_run_def byte_step_def by (metis option.distinct(1))
  with k(1,3) assms(4) show thesis by (intro that [of k cs]) auto
qed

lemma waiting_byte_handled:
  assumes run: "byte_run h b" and served: "bytes_served h b"
  shows "b n = xs @ c # ys \<Longrightarrow> \<exists>k\<ge>n. h k = Some c \<and> h (Suc k) = None"
proof (induction xs arbitrary: n ys)
  case (Cons x xs)
  obtain m zs where m: "n \<le> m" "h m = None" "b m = x # xs @ c # zs"
  proof (cases "h n")
    case None
    with Cons.prems show ?thesis by (intro that [of n ys]) simp_all
  next
    case (Some d)
    obtain k cs where "n \<le> k" "h (Suc k) = None" "b (Suc k) = b n @ cs"
      by (rule held_byte_handled [OF run served Some])
    with Cons.prems show ?thesis by (intro that [of "Suc k" "ys @ cs"]) simp_all
  qed
  obtain k cs where "m \<le> k" "b (Suc k) = (xs @ c # zs) @ cs"
    by (rule next_byte_taken [OF run served m(2,3)])
  with Cons.IH [of "Suc k" "zs @ cs"] m(1) show ?case by (auto intro: order.trans le_trans Suc_leD)
next
  case Nil
  obtain m zs where m: "n \<le> m" "h m = None" "b m = c # zs"
  proof (cases "h n")
    case None
    with Nil show ?thesis by (intro that [of n ys]) simp_all
  next
    case (Some d)
    obtain k cs where "n \<le> k" "h (Suc k) = None" "b (Suc k) = b n @ cs"
      by (rule held_byte_handled [OF run served Some])
    with Nil show ?thesis by (intro that [of "Suc k" "ys @ cs"]) simp_all
  qed
  obtain k where k: "m \<le> k" "h (Suc k) = Some c" by (rule next_byte_taken [OF run served m(2,3)])
  obtain j where "Suc k \<le> j" "h j = Some c" "h (Suc j) = None"
    by (rule held_byte_handled [OF run served k(2)])
  with m(1) k(1) show ?case by (intro exI [of _ j]) auto
qed

section \<open>What a thread sees of a step\<close>

lemma handle_byte_bytes:
  assumes up: "threads_up s" and h: "handle_byte L j c s = (Inr (), s')" and i: "i < THREAD_NUMB"
  shows "bytes_of s' i = bytes_of s i"
proof (cases "is_conn c")
  case True
  then obtain x s1 where pop: "pop_conn j s = (Inr x, s1)" and op: "open_conn L j x s1 = (Inr (), s')"
    using handle_byte_conn [OF h] by (auto simp: is_conn_def)
  obtain u where u: "m_libevent_threads s ! i = Some u" using threads_up_nth [OF up i] by blast
  obtain t r where b: "threads_become s j (\<lambda>t. t\<lparr>conn_queue := r\<rparr>) s1" by (rule pop_conn_become [OF pop])
  obtain f where "quiet f" "threads_become s1 j f s'" using open_conn_become [OF op] by blast
  then have "bytes_of s' i = bytes_of s1 i" using become_quiet(2) [OF _ become_up(1) [OF b up] i] by blast
  then show ?thesis using become_view(2,4) [OF b up i u] by simp
next
  case False
  then have "threads_become s j (\<lambda>t. t) s'" using handle_byte_broadcast [OF h] by (auto simp: is_conn_def)
  then show ?thesis by (rule become_quiet(2) [OF _ up i]) simp
qed

lemma pool_byte_step:
  assumes inv: "pool_inv L E p" and st: "pool_step L p q" and i: "i < THREAD_NUMB"
  shows "byte_step (pl_held p i) (bytes_of (pl_server p) i) (pl_held q i) (bytes_of (pl_server q) i)"
proof -
  have up: "threads_up (pl_server p)" and last: "-1 \<le> m_last_thread (pl_server p)"
    using inv by (simp_all add: pool_inv_def)
  have notify: "byte_step (pl_held p i) (bytes_of (pl_server p) i) (pl_held q i) (bytes_of s' i)"
    if n: "notify_thread L j c (pl_server p) = (Inr (), s')" and h: "pl_held q i = pl_held p i" for j c s'
    using notify_thread_become(1) [OF n]
  proof
    assume "threads_become (pl_server p) j (\<lambda>t. t) s'"
    then have "bytes_of s' i = bytes_of (pl_server p) i" by (rule become_quiet(2) [OF _ up i]) simp
    with h show ?thesis by (rule byte_step_same)
  next
    assume "threads_become (pl_server p) j (push_byte c) s'"
    from become_push_byte(2) [OF this up i] h show ?thesis by (intro byte_step_arrive)
  qed
  from st show ?thesis
  proof (cases rule: pool_step_kinds)
    case (accept fd ip j s')
    then have s': "m_libevent_threads s' = m_libevent_threads
        (update_thread (nat (next_thread (m_last_thread (pl_server p)))) (push_conn (item_of (fd, ip))) (pl_server p))"
      using listener_queue_up [OF up last, of fd ip] by auto
    obtain t where "m_libevent_threads (pl_server p) ! i = Some t" using threads_up_nth [OF up i] by blast
    then have "bytes_of s' i = bytes_of (pl_server p) i"
      using up i by (simp add: bytes_of_def s' update_thread_nth threads_up_def push_conn_def)
    with accept(3) show ?thesis by (intro byte_step_same) simp_all
  next
    case (wake j s')
    with notify [of j "CHR ''c''" s'] show ?thesis by simp
  next
    case (signal c j s')
    with notify [of j c s'] show ?thesis by simp
  next
    case (recv j c s')
    obtain t cs where t: "m_libevent_threads (pl_server p) ! j = Some t" "notify_bytes t = c # cs"
      and b: "threads_become (pl_server p) j (\<lambda>t. t\<lparr>notify_bytes := cs\<rparr>) s'"
      by (rule recv_byte_become [OF recv(2)])
    obtain u where u: "m_libevent_threads (pl_server p) ! i = Some u" using threads_up_nth [OF up i] by blast
    with become_view [OF b up i u] t recv(1,3) show ?thesis by (cases "i = j") (auto simp: byte_step_def)
  next
    case (handle j c s')
    have "bytes_of s' i = bytes_of (pl_server p) i" by (rule handle_byte_bytes [OF up handle(2) i])
    with handle(1,3) show ?thesis by (cases "i = j") (auto simp: byte_step_def)
  next
    case (session j f s')
    with become_quiet(2) [OF session(2) up i] show ?thesis by (intro byte_step_same) simp_all
  qed
qed

text \<open>The only way to finish with a connection byte is to open a connection.\<close>

lemma finished_byte_opens:
  assumes inv: "pool_inv L E p" and does: "pool_does L p e q"
    and held: "pl_held p i = Some c" "is_conn c" "pl_held q i = None"
  shows "\<exists>x. e = Some (Opened i x)"
  using does
proof cases
  case (does_accept fd ip j s')
  with held show ?thesis by simp
next
  case (does_open j d x s1 s')
  with held show ?thesis by (cases "j = i") simp_all
next
  case does_silent
  from does_silent(2) obtain s' where q: "q = p\<lparr>pl_server := s', pl_held := (pl_held p)(i := None)\<rparr>"
    and h: "handle_byte L i c (pl_server p) = (Inr (), s')"
    using held by (cases rule: pool_step_kinds) (auto split: if_splits)
  obtain x s1 where pop: "pop_conn i (pl_server p) = (Inr x, s1)" and op: "open_conn L i x s1 = (Inr (), s')"
    using handle_byte_conn [OF h] held(2) by (auto simp: is_conn_def)
  have "dispatch (dispatcher_of p) (Opened i x) = Some (dispatcher_of q)"
    unfolding q by (rule dispatcher_open [OF inv pop op])
  moreover have "dispatcher_of q = dispatcher_of p"
    using does_silent(3,4) by (simp add: dispatcher_of_def fun_eq_iff)
  ultimately have False
    by (auto split: list.splits if_splits dest: arg_cong [of _ _ "\<lambda>a. waiting a i"])
  then show ?thesis ..
qed

section \<open>Runs\<close>

text \<open>A run of the pool, with its events; it may also pause.\<close>

definition pool_run ::
    "('j, 'd) libs \<Rightarrow> os \<Rightarrow> (nat \<Rightarrow> 'd pool) \<Rightarrow> (nat \<Rightarrow> pool_event option) \<Rightarrow> bool" where
  "pool_run L E ps es \<longleftrightarrow> pool_init L E (ps 0) \<and>
     (\<forall>n. pool_does L (ps n) (es n) (ps (Suc n)) \<or> es n = None \<and> ps (Suc n) = ps n)"

definition so_far :: "(nat \<Rightarrow> pool_event option) \<Rightarrow> nat \<Rightarrow> pool_event list" where
  "so_far es n = concat (map (\<lambda>k. event_list (es k)) [0..<n])"

text \<open>
  The accept callback returns, thread \<open>i\<close>'s notification callback returns, and libevent calls it when
  bytes are waiting.
\<close>

definition keeps_running :: "(nat \<Rightarrow> 'd pool) \<Rightarrow> nat \<Rightarrow> bool" where
  "keeps_running ps i \<longleftrightarrow> (\<forall>n. \<exists>m\<ge>n. pl_accept (ps m) \<noteq> Some i) \<and>
     bytes_served (\<lambda>n. pl_held (ps n) i) (\<lambda>n. bytes_of (pl_server (ps n)) i)"

lemma pool_runD:
  "pool_run L E ps es \<Longrightarrow> pool_does L (ps n) (es n) (ps (Suc n)) \<or> es n = None \<and> ps (Suc n) = ps n"
  by (simp add: pool_run_def)

lemma so_far_Suc: "so_far es (Suc n) = so_far es n @ event_list (es n)"
  by (simp add: so_far_def)

lemma so_far_prefix:
  assumes "n \<le> m"
  shows "prefix (so_far es n) (so_far es m)"
proof -
  obtain d where m: "m = n + d" using le_Suc_ex [OF assms] by blast
  show ?thesis unfolding m by (induction d) (auto simp: so_far_Suc so_far_def prefix_def)
qed

lemma prefix_views:
  assumes "prefix es fs"
  shows "prefix (opened_by i es) (opened_by i fs)" and "prefix (share i (accepted_in es)) (share i (accepted_in fs))"
  using assms by (auto simp: prefix_def share_def nths_append)

lemma pool_run_history:
  assumes "pool_run L E ps es"
  shows "history (pool_init L E) (pool_does L) (ps n) (so_far es n)"
proof (induction n)
  case 0
  have "pool_init L E (ps 0)" using assms by (simp add: pool_run_def)
  then have "history (pool_init L E) (pool_does L) (ps 0) []" by (rule history_init)
  then show ?case by (simp add: so_far_def)
next
  case (Suc n)
  from pool_runD [OF assms, of n] show ?case
  proof
    assume "pool_does L (ps n) (es n) (ps (Suc n))"
    then show ?thesis unfolding so_far_Suc by (rule history_step [OF Suc])
  next
    assume "es n = None \<and> ps (Suc n) = ps n"
    with Suc show ?thesis by (simp add: so_far_Suc)
  qed
qed

lemma pool_run_inv:
  assumes "pool_run L E ps es"
  shows "pool_inv L E (ps n)"
  by (rule pool.reachable_inv [OF pool_sim.history_reachable [OF pool_run_history [OF assms]]])

lemma pool_run_order:
  assumes "pool_run L E ps es" and "i < THREAD_NUMB"
  shows "opened_by i (so_far es n) @ queue_of (pl_server (ps n)) i = share i (accepted_in (so_far es n))"
proof -
  have "opened_by i (so_far es n) @ waiting (dispatcher_of (ps n)) i = share i (accepted_in (so_far es n))"
    using dispatcher_in_order [OF pool_sim.history_runs [OF pool_run_history [OF assms(1)]]] by blast
  with assms(2) show ?thesis by (simp add: dispatcher_of_def)
qed

lemma pool_run_bytes:
  assumes run: "pool_run L E ps es" and i: "i < THREAD_NUMB"
  shows "byte_run (\<lambda>n. pl_held (ps n) i) (\<lambda>n. bytes_of (pl_server (ps n)) i)"
  unfolding byte_run_def
proof
  fix n
  from pool_runD [OF run, of n] show "byte_step (pl_held (ps n) i) (bytes_of (pl_server (ps n)) i)
      (pl_held (ps (Suc n)) i) (bytes_of (pl_server (ps (Suc n))) i)"
  proof
    assume "pool_does L (ps n) (es n) (ps (Suc n))"
    from pool_byte_step [OF pool_run_inv [OF run] pool_does_step [OF this] i] show ?thesis .
  next
    assume "es n = None \<and> ps (Suc n) = ps n"
    then show ?thesis by (intro byte_step_same) simp_all
  qed
qed

text \<open>A connection byte, in the thread's hand or waiting, leads to an opening.\<close>

lemma token_opens:
  assumes run: "pool_run L E ps es" and i: "i < THREAD_NUMB" and keeps: "keeps_running ps i"
    and inv: "conn_tokens (ps n) i \<noteq> 0" "pl_accept (ps n) \<noteq> Some i"
  obtains k x where "n \<le> k" and "es k = Some (Opened i x)"
proof -
  let ?h = "\<lambda>n. pl_held (ps n) i" and ?b = "\<lambda>n. bytes_of (pl_server (ps n)) i"
  note bytes = pool_run_bytes [OF run i]
  have served: "bytes_served ?h ?b" using keeps by (simp add: keeps_running_def)
  have "\<exists>c k. is_conn c \<and> n \<le> k \<and> ?h k = Some c \<and> ?h (Suc k) = None"
  proof (cases "\<exists>c. pl_held (ps n) i = Some c \<and> is_conn c")
    case True
    then obtain c where c: "?h n = Some c" "is_conn c" by blast
    obtain k where "n \<le> k" "?h k = Some c" "?h (Suc k) = None"
      by (rule held_byte_handled [OF bytes served c(1)])
    with c(2) show ?thesis by blast
  next
    case False
    then have "filter is_conn (?b n) \<noteq> []" using inv by (auto simp: conn_tokens_def split: option.splits)
    then obtain c where c: "c \<in> set (?b n)" "is_conn c" by (auto simp: filter_empty_conv)
    from c(1) obtain xs ys where "?b n = xs @ c # ys" by (meson split_list)
    from waiting_byte_handled [OF bytes served this] c(2) show ?thesis by blast
  qed
  then obtain c k where k: "is_conn c" "n \<le> k" "?h k = Some c" "?h (Suc k) = None" by blast
  have "ps (Suc k) \<noteq> ps k" using k(3,4) by auto
  then have "pool_does L (ps k) (es k) (ps (Suc k))" using pool_runD [OF run, of k] by simp
  from finished_byte_opens [OF pool_run_inv [OF run] this k(3,1,4)] k(2) show thesis using that by blast
qed

lemma run_opens:
  assumes run: "pool_run L E ps es" and ok: "notify_ok L E" and keeps: "keeps_running ps i"
    and i: "i < THREAD_NUMB" and waiting: "queue_of (pl_server (ps n)) i \<noteq> []"
  obtains m where "n \<le> m" and "length (opened_by i (so_far es n)) < length (opened_by i (so_far es m))"
proof -
  obtain m where m: "n \<le> m" "pl_accept (ps m) \<noteq> Some i" using keeps by (auto simp: keeps_running_def)
  note mono = prefix_length_le [OF prefix_views(1) [OF so_far_prefix]]
  show thesis
  proof (cases "length (opened_by i (so_far es n)) < length (opened_by i (so_far es m))")
    case True
    with m(1) that show ?thesis by blast
  next
    case False
    have "length (opened_by i (so_far es n) @ queue_of (pl_server (ps n)) i) \<le>
        length (opened_by i (so_far es m) @ queue_of (pl_server (ps m)) i)"
      unfolding pool_run_order [OF run i]
      by (rule prefix_length_le [OF prefix_views(2) [OF so_far_prefix [OF m(1)]]])
    with False waiting have "queue_of (pl_server (ps m)) i \<noteq> []" by (cases "queue_of (pl_server (ps n)) i") auto
    then have "conn_tokens (ps m) i \<noteq> 0" using pool_run_inv [OF run, of m] i ok by (simp add: pool_inv_def)
    then obtain k x where k: "m \<le> k" "es k = Some (Opened i x)" by (rule token_opens [OF run i keeps _ m(2)])
    have "length (opened_by i (so_far es n)) \<le> length (opened_by i (so_far es k))" using m(1) k(1) by (intro mono) simp
    also have "\<dots> < length (opened_by i (so_far es (Suc k)))" by (simp add: so_far_Suc k(2))
    finally show ?thesis using that [of "Suc k"] m(1) k(1) by simp
  qed
qed

lemma all_opened:
  assumes run: "pool_run L E ps es" and ok: "notify_ok L E" and keeps: "keeps_running ps i" and i: "i < THREAD_NUMB"
  shows "\<exists>m\<ge>n. prefix (share i (accepted_in (so_far es n))) (opened_by i (so_far es m))"
proof -
  let ?T = "share i (accepted_in (so_far es n))"
  have "n \<le> m \<Longrightarrow> \<exists>m'\<ge>m. length ?T \<le> length (opened_by i (so_far es m'))" for m
  proof (induction "length ?T - length (opened_by i (so_far es m))" arbitrary: m rule: less_induct)
    case less
    show ?case
    proof (cases "length ?T \<le> length (opened_by i (so_far es m))")
      case False
      have "length ?T \<le> length (opened_by i (so_far es m) @ queue_of (pl_server (ps m)) i)"
        unfolding pool_run_order [OF run i]
        by (rule prefix_length_le [OF prefix_views(2) [OF so_far_prefix [OF less.prems]]])
      with False have "queue_of (pl_server (ps m)) i \<noteq> []" by auto
      then obtain k where k: "m \<le> k" "length (opened_by i (so_far es m)) < length (opened_by i (so_far es k))"
        by (rule run_opens [OF run ok keeps i])
      with less.hyps [of k] less.prems False show ?thesis by (meson diff_less_mono2 le_trans not_le)
    qed auto
  qed
  from this [of n] obtain m where m: "n \<le> m" "length ?T \<le> length (opened_by i (so_far es m))" by blast
  have "prefix ?T (share i (accepted_in (so_far es m)))" by (rule prefix_views(2) [OF so_far_prefix [OF m(1)]])
  moreover have "prefix (opened_by i (so_far es m)) (share i (accepted_in (so_far es m)))"
    unfolding pool_run_order [OF run i, symmetric] by simp
  ultimately have "prefix ?T (opened_by i (so_far es m))" using m(2) by (rule prefix_length_prefix)
  with m(1) show ?thesis by blast
qed

section \<open>From a history to a run\<close>

text \<open>Every history is the beginning of a run that pauses in its last state.\<close>

lemma history_run:
  assumes "history (pool_init L E) (pool_does L) p fs"
  shows "\<exists>ps es N. pool_run L E ps es \<and> so_far es N = fs \<and> (\<forall>n\<ge>N. ps n = p \<and> es n = None)"
  using assms
proof (induction rule: history.induct)
  case (history_init p)
  then show ?case
    by (intro exI [of _ "\<lambda>n. p"] exI [of _ "\<lambda>n. None"] exI [of _ 0]) (simp add: pool_run_def so_far_def)
next
  case (history_step p fs e q)
  then obtain ps es N where run: "pool_run L E ps es" "so_far es N = fs" "\<forall>n\<ge>N. ps n = p \<and> es n = None" by blast
  let ?ps = "\<lambda>n. if n \<le> N then ps n else q" and ?es = "es(N := e)"
  have "pool_run L E ?ps ?es"
    unfolding pool_run_def
  proof (intro conjI allI)
    show "pool_init L E (?ps 0)" using run(1) by (simp add: pool_run_def)
    show "pool_does L (?ps n) (?es n) (?ps (Suc n)) \<or> ?es n = None \<and> ?ps (Suc n) = ?ps n" for n
    proof (cases n N rule: linorder_cases)
      case less
      then show ?thesis using run(1) by (simp add: pool_run_def)
    next
      case equal
      then show ?thesis using run(3) history_step.hyps(2) by simp
    next
      case greater
      then show ?thesis using run(3) by simp
    qed
  qed
  moreover have "so_far ?es (Suc N) = fs @ event_list e"
  proof -
    have "map (\<lambda>k. event_list (?es k)) [0..<N] = map (\<lambda>k. event_list (es k)) [0..<N]" by simp
    then have "so_far ?es N = fs" unfolding so_far_def run(2) [symmetric] by (simp only:)
    then show ?thesis by (simp add: so_far_Suc)
  qed
  moreover have "\<forall>n\<ge>Suc N. ?ps n = q \<and> ?es n = None" using run(3) by auto
  ultimately show ?case by blast
qed

end
