(* ===== verification/MapWalk.thy ===== *)
theory MapWalk
  imports Sessions
begin

text \<open>
  The walk of \<open>GetConnectDevice\<close> over a thread's connections, one element at a time: the code names the
  mutex of the map without locking it, so the thread's callbacks can run between two elements.
\<close>

text \<open>A position in a \<open>std::map\<close>: an element or \<open>end()\<close>; \<open>iter++\<close> goes to the next greater key.\<close>

datatype map_pos = At int | Past_end

fun first_pos :: "(int, 'v) stdmap \<Rightarrow> map_pos" where
  "first_pos [] = Past_end"
| "first_pos ((k, v) # m) = At k"

fun next_pos :: "int \<Rightarrow> (int, 'v) stdmap \<Rightarrow> map_pos" where
  "next_pos k [] = Past_end"
| "next_pos k ((j, v) # m) = (if k < j then At j else next_pos k m)"

text \<open>The loop's body and its \<open>iter++\<close>. The iterator to an erased element is dangling; others stay valid.\<close>

definition visit_device ::
    "('j, 'd) libs \<Rightarrow> nat \<Rightarrow> int \<Rightarrow> ('d LibEvtServer, string \<times> map_pos) prog" where
  "visit_device L i fd =
     andThen (thread_at i) (\<lambda>t.
     case sm_find fd (data_map t) of
       None \<Rightarrow> raise (UB Dangling_pointer)
     | Some w \<Rightarrow>
         andThen (in_world (SendMsgTo_raw L w ''H'')) (\<lambda>_.
         ret (GetIP w @ DECOLLATOR, next_pos fd (data_map t))))"

fun walk_devices :: "('j, 'd) libs \<Rightarrow> nat \<Rightarrow> nat \<Rightarrow> map_pos \<Rightarrow> ('d LibEvtServer, string) prog" where
  "walk_devices L n i Past_end = ret []"
| "walk_devices L 0 i (At fd) = raise Out_of_fuel"
| "walk_devices L (Suc n) i (At fd) =
     andThen (visit_device L i fd) (\<lambda>(strRt, pos).
     andThen (walk_devices L n i pos) (\<lambda>rest. ret (strRt @ rest)))"

lemma next_pos_split:
  "sm_ok (pre @ (k, w) # m) \<Longrightarrow> next_pos k (pre @ (k, w) # m) = first_pos m"
proof (induction pre)
  case Nil
  then show ?case by (cases m) (auto simp: sm_ok_def)
next
  case (Cons x pre)
  then show ?case by (cases x) (auto simp: sm_ok_def)
qed

text \<open>As many elements as the map has are enough, and the undisturbed walk is the one \<open>GetConnectDevice\<close> makes.\<close>

lemma walk_undisturbed:
  assumes "thread_at i s = (Inr t, s)" and "data_map t = pre @ m" and "sm_ok (data_map t)"
  shows "walk_devices L (length m) i (first_pos m) s = in_world (heartbeats L m) s"
  using assms
proof (induction m arbitrary: pre s)
  case Nil
  then show ?case by (simp add: prog_simps in_world_def)
next
  case (Cons kw m)
  obtain k w where kw: "kw = (k, w)" by (cases kw)
  have find: "sm_find k (data_map t) = Some w"
    using Cons.prems(2,3) kw by (intro sm_find_member) simp_all
  have next_k: "next_pos k (data_map t) = first_pos m"
    using Cons.prems(2,3) kw next_pos_split [of pre k w m] by simp
  show ?case
  proof (cases "SendMsgTo_raw L w ''H'' (sv_world s)")
    case (Pair r d)
    have at: "thread_at i (s\<lparr>sv_world := d\<rparr>) = (Inr t, s\<lparr>sv_world := d\<rparr>)"
      using thread_at_InrD [OF Cons.prems(1)] by (intro thread_at_Some) simp_all
    have IH: "walk_devices L (length m) i (first_pos m) (s\<lparr>sv_world := d\<rparr>) =
        in_world (heartbeats L m) (s\<lparr>sv_world := d\<rparr>)"
      using Cons.prems(2,3) kw by (intro Cons.IH [OF at, of "pre @ [(k, w)]"]) simp_all
    show ?thesis
      using Cons.prems(1) Pair IH
      by (cases r) (auto simp: kw visit_device_def find next_k prog_simps in_world_def split: prod.split sum.split)
  qed
qed

text \<open>
  Closing a connection leaves a walk at another connection alone, and makes one at this connection use a
  dangling iterator.
\<close>

lemma visit_after_close:
  assumes "thread_at i s = (Inr t, s)" and "sm_ok (data_map t)" and "sm_find fd (data_map t) = Some w"
    and "conn_eventcb i k s = (Inr (), s')"
  shows "fst (visit_device L i fd s') = Inl (UB Dangling_pointer) \<longleftrightarrow> k = fd"
proof -
  have len: "i < length (m_libevent_threads s)" and t: "m_libevent_threads s ! i = Some t"
    using thread_at_InrD [OF assms(1)] by simp_all
  show ?thesis
  proof (cases "sm_find k (data_map t)")
    case None
    then have "s' = s" using assms(1,4) by (simp add: conn_eventcb_def prog_simps)
    then show ?thesis using None assms(1,3)
      by (auto simp: visit_device_def prog_simps in_world_def SendMsgTo_raw_def Let_def split: option.split)
  next
    case (Some v)
    let ?t = "t\<lparr>data_map := sm_erase k (data_map t)\<rparr>"
    have s': "s' = update_thread i (\<lambda>t. t\<lparr>data_map := sm_erase k (data_map t)\<rparr>) s"
      using Some assms(1,4) by (simp add: conn_eventcb_def prog_simps)
    then have "m_libevent_threads s' ! i = Some ?t" "i < length (m_libevent_threads s')"
      using len t by (simp_all add: update_thread_nth)
    then have "thread_at i s' = (Inr ?t, s')" by (intro thread_at_Some)
    then show ?thesis
      using assms(2,3)
      by (auto simp: visit_device_def prog_simps sm_find_erase in_world_def SendMsgTo_raw_def Let_def split: option.split)
  qed
qed

end
