(* ===== verification/ClassNews.thy ===== *)
theory ClassNews
  imports Sessions
begin

text \<open>
  The start of a class at the grain of its memory accesses. \<open>Give_A_Class\<close> assigns the class and
  the course one after the other and takes no lock; a worker thread that tells clients the class
  reads the two one after the other. The pieces of both, which \<open>pool_step\<close> runs at once, are
  interleaved here with everything else the threads do.
\<close>

section \<open>The pieces\<close>

datatype give_piece = Store_class string | Store_course string | Wake_thread nat

definition give_pieces :: "string \<Rightarrow> string \<Rightarrow> nat \<Rightarrow> give_piece list" where
  "give_pieces strClass strCourse n =
     Store_class strClass # Store_course strCourse # map Wake_thread [0..<n]"

fun run_piece :: "('j, 'd) libs \<Rightarrow> give_piece \<Rightarrow> ('d LibEvtServer, unit) prog" where
  "run_piece L (Store_class strClass) = modify (\<lambda>s. s\<lparr>m_strClass := strClass\<rparr>)"
| "run_piece L (Store_course strCourse) = modify (\<lambda>s. s\<lparr>m_strCourse := strCourse\<rparr>)"
| "run_piece L (Wake_thread i) = notify_thread L i (CHR ''a'')"

fun run_pieces :: "('j, 'd) libs \<Rightarrow> give_piece list \<Rightarrow> ('d LibEvtServer, unit) prog" where
  "run_pieces L [] = ret ()"
| "run_pieces L (a # as) = andThen (run_piece L a) (\<lambda>_. run_pieces L as)"

text \<open>A new connection up to the call of \<open>SendSKBJ\<close>, that call, and the calls for a broadcast.\<close>

definition enter_conn ::
    "('j, 'd) libs \<Rightarrow> nat \<Rightarrow> conn_queue_item \<Rightarrow> ('d LibEvtServer, unit) prog" where
  "enter_conn L i item =
     andThen (thread_at i) (\<lambda>t.
     let bev = bufferevent_socket_new L (item_fd item) conn_options;
         w = fst (sm_at CServerWorker_new (item_fd item) (data_map t));
         w = SetIP (item_strIP item) (SetBev bev w)
     in modify (update_thread i (\<lambda>t. t\<lparr>data_map := sm_put (item_fd item) w (data_map t)\<rparr>)))"

definition greet ::
    "('j, 'd) libs \<Rightarrow> nat \<Rightarrow> int \<Rightarrow> string \<Rightarrow> string \<Rightarrow> ('d LibEvtServer, unit) prog" where
  "greet L i fd strClass strCourse =
     andThen (thread_at i) (\<lambda>t.
     in_world (SendSKBJ L (fst (sm_at CServerWorker_new fd (data_map t))) strClass strCourse))"

definition tell_all ::
    "('j, 'd) libs \<Rightarrow> nat \<Rightarrow> string \<Rightarrow> string \<Rightarrow> ('d LibEvtServer, unit) prog" where
  "tell_all L i strClass strCourse =
     andThen (thread_at i) (\<lambda>t. in_world (send_class_all L strClass strCourse (data_map t)))"

text \<open>Run without interruption, the pieces are the operations.\<close>

lemma run_pieces_notify: "run_pieces L (map Wake_thread is) = notify_all L (CHR ''a'') is"
  by (induction "is") simp_all

lemma give_pieces_whole:
  "Give_A_Class L c k s =
     andThen (run_pieces L (give_pieces c k (length (m_libevent_threads s)))) (\<lambda>_. ret 0) s"
  by (simp add: Give_A_Class_def give_pieces_def each_thread_def prog_simps run_pieces_notify
      split: prod.split sum.split)

lemma handle_class_pieces:
  "handle_byte L i (CHR ''a'') =
     andThen (query GetClass) (\<lambda>c. andThen (query GetCourse) (\<lambda>k. tell_all L i c k))"
  by (simp add: fun_eq_iff handle_byte_def tell_all_def prog_simps)

lemma open_conn_pieces:
  "open_conn L i item =
     andThen (enter_conn L i item) (\<lambda>_.
     andThen (query GetClass) (\<lambda>c. andThen (query GetCourse) (\<lambda>k. greet L i (item_fd item) c k)))"
proof
  fix s
  show "open_conn L i item s =
     andThen (enter_conn L i item) (\<lambda>_.
     andThen (query GetClass) (\<lambda>c. andThen (query GetCourse) (\<lambda>k. greet L i (item_fd item) c k))) s"
  proof (cases "thread_at i s")
    case (Pair r s0)
    show ?thesis
    proof (cases r)
      case (Inl e)
      with Pair show ?thesis by (simp add: open_conn_def enter_conn_def prog_simps)
    next
      case (Inr t)
      note t = thread_at_InrD [OF Pair [unfolded Inr]]
      have "thread_at i (update_thread i f s) = (Inr (f t), update_thread i f s)" for f
        using t by (intro thread_at_Some) (simp_all add: update_thread_nth)
      with Pair Inr t show ?thesis
        by (simp add: open_conn_def enter_conn_def greet_def prog_simps Let_def sm_at_def sm_find_put)
    qed
  qed
qed

section \<open>The interleaving\<close>

text \<open>
  What a worker thread is at: nothing, a byte it has received, or telling the class, to one new
  connection or to all, with what it has read so far. The arguments of a call are read in any
  order.
\<close>

datatype job = Idle | Got char | Tell "int option" "string option" "string option"

text \<open>
  \<open>nw_give\<close> is what is left of the call of \<open>Give_A_Class\<close> under way. \<open>nw_told\<close> records the
  arguments of the last \<open>SendSKBJ\<close> for a connection; no step depends on it.
\<close>

record 'd news =
  nw_server :: "'d LibEvtServer"
  nw_accept :: "nat option"
  nw_give :: "give_piece list"
  nw_job :: "nat \<Rightarrow> job"
  nw_told :: "nat \<Rightarrow> int \<Rightarrow> (string \<times> string) option"

definition news_init :: "('j, 'd) libs \<Rightarrow> os \<Rightarrow> 'd news \<Rightarrow> bool" where
  "news_init L E n \<longleftrightarrow>
     os_base E \<and> (\<forall>i < THREAD_NUMB. os_pair E i \<noteq> None) \<and>
     (\<exists>d. LibEvtServer_new L E d = (Inr True, nw_server n)) \<and>
     nw_accept n = None \<and> nw_give n = [] \<and> (\<forall>i. nw_job n i = Idle)"

text \<open>The worker thread \<open>i\<close> has a worker for the descriptor.\<close>

definition serves :: "'d LibEvtServer \<Rightarrow> nat \<Rightarrow> int \<Rightarrow> bool" where
  "serves s i fd \<longleftrightarrow> worker_of s i fd \<noteq> None"

definition set_job :: "nat \<Rightarrow> job \<Rightarrow> 'd LibEvtServer \<Rightarrow> 'd news \<Rightarrow> 'd news" where
  "set_job i j s n = n\<lparr>nw_server := s, nw_job := (nw_job n)(i := j)\<rparr>"

definition note_told :: "nat \<Rightarrow> (int \<Rightarrow> (string \<times> string) option) \<Rightarrow> 'd news \<Rightarrow> 'd news" where
  "note_told i f n = n\<lparr>nw_told := (nw_told n)(i := f)\<rparr>"

inductive news_step :: "('j, 'd) libs \<Rightarrow> 'd news \<Rightarrow> 'd news \<Rightarrow> bool" for L where
  news_call:
    "nw_give n = [] \<Longrightarrow>
     news_step L n (n\<lparr>nw_give := give_pieces c k (length (m_libevent_threads (nw_server n)))\<rparr>)"
| news_give:
    "nw_give n = a # as \<Longrightarrow> run_piece L a (nw_server n) = (Inr (), s') \<Longrightarrow>
     news_step L n (n\<lparr>nw_server := s', nw_give := as\<rparr>)"
| news_accept:
    "nw_accept n = None \<Longrightarrow> listener_queue fd ip (nw_server n) = (Inr i, s') \<Longrightarrow>
     news_step L n (n\<lparr>nw_server := s', nw_accept := Some i\<rparr>)"
| news_wake:
    "nw_accept n = Some i \<Longrightarrow> notify_thread L i (CHR ''c'') (nw_server n) = (Inr (), s') \<Longrightarrow>
     news_step L n (n\<lparr>nw_server := s', nw_accept := None\<rparr>)"
| news_file_fields:
    "news_step L n (n\<lparr>nw_server := (nw_server n)\<lparr>m_nType := t, m_strFilePath := f\<rparr>\<rparr>)"
| news_file_byte:
    "notify_thread L i (CHR ''b'') (nw_server n) = (Inr (), s') \<Longrightarrow>
     news_step L n (n\<lparr>nw_server := s'\<rparr>)"
| news_poll:
    "GetConnectDevice L (nw_server n) = (Inr ips, s') \<Longrightarrow> news_step L n (n\<lparr>nw_server := s'\<rparr>)"
| news_recv:
    "nw_job n i = Idle \<Longrightarrow> recv_byte i (nw_server n) = (Inr (Some c), s') \<Longrightarrow>
     news_step L n (set_job i (Got c) s' n)"
| news_class:
    "nw_job n i = Got (CHR ''a'') \<Longrightarrow> news_step L n (set_job i (Tell None None None) (nw_server n) n)"
| news_file:
    "nw_job n i = Got (CHR ''b'') \<Longrightarrow> handle_byte L i (CHR ''b'') (nw_server n) = (Inr (), s') \<Longrightarrow>
     news_step L n (set_job i Idle s' n)"
| news_open:
    "nw_job n i = Got c \<Longrightarrow> is_conn c \<Longrightarrow> pop_conn i (nw_server n) = (Inr item, s1) \<Longrightarrow>
     enter_conn L i item s1 = (Inr (), s') \<Longrightarrow>
     news_step L n (set_job i (Tell (Some (item_fd item)) None None) s' n)"
| news_read_class:
    "nw_job n i = Tell fd None k \<Longrightarrow>
     news_step L n (set_job i (Tell fd (Some (GetClass (nw_server n))) k) (nw_server n) n)"
| news_read_course:
    "nw_job n i = Tell fd c None \<Longrightarrow>
     news_step L n (set_job i (Tell fd c (Some (GetCourse (nw_server n)))) (nw_server n) n)"
| news_tell_all:
    "nw_job n i = Tell None (Some c) (Some k) \<Longrightarrow> tell_all L i c k (nw_server n) = (Inr (), s') \<Longrightarrow>
     news_step L n (note_told i
       (\<lambda>fd. if serves (nw_server n) i fd then Some (c, k) else nw_told n i fd) (set_job i Idle s' n))"
| news_greet:
    "nw_job n i = Tell (Some fd) (Some c) (Some k) \<Longrightarrow> greet L i fd c k (nw_server n) = (Inr (), s') \<Longrightarrow>
     news_step L n (note_told i ((nw_told n i)(fd \<mapsto> (c, k))) (set_job i Idle s' n))"
| news_read:
    "nw_job n i = Idle \<Longrightarrow> serves (nw_server n) i fd \<Longrightarrow>
     conn_readcb L i fd input (nw_server n) = (Inr r, s') \<Longrightarrow> news_step L n (n\<lparr>nw_server := s'\<rparr>)"
| news_event:
    "nw_job n i = Idle \<Longrightarrow> serves (nw_server n) i fd \<Longrightarrow>
     conn_eventcb i fd (nw_server n) = (Inr (), s') \<Longrightarrow> news_step L n (n\<lparr>nw_server := s'\<rparr>)"

inductive_cases news_stepE: "news_step L n m"

end
