(* ===== verification/NewsInvariant.thy ===== *)
theory NewsInvariant
  imports ClassNews "HOL-Library.Sublist"
begin

text \<open>
  The invariant of \<open>news_step\<close>: a worker thread that has no byte \<open>a\<close> to come has told all its
  connections the class and the course the server holds. Every step is first reduced to what it does to the
  bytes and the connections of each thread (\<open>frame\<close>, \<open>same_for\<close>).
\<close>

section \<open>The invariant\<close>

text \<open>
  Thread \<open>i\<close> will still be told: its byte is to be sent, on the way, or received but not acted
  on. Otherwise all its connections were told the class and the course the server holds now, except those
  it is about to tell, and what it has read for them is what the server holds now.
\<close>

definition news_due :: "'d news \<Rightarrow> nat \<Rightarrow> bool" where
  "news_due n i \<longleftrightarrow>
     Wake_thread i \<in> set (nw_give n) \<or> CHR ''a'' \<in> set (bytes_of (nw_server n) i) \<or>
     nw_job n i = Got (CHR ''a'')"

definition told_now :: "'d news \<Rightarrow> nat \<Rightarrow> int \<Rightarrow> bool" where
  "told_now n i fd \<longleftrightarrow> nw_told n i fd = Some (GetClass (nw_server n), GetCourse (nw_server n))"

definition up_to_date :: "'a \<Rightarrow> 'a option \<Rightarrow> bool" where
  "up_to_date x y \<longleftrightarrow> (\<forall>z. y = Some z \<longrightarrow> z = x)"

lemma up_to_date_simps [simp]: "up_to_date x None" "up_to_date x (Some y) \<longleftrightarrow> y = x"
  by (auto simp: up_to_date_def)

definition news_current :: "'d news \<Rightarrow> nat \<Rightarrow> bool" where
  "news_current n i \<longleftrightarrow>
     (case nw_job n i of
        Tell None c k \<Rightarrow> up_to_date (GetClass (nw_server n)) c \<and> up_to_date (GetCourse (nw_server n)) k
      | Tell (Some fd0) c k \<Rightarrow>
          up_to_date (GetClass (nw_server n)) c \<and> up_to_date (GetCourse (nw_server n)) k \<and>
          (\<forall>fd. fd \<noteq> fd0 \<longrightarrow> serves (nw_server n) i fd \<longrightarrow> told_now n i fd)
      | _ \<Rightarrow> \<forall>fd. serves (nw_server n) i fd \<longrightarrow> told_now n i fd)"

definition news_inv :: "('j, 'd) libs \<Rightarrow> os \<Rightarrow> 'd news \<Rightarrow> bool" where
  "news_inv L E n \<longleftrightarrow>
     threads_up (nw_server n) \<and> -1 \<le> m_last_thread (nw_server n) \<and>
     (\<forall>i < THREAD_NUMB. send_fd_of (nw_server n) i = snd (the (os_pair E i))) \<and>
     (\<exists>c k. suffix (nw_give n) (give_pieces c k THREAD_NUMB)) \<and>
     (notify_ok L E \<longrightarrow> (\<forall>i < THREAD_NUMB. news_due n i \<or> news_current n i))"

text \<open>While an assignment is still to come, so are the bytes for all threads.\<close>

lemma give_store:
  assumes "suffix (a # as) (give_pieces c k THREAD_NUMB)" and "a = Store_class x \<or> a = Store_course x"
    and "i < THREAD_NUMB"
  shows "Wake_thread i \<in> set as"
proof -
  have "suffix (a # as) (map Wake_thread [0..<THREAD_NUMB]) \<Longrightarrow> a \<in> Wake_thread ` {0..<THREAD_NUMB}"
    using set_mono_suffix by fastforce
  then have "suffix (map Wake_thread [0..<THREAD_NUMB]) as"
    using assms(1,2) by (auto simp: give_pieces_def suffix_Cons)
  with assms(3) show ?thesis using set_mono_suffix by fastforce
qed

text \<open>
  A step that leaves the class and the course alone. What it does for a thread \<open>i\<close>: it takes no byte
  \<open>a\<close> away and adds no connection, unless the thread itself takes the step.
\<close>

definition frame :: "'d LibEvtServer \<Rightarrow> 'd LibEvtServer \<Rightarrow> bool" where
  "frame s s' \<longleftrightarrow>
     threads_up s' \<and> -1 \<le> m_last_thread s' \<and> GetClass s' = GetClass s \<and> GetCourse s' = GetCourse s \<and>
     (\<forall>i < THREAD_NUMB. send_fd_of s' i = send_fd_of s i)"

definition same_for :: "'d LibEvtServer \<Rightarrow> 'd LibEvtServer \<Rightarrow> nat \<Rightarrow> bool" where
  "same_for s s' i \<longleftrightarrow>
     (\<forall>fd. serves s' i fd \<longrightarrow> serves s i fd) \<and>
     (CHR ''a'' \<in> set (bytes_of s i) \<longrightarrow> CHR ''a'' \<in> set (bytes_of s' i))"

lemma news_carry:
  assumes "frame (nw_server n) (nw_server m)" and "same_for (nw_server n) (nw_server m) i"
    and "nw_give m = nw_give n" and "nw_job m i = nw_job n i" and "nw_told m i = nw_told n i"
    and "news_due n i \<or> news_current n i"
  shows "news_due m i \<or> news_current m i"
  using assms
  by (auto simp: frame_def same_for_def news_due_def news_current_def told_now_def
      split: job.splits option.splits)

lemma news_inv_all:
  assumes "news_inv L E n" and "frame (nw_server n) (nw_server m)" and "nw_give m = nw_give n"
    and "\<And>j. j < THREAD_NUMB \<Longrightarrow> news_due n j \<or> news_current n j \<Longrightarrow> news_due m j \<or> news_current m j"
  shows "news_inv L E m"
  using assms by (auto simp: news_inv_def frame_def)

text \<open>A step of no worker thread, and one of thread \<open>i\<close>.\<close>

lemma news_inv_outside:
  assumes "news_inv L E n" and "frame (nw_server n) (nw_server m)"
    and "\<And>j. j < THREAD_NUMB \<Longrightarrow> same_for (nw_server n) (nw_server m) j"
    and "nw_give m = nw_give n" and "nw_job m = nw_job n" and "nw_told m = nw_told n"
  shows "news_inv L E m"
  by (rule news_inv_all [OF assms(1,2,4)]) (rule news_carry [OF assms(2,3,4)], simp_all add: assms)

lemma news_inv_thread:
  assumes "news_inv L E n" and "frame (nw_server n) s'"
    and "\<And>j. j < THREAD_NUMB \<Longrightarrow> j \<noteq> i \<Longrightarrow> same_for (nw_server n) s' j"
    and "m = set_job i j0 s' n \<or> m = note_told i f (set_job i j0 s' n)"
    and "news_due n i \<or> news_current n i \<Longrightarrow> news_due m i \<or> news_current m i"
  shows "news_inv L E m"
proof -
  have m: "nw_server m = s'" "nw_give m = nw_give n" "j \<noteq> i \<Longrightarrow> nw_job m j = nw_job n j"
    "j \<noteq> i \<Longrightarrow> nw_told m j = nw_told n j" for j
    using assms(4) by (auto simp: set_job_def note_told_def)
  show ?thesis
  proof (rule news_inv_all [OF assms(1) _ m(2)])
    fix j
    assume j: "j < THREAD_NUMB" and now: "news_due n j \<or> news_current n j"
    show "news_due m j \<or> news_current m j"
    proof (cases "j = i")
      case True
      with now assms(5) show ?thesis by simp
    next
      case False
      show ?thesis
        by (rule news_carry [OF _ _ m(2) m(3) m(4) now]) (use False assms(2,3) j m(1) in simp_all)
    qed
  qed (use assms(2) m(1) in simp)
qed

section \<open>Every step keeps it\<close>

lemma become_frame:
  assumes "threads_become s i f s'" and "threads_up s" and "-1 \<le> m_last_thread s"
    and "GetClass s' = GetClass s" and "GetCourse s' = GetCourse s"
  shows "frame s s'"
  using become_up [OF assms(1,2)] assms(3-5) by (simp add: frame_def)

lemma become_serves:
  assumes "threads_become s i f s'" and "threads_up s" and "j < THREAD_NUMB"
    and "m_libevent_threads s ! j = Some t"
  shows "serves s j fd \<longleftrightarrow> sm_find fd (data_map t) \<noteq> None"
    and "serves s' j fd \<longleftrightarrow> sm_find fd (data_map (if i = j then f t else t)) \<noteq> None"
  using assms by (auto simp: threads_become_def serves_def worker_of_def update_thread_nth threads_up_def)

lemma become_same_for:
  assumes "threads_become s i f s'" and "threads_up s" and "j < THREAD_NUMB"
    and "\<And>t fd. i = j \<Longrightarrow> sm_find fd (data_map (f t)) \<noteq> None \<Longrightarrow> sm_find fd (data_map t) \<noteq> None"
    and "\<And>t. i = j \<Longrightarrow> CHR ''a'' \<in> set (notify_bytes t) \<Longrightarrow> CHR ''a'' \<in> set (notify_bytes (f t))"
  shows "same_for s s' j"
proof -
  obtain t where t: "m_libevent_threads s ! j = Some t" using threads_up_nth [OF assms(2,3)] by blast
  show ?thesis
    unfolding same_for_def become_serves [OF assms(1-3) t] become_view [OF assms(1-3) t]
    using assms(4,5) by (auto split: if_splits)
qed

text \<open>No operation but the two assignments changes the class or the course.\<close>

definition the_news :: "string \<times> string \<Rightarrow> 'd LibEvtServer \<Rightarrow> bool" where
  "the_news x s \<longleftrightarrow> (GetClass s, GetCourse s) = x"

lemma keeps_news_world [keeps_intros]: "keeps (the_news x) (in_world m)"
  by (auto simp: keeps_def in_world_def prog_simps the_news_def GetClass_def GetCourse_def split: prod.split)

lemma keeps_thread_at [keeps_intros]: "keeps P (thread_at i)"
  by (auto simp: keeps_def thread_at_def split: option.split)

lemma keeps_news_thread [keeps_intros]: "keeps (the_news x) (modify (update_thread i f))"
  by (rule keeps_modify) (simp add: the_news_def GetClass_def GetCourse_def)

lemma keeps_news_ops:
  "keeps (the_news x) (notify_thread L i c)" "keeps (the_news x) (listener_queue fd ip)"
  "keeps (the_news x) (recv_byte i)" "keeps (the_news x) (pop_conn i)"
  "keeps (the_news x) (enter_conn L i item)" "keeps (the_news x) (handle_byte L i (CHR ''b''))"
  "keeps (the_news x) (tell_all L i c' k)" "keeps (the_news x) (greet L i fd c' k)"
  "keeps (the_news x) (conn_readcb L i fd input)" "keeps (the_news x) (conn_eventcb i fd)"
proof -
  show "keeps (the_news x) (notify_thread L i c)" unfolding notify_thread_def
    by (intro keeps_intros) (auto simp: keeps_def the_news_def GetClass_def GetCourse_def Let_def)
  show "keeps (the_news x) (listener_queue fd ip)" unfolding listener_queue_def
    by (intro keeps_intros keeps_modify) (auto simp: the_news_def GetClass_def GetCourse_def)
  show "keeps (the_news x) (recv_byte i)" unfolding recv_byte_def
    by (intro keeps_intros) (auto intro: keeps_intros split: list.split)
  show "keeps (the_news x) (pop_conn i)" unfolding pop_conn_def
    by (intro keeps_intros) (auto intro: keeps_intros split: list.split)
  show "keeps (the_news x) (enter_conn L i item)" unfolding enter_conn_def Let_def
    by (intro keeps_intros)
  show "keeps (the_news x) (handle_byte L i (CHR ''b''))" unfolding handle_byte_def
    by (simp, intro keeps_intros)
  show "keeps (the_news x) (tell_all L i c' k)" "keeps (the_news x) (greet L i fd c' k)"
    unfolding tell_all_def greet_def by (intro keeps_intros)+
  show "keeps (the_news x) (conn_readcb L i fd input)" unfolding conn_readcb_def
    by (intro keeps_intros) (auto simp: keeps_def the_news_def GetClass_def GetCourse_def split: prod.split)
  show "keeps (the_news x) (conn_eventcb i fd)" unfolding conn_eventcb_def
    by (intro keeps_intros)
qed

lemma keeps_news_GetConnectDevice: "keeps (the_news x) (GetConnectDevice L)"
proof -
  have "keeps (the_news x) (device_list L is)" for "is"
    by (induction "is") (auto intro!: keeps_intros)
  then show ?thesis unfolding GetConnectDevice_def each_thread_def by (intro keeps_intros)
qed

lemma keeps_newsD: "keeps (the_news (GetClass s, GetCourse s)) m \<Longrightarrow> m s = (r, s') \<Longrightarrow>
   GetClass s' = GetClass s \<and> GetCourse s' = GetCourse s"
  by (metis keepsD snd_conv the_news_def prod.inject)

lemmas ops_news = keeps_news_ops [THEN keeps_newsD] keeps_news_GetConnectDevice [THEN keeps_newsD]

text \<open>The operations of the other threads.\<close>

lemma frame_same:
  "news_inv L E n \<Longrightarrow> m_libevent_threads s' = m_libevent_threads (nw_server n) \<Longrightarrow>
   m_last_thread s' = m_last_thread (nw_server n) \<Longrightarrow> GetClass s' = GetClass (nw_server n) \<Longrightarrow>
   GetCourse s' = GetCourse (nw_server n) \<Longrightarrow> frame (nw_server n) s' \<and> same_for (nw_server n) s' j"
  by (auto simp: frame_def same_for_def news_inv_def threads_up_def send_fd_of_def serves_def worker_of_def
      bytes_of_def)

lemma news_up: "news_inv L E n \<Longrightarrow> threads_up (nw_server n) \<and> -1 \<le> m_last_thread (nw_server n)"
  by (simp add: news_inv_def)

text \<open>An update of one thread that takes no byte and adds no connection.\<close>

definition mild :: "(LibeventThread \<Rightarrow> LibeventThread) \<Rightarrow> bool" where
  "mild f \<longleftrightarrow> (\<forall>t. set (notify_bytes t) \<subseteq> set (notify_bytes (f t)) \<and>
     (\<forall>fd. sm_find fd (data_map (f t)) \<noteq> None \<longrightarrow> sm_find fd (data_map t) \<noteq> None))"

lemma mild_simps [simp]: "mild (\<lambda>t. t)" "mild (push_byte c)" "mild (push_conn x)"
  by (auto simp: mild_def push_byte_def push_conn_def)

lemma become_keeps:
  assumes "news_inv L E n" and "threads_become (nw_server n) i f s'"
    and "GetClass s' = GetClass (nw_server n)" and "GetCourse s' = GetCourse (nw_server n)"
  shows "frame (nw_server n) s'"
    and "j < THREAD_NUMB \<Longrightarrow> j \<noteq> i \<Longrightarrow> same_for (nw_server n) s' j"
    and "j < THREAD_NUMB \<Longrightarrow> mild f \<Longrightarrow> same_for (nw_server n) s' j"
proof -
  note up = news_up [OF assms(1)]
  show "frame (nw_server n) s'" using up assms by (intro become_frame) simp_all
  show "same_for (nw_server n) s' j" if "j < THREAD_NUMB" "j \<noteq> i"
    using become_same_for [OF assms(2) _ that(1)] up that(2) by blast
  show "same_for (nw_server n) s' j" if "j < THREAD_NUMB" "mild f"
    using become_same_for [OF assms(2) _ that(1)] up that(2) by (auto simp: mild_def)
qed

lemma news_inv_notify:
  assumes "news_inv L E n" and "notify_thread L i c (nw_server n) = (Inr (), s')"
  shows "frame (nw_server n) s'" and "j < THREAD_NUMB \<Longrightarrow> same_for (nw_server n) s' j"
proof -
  have k: "GetClass s' = GetClass (nw_server n)" "GetCourse s' = GetCourse (nw_server n)"
    using ops_news(1) [OF assms(2)] by simp_all
  from notify_thread_become(1) [OF assms(2)]
  show "frame (nw_server n) s'" and "j < THREAD_NUMB \<Longrightarrow> same_for (nw_server n) s' j"
    using become_keeps(1,3) [OF assms(1) _ k] mild_simps by blast+
qed

lemma news_inv_accept:
  assumes "news_inv L E n" and "listener_queue fd ip (nw_server n) = (Inr i, s')"
  shows "frame (nw_server n) s'" and "j < THREAD_NUMB \<Longrightarrow> same_for (nw_server n) s' j"
proof -
  let ?s = "nw_server n"
  note up = news_up [OF assms(1)]
  have s': "threads_up s'" "m_last_thread s' = next_thread (m_last_thread ?s)"
    "m_libevent_threads s' = m_libevent_threads (update_thread i (push_conn (item_of (fd, ip))) ?s)"
    using listener_queue_up [OF conjunct1 [OF up] conjunct2 [OF up], of fd ip] assms(2) by auto
  have k: "GetClass s' = GetClass ?s" "GetCourse s' = GetCourse ?s"
    using ops_news(2) [OF assms(2)] by simp_all
  define s2 where "s2 = s'\<lparr>m_last_thread := m_last_thread ?s\<rparr>"
  have b: "threads_become ?s i (push_conn (item_of (fd, ip))) s2"
    using s'(3) by (simp add: threads_become_def s2_def push_conn_def)
  have k2: "GetClass s2 = GetClass ?s" "GetCourse s2 = GetCourse ?s"
    using k by (simp_all add: s2_def GetClass_def GetCourse_def)
  have "send_fd_of s2 = send_fd_of s'" "serves s2 = serves s'" "bytes_of s2 = bytes_of s'"
    by (simp_all add: s2_def fun_eq_iff send_fd_of_def serves_def worker_of_def bytes_of_def)
  then show "frame ?s s'" and "j < THREAD_NUMB \<Longrightarrow> same_for ?s s' j"
    using become_keeps(1,3) [OF assms(1) b k2] s'(1,2) k next_thread_range [of "m_last_thread ?s"] up
    by (auto simp: frame_def same_for_def)
qed

text \<open>The assignments and the bytes of \<open>Give_A_Class\<close>.\<close>

lemma news_inv_give:
  assumes inv: "news_inv L E n" and give: "nw_give n = a # as" and run: "run_piece L a (nw_server n) = (Inr (), s')"
  shows "news_inv L E (n\<lparr>nw_server := s', nw_give := as\<rparr>)"
proof -
  let ?s = "nw_server n" and ?m = "n\<lparr>nw_server := s', nw_give := as\<rparr>"
  obtain c k where suf: "suffix (a # as) (give_pieces c k THREAD_NUMB)"
    using inv give by (auto simp: news_inv_def)
  then have suf': "suffix as (give_pieces c k THREAD_NUMB)" by (rule suffix_ConsD)
  consider (store) x where "a = Store_class x \<or> a = Store_course x" | (wake) i where "a = Wake_thread i"
    by (cases a) auto
  then show ?thesis
  proof cases
    case store
    then have "news_due ?m i" if "i < THREAD_NUMB" for i
      using give_store [OF suf store that] by (simp add: news_due_def)
    moreover have "m_libevent_threads s' = m_libevent_threads ?s" "m_last_thread s' = m_last_thread ?s"
      using run store by (auto simp: prog_simps)
    ultimately show ?thesis
      using inv suf' by (auto simp: news_inv_def threads_up_def send_fd_of_def)
  next
    case (wake i)
    then have run: "notify_thread L i (CHR ''a'') ?s = (Inr (), s')" using run by simp
    note same = news_inv_notify [OF inv run]
    have "news_due ?m j \<or> news_current ?m j" if ok: "notify_ok L E" and j: "j < THREAD_NUMB" for j
    proof (cases "j = i")
      case True
      then have "\<forall>h. sock_send L h (send_fd_of ?s i) [CHR ''a''] = 1"
        using inv ok j by (auto simp: news_inv_def notify_ok_def)
      from notify_thread_become(2) [OF run this]
      have "CHR ''a'' \<in> set (bytes_of s' j)"
        using become_push_byte(2) [of ?s i "CHR ''a''" s' j] True j news_up [OF inv] by simp
      then show ?thesis by (simp add: news_due_def)
    next
      case False
      define n0 where "n0 = n\<lparr>nw_server := s'\<rparr>"
      have "news_due n0 j \<or> news_current n0 j"
        using inv ok j same by (intro news_carry [of n n0 j]) (simp_all add: n0_def news_inv_def)
      then show ?thesis
        using False give wake
        by (auto simp: n0_def news_due_def news_current_def told_now_def split: job.splits option.splits)
    qed
    with same(1) suf' inv show ?thesis by (auto simp: news_inv_def frame_def)
  qed
qed

text \<open>The steps of a worker thread.\<close>

lemma news_inv_recv:
  assumes inv: "news_inv L E n" and idle: "nw_job n i = Idle"
    and recv: "recv_byte i (nw_server n) = (Inr (Some c), s')"
  shows "news_inv L E (set_job i (Got c) s' n)"
proof -
  let ?s = "nw_server n"
  obtain t cs where t: "i < length (m_libevent_threads ?s)" "m_libevent_threads ?s ! i = Some t"
    "notify_bytes t = c # cs" and b: "threads_become ?s i (\<lambda>t. t\<lparr>notify_bytes := cs\<rparr>) s'"
    by (rule recv_byte_become [OF recv])
  note up = news_up [OF inv] and same = ops_news(3) [OF recv]
  have i: "i < THREAD_NUMB" using t(1) up by (simp add: threads_up_def)
  note v = become_view [OF b conjunct1 [OF up] i t(2)] become_serves [OF b conjunct1 [OF up] i t(2)]
  show ?thesis
  proof (rule news_inv_thread [OF inv _ _ disjI1 [OF refl]])
    show "same_for ?s s' j" if "j < THREAD_NUMB" "j \<noteq> i" for j
      using become_keeps(2) [OF inv b] same that by simp
    show "frame ?s s'" using become_keeps(1) [OF inv b] same by simp
    assume "news_due n i \<or> news_current n i"
    then show "news_due (set_job i (Got c) s' n) i \<or> news_current (set_job i (Got c) s' n) i"
      using idle same v t(3)
      by (auto simp: set_job_def news_due_def news_current_def told_now_def)
  qed
qed

text \<open>A step of the thread that keeps its bytes: what it leaves is current if what it found was.\<close>

lemma news_inv_job:
  assumes inv: "news_inv L E n" and b: "threads_become (nw_server n) i f s'"
    and same: "GetClass s' = GetClass (nw_server n) \<and> GetCourse s' = GetCourse (nw_server n)"
    and f: "\<forall>t. notify_bytes (f t) = notify_bytes t"
    and m: "m = set_job i j0 s' n \<or> m = note_told i g (set_job i j0 s' n)"
    and now: "nw_job n i = Got (CHR ''a'') \<or> news_current n i \<Longrightarrow> news_current m i"
  shows "news_inv L E m"
proof (rule news_inv_thread [OF inv _ _ m])
  show "same_for (nw_server n) s' j" if "j < THREAD_NUMB" "j \<noteq> i" for j
    using become_keeps(2) [OF inv b] same that by simp
  show "frame (nw_server n) s'" using become_keeps(1) [OF inv b] same by simp
  have bytes: "bytes_of s' i = bytes_of (nw_server n) i"
  proof (cases "i < THREAD_NUMB")
    case True
    then obtain t where "m_libevent_threads (nw_server n) ! i = Some t"
      using threads_up_nth news_up [OF inv] by blast
    then show ?thesis using become_view [OF b _ True] news_up [OF inv] f by simp
  next
    case False
    then have "m_libevent_threads s' = m_libevent_threads (nw_server n)"
      using b news_up [OF inv]
      by (auto simp: threads_become_def update_thread_def threads_up_def list_update_beyond)
    then show ?thesis by (simp add: bytes_of_def)
  qed
  assume "news_due n i \<or> news_current n i"
  then show "news_due m i \<or> news_current m i"
    using m now bytes by (auto simp: news_due_def set_job_def note_told_def)
qed

text \<open>A step that leaves the threads alone.\<close>

lemma news_inv_local:
  assumes "news_inv L E n" and "m_libevent_threads s' = m_libevent_threads (nw_server n)"
    and "m_last_thread s' = m_last_thread (nw_server n)"
    and "GetClass s' = GetClass (nw_server n) \<and> GetCourse s' = GetCourse (nw_server n)"
    and "m = set_job i j0 s' n \<or> m = note_told i g (set_job i j0 s' n)"
    and "nw_job n i = Got (CHR ''a'') \<or> news_current n i \<Longrightarrow> news_current m i"
  shows "news_inv L E m"
  by (rule news_inv_job [OF assms(1) threads_become_same [OF assms(2,3)] assms(4) _ assms(5,6)]) simp

lemma same_serves: "m_libevent_threads s' = m_libevent_threads s \<Longrightarrow> serves s' = serves s"
  by (simp add: fun_eq_iff serves_def worker_of_def)

lemma tell_all_threads:
  "tell_all L i c k s = (Inr (), s') \<Longrightarrow>
   m_libevent_threads s' = m_libevent_threads s \<and> m_last_thread s' = m_last_thread s"
  unfolding tell_all_def
  by (drule andThen_InrD) (auto dest!: thread_at_InrD in_world_threads)

lemma greet_threads:
  "greet L i fd c k s = (Inr (), s') \<Longrightarrow>
   m_libevent_threads s' = m_libevent_threads s \<and> m_last_thread s' = m_last_thread s"
  unfolding greet_def
  by (drule andThen_InrD) (auto dest!: thread_at_InrD in_world_threads)

lemma enter_conn_become:
  assumes "enter_conn L i item s = (Inr (), s')"
  shows "\<exists>w. threads_become s i (\<lambda>t. t\<lparr>data_map := sm_put (item_fd item) w (data_map t)\<rparr>) s'"
  using assms by (auto simp: enter_conn_def prog_simps thread_at_def threads_become_def Let_def
      split: if_splits option.splits)

lemma threads_become_trans:
  assumes "threads_become s i f s1" and "threads_become s1 i g s2"
  shows "threads_become s i (\<lambda>t. g (f t)) s2"
proof (cases "i < length (m_libevent_threads s)")
  case True
  with assms show ?thesis
    by (auto simp: threads_become_def update_thread_def option.map_comp o_def)
next
  case False
  with assms show ?thesis by (auto simp: threads_become_def update_thread_def list_update_beyond)
qed

lemma news_inv_open:
  assumes inv: "news_inv L E n" and got: "nw_job n i = Got c" "is_conn c"
    and pop: "pop_conn i (nw_server n) = (Inr item, s1)" and enter: "enter_conn L i item s1 = (Inr (), s')"
  shows "news_inv L E (set_job i (Tell (Some (item_fd item)) None None) s' n)"
proof -
  let ?s = "nw_server n"
  obtain t q where t: "i < length (m_libevent_threads ?s)" "m_libevent_threads ?s ! i = Some t"
    and b1: "threads_become ?s i (\<lambda>t. t\<lparr>conn_queue := q\<rparr>) s1"
    by (rule pop_conn_become [OF pop])
  obtain w where b2: "threads_become s1 i (\<lambda>t. t\<lparr>data_map := sm_put (item_fd item) w (data_map t)\<rparr>) s'"
    using enter_conn_become [OF enter] by blast
  note b = threads_become_trans [OF b1 b2] and up = news_up [OF inv]
  have i: "i < THREAD_NUMB" using t(1) up by (simp add: threads_up_def)
  note v = become_serves [OF b conjunct1 [OF up] i t(2)]
  have same: "GetClass s' = GetClass ?s \<and> GetCourse s' = GetCourse ?s"
    using ops_news(4) [OF pop] ops_news(5) [OF enter] by simp
  show ?thesis
    using same got v
    by (intro news_inv_job [OF inv b same _ disjI1 [OF refl]])
       (auto simp: news_current_def told_now_def set_job_def sm_find_put is_conn_def)
qed

text \<open>The callbacks of a connection.\<close>

lemma session_frame:
  assumes inv: "news_inv L E n" and b: "threads_become (nw_server n) i f s'"
    and same: "GetClass s' = GetClass (nw_server n) \<and> GetCourse s' = GetCourse (nw_server n)"
    and on: "serves (nw_server n) i fd"
    and f: "\<And>t. notify_bytes (f t) = notify_bytes t"
      "\<And>t k. sm_find fd (data_map t) \<noteq> None \<Longrightarrow> sm_find k (data_map (f t)) \<noteq> None \<Longrightarrow> sm_find k (data_map t) \<noteq> None"
  shows "frame (nw_server n) s' \<and> (\<forall>j < THREAD_NUMB. same_for (nw_server n) s' j)"
proof (intro conjI allI impI)
  note up = conjunct1 [OF news_up [OF inv]]
  show "frame (nw_server n) s'" using become_keeps(1) [OF inv b] same by simp
  fix j
  assume j: "j < THREAD_NUMB"
  obtain t where t: "m_libevent_threads (nw_server n) ! j = Some t" using threads_up_nth [OF up j] by blast
  show "same_for (nw_server n) s' j"
    using f(1) f(2) [of t] on become_serves [OF b up j t] become_view [OF b up j t]
    by (auto simp: same_for_def split: if_splits)
qed

lemma conn_readcb_put:
  assumes "conn_readcb L i fd input s = (Inr r, s')"
  shows "\<exists>w. threads_become s i (\<lambda>t. t\<lparr>data_map := sm_put fd w (data_map t)\<rparr>) s'"
proof -
  obtain t where t: "thread_at i s = (Inr t, s)"
    using andThen_InrD [OF assms [unfolded conn_readcb_def]] thread_at_InrD by metis
  obtain w m where wm: "sm_at CServerWorker_new fd (data_map t) = (w, m)" by fastforce
  obtain r1 w1 d1 where "Process L (server_handlers L) (read_chunks input) (w, sv_world s) = (r1, (w1, d1))"
    by (metis prod.exhaust)
  then have "threads_become s i (\<lambda>t. t\<lparr>data_map := sm_put fd w1 (data_map t)\<rparr>) s'"
    using assms wm t by (auto simp: conn_readcb_def prog_simps threads_become_def update_thread_def)
  then show ?thesis by blast
qed

lemma conn_eventcb_erase:
  assumes "conn_eventcb i fd s = (Inr (), s')" and "serves s i fd"
  shows "threads_become s i (\<lambda>t. t\<lparr>data_map := sm_erase fd (data_map t)\<rparr>) s'"
  using assms
  by (auto simp: conn_eventcb_def prog_simps thread_at_def threads_become_def serves_def worker_of_def
      split: if_splits option.splits)

text \<open>The steps one by one.\<close>

lemma news_inv_call:
  assumes "news_inv L E n" and "nw_give n = []"
  shows "news_inv L E (n\<lparr>nw_give := give_pieces c k (length (m_libevent_threads (nw_server n)))\<rparr>)"
    (is "news_inv L E ?m")
proof -
  have len: "length (m_libevent_threads (nw_server n)) = THREAD_NUMB"
    using news_up [OF assms(1)] by (simp add: threads_up_def)
  then have "news_due ?m i" if "i < THREAD_NUMB" for i
    using that by (simp add: news_due_def give_pieces_def)
  with len show ?thesis using assms by (auto simp: news_inv_def)
qed

lemma news_inv_poll:
  assumes "news_inv L E n" and "GetConnectDevice L (nw_server n) = (Inr ips, s')"
  shows "frame (nw_server n) s'" and "same_for (nw_server n) s' j"
  using ops_news(11) [OF assms(2)] poll_threads [OF assms(2)] frame_same [OF assms(1)] by blast+

lemma news_inv_file:
  assumes "news_inv L E n" and "nw_job n i = Got (CHR ''b'')"
    and "handle_byte L i (CHR ''b'') (nw_server n) = (Inr (), s')"
  shows "news_inv L E (set_job i Idle s' n)"
proof -
  have "threads_become (nw_server n) i (\<lambda>t. t) s'" using handle_byte_broadcast [OF assms(3)] by simp
  then have "m_libevent_threads s' = m_libevent_threads (nw_server n) \<and> m_last_thread s' = m_last_thread (nw_server n)"
    by (simp add: threads_become_def update_thread_def option.map_ident)
  then show ?thesis
    using assms(2) ops_news(6) [OF assms(3)]
    by (intro news_inv_local [OF assms(1) _ _ _ disjI1 [OF refl]])
       (auto simp: news_current_def set_job_def told_now_def same_serves [of s' "nw_server n"])
qed

lemma news_inv_read:
  assumes inv: "news_inv L E n" and "serves (nw_server n) i fd"
    and "conn_readcb L i fd input (nw_server n) = (Inr r, s')"
  shows "frame (nw_server n) s' \<and> (\<forall>j < THREAD_NUMB. same_for (nw_server n) s' j)"
proof -
  obtain w where b: "threads_become (nw_server n) i (\<lambda>t. t\<lparr>data_map := sm_put fd w (data_map t)\<rparr>) s'"
    using conn_readcb_put [OF assms(3)] by blast
  show ?thesis
    by (rule session_frame [OF inv b ops_news(9) [OF assms(3)] assms(2)]) (auto simp: sm_find_put split: if_splits)
qed

lemma news_inv_event:
  assumes inv: "news_inv L E n" and "serves (nw_server n) i fd"
    and "conn_eventcb i fd (nw_server n) = (Inr (), s')"
  shows "frame (nw_server n) s' \<and> (\<forall>j < THREAD_NUMB. same_for (nw_server n) s' j)"
proof -
  have "sm_find k (sm_erase fd x) \<noteq> None \<Longrightarrow> sm_find k x \<noteq> None" for k and x :: "(int, server_worker) stdmap"
    unfolding sm_find_mem using set_sm_erase by fastforce
  then show ?thesis
    by (intro session_frame [OF inv conn_eventcb_erase [OF assms(3,2)] ops_news(10) [OF assms(3)] assms(2)]) simp_all
qed

lemma news_inv_step:
  assumes inv: "news_inv L E n" and st: "news_step L n m"
  shows "news_inv L E m"
  using st
proof cases
  case (news_call c k)
  then show ?thesis using news_inv_call [OF inv] by simp
next
  case (news_give a as s')
  then show ?thesis using news_inv_give [OF inv] by simp
next
  case (news_accept fd ip i s')
  then show ?thesis by (intro news_inv_outside [OF inv]) (simp_all add: news_inv_accept [OF inv])
next
  case (news_wake i s')
  then show ?thesis by (intro news_inv_outside [OF inv]) (simp_all add: news_inv_notify [OF inv])
next
  case (news_file_fields t f)
  then show ?thesis
    by (intro news_inv_outside [OF inv]) (simp_all add: frame_same [OF inv] GetClass_def GetCourse_def)
next
  case (news_file_byte i s')
  then show ?thesis by (intro news_inv_outside [OF inv]) (simp_all add: news_inv_notify [OF inv])
next
  case (news_poll ips s')
  then show ?thesis by (intro news_inv_outside [OF inv]) (simp_all add: news_inv_poll [OF inv])
next
  case (news_recv i c s')
  then show ?thesis using news_inv_recv [OF inv] by simp
next
  case (news_class i)
  then show ?thesis
    by (intro news_inv_local [OF inv _ _ _ disjI1]) (auto simp: news_current_def set_job_def)
next
  case (news_file i s')
  then show ?thesis using news_inv_file [OF inv] by simp
next
  case (news_open i c item s1 s')
  then show ?thesis using news_inv_open [OF inv] by simp
next
  case (news_read_class i fd k)
  then show ?thesis
    by (intro news_inv_local [OF inv _ _ _ disjI1])
       (auto simp: news_current_def set_job_def told_now_def split: option.splits)
next
  case (news_read_course i fd c)
  then show ?thesis
    by (intro news_inv_local [OF inv _ _ _ disjI1])
       (auto simp: news_current_def set_job_def told_now_def split: option.splits)
next
  case (news_tell_all i c k s')
  then show ?thesis
    using tell_all_threads [OF news_tell_all(3)] ops_news(7) [OF news_tell_all(3)]
    by (intro news_inv_local [OF inv _ _ _ disjI2])
       (auto simp: news_current_def set_job_def note_told_def told_now_def same_serves [of s' "nw_server n"])
next
  case (news_greet i fd c k s')
  then show ?thesis
    using greet_threads [OF news_greet(3)] ops_news(8) [OF news_greet(3)]
    by (intro news_inv_local [OF inv _ _ _ disjI2])
       (auto simp: news_current_def set_job_def note_told_def told_now_def same_serves [of s' "nw_server n"])
next
  case (news_read i fd input r s')
  then show ?thesis using news_inv_read [OF inv] by (intro news_inv_outside [OF inv]) simp_all
next
  case (news_event i fd s')
  then show ?thesis using news_inv_event [OF inv] by (intro news_inv_outside [OF inv]) simp_all
qed

lemma news_inv_init:
  assumes "news_init L E n"
  shows "news_inv L E n"
proof -
  obtain d where E: "os_base E" "\<forall>i < THREAD_NUMB. os_pair E i \<noteq> None"
    and n: "LibEvtServer_new L E d = (Inr True, nw_server n)"
    using assms by (auto simp: news_init_def)
  have s: "threads_up (nw_server n)" "m_last_thread (nw_server n) = -1"
    "m_libevent_threads (nw_server n) = map (\<lambda>i. Some (started_thread E i)) [0..<THREAD_NUMB]"
    using server_new_up [OF E, of L d] n by auto
  have "send_fd_of (nw_server n) i = snd (the (os_pair E i))" "\<not> serves (nw_server n) i fd"
    if "i < THREAD_NUMB" for i fd
    using that by (simp_all add: send_fd_of_def serves_def worker_of_def s(3))
  with s(1,2) assms show ?thesis by (auto simp: news_inv_def news_current_def news_init_def)
qed

interpretation news: invariant_system "news_init L E" "news_step L" "news_inv L E"
  for L :: "('j, 'd) libs" and E :: os
  by unfold_locales (rule news_inv_init, assumption, rule news_inv_step)

end
