(* ===== verification/NewsRuns.thy ===== *)
theory NewsRuns
  imports NewsInvariant Admission
begin

text \<open>
  Runs of \<open>news_step\<close>: a whole \<open>notify_cb\<close>, the first connection of a server, and a run in which
  the two assignments of \<open>Give_A_Class\<close> are seen apart.
\<close>

text \<open>A whole \<open>notify_cb\<close> for a new connection is a run of its pieces.\<close>

lemma reachable_news_notify:
  assumes n: "reachable I (news_step L) n" and idle: "nw_job n i = Idle" and conn: "is_conn c"
    and recv: "recv_byte i (nw_server n) = (Inr (Some c), s1)" and cb: "notify_cb L i (nw_server n) = (Inr (), s')"
  obtains m fd where "reachable I (news_step L) m" and "nw_server m = s'" and "nw_give m = nw_give n"
    and "nw_job m = nw_job n" and "nw_told m i fd = Some (GetClass s', GetCourse s')"
proof -
  have "handle_byte L i c s1 = (Inr (), s')" using recv cb by (simp add: notify_cb_def prog_simps)
  then obtain x s2 where pop: "pop_conn i s1 = (Inr x, s2)" and op: "open_conn L i x s2 = (Inr (), s')"
    using conn by (elim handle_byte_conn) (auto simp: is_conn_def)
  obtain s3 where enter: "enter_conn L i x s2 = (Inr (), s3)"
    and greet: "greet L i (item_fd x) (GetClass s3) (GetCourse s3) s3 = (Inr (), s')"
    using op by (auto simp: open_conn_pieces andThen_apply query_apply split: prod.splits sum.splits)
  define n1 where "n1 = set_job i (Got c) s1 n"
  define n2 where "n2 = set_job i (Tell (Some (item_fd x)) None None) s3 n1"
  define n3 where "n3 = set_job i (Tell (Some (item_fd x)) (Some (GetClass s3)) None) s3 n2"
  define n4 where "n4 = set_job i (Tell (Some (item_fd x)) (Some (GetClass s3)) (Some (GetCourse s3))) s3 n3"
  define n5 where "n5 = note_told i ((nw_told n4 i)(item_fd x \<mapsto> (GetClass s3, GetCourse s3))) (set_job i Idle s' n4)"
  note defs = n1_def n2_def n3_def n4_def n5_def set_job_def note_told_def
  have "news_step L n n1" unfolding n1_def using idle recv by (rule news_recv)
  with n have "reachable I (news_step L) n1" by (rule reachable_step)
  moreover have "news_step L n1 n2" unfolding n2_def
    using conn pop enter by (intro news_open) (simp_all add: defs)
  ultimately have "reachable I (news_step L) n2" by (rule reachable_step)
  moreover have "news_step L n2 n3"
    using news_read_class [of n2 i "Some (item_fd x)" None L] by (simp add: defs)
  ultimately have "reachable I (news_step L) n3" by (rule reachable_step)
  moreover have "news_step L n3 n4"
    using news_read_course [of n3 i "Some (item_fd x)" "Some (GetClass s3)" L] by (simp add: defs)
  ultimately have "reachable I (news_step L) n4" by (rule reachable_step)
  moreover have "news_step L n4 n5" unfolding n5_def
    using greet by (intro news_greet) (simp_all add: defs)
  ultimately have "reachable I (news_step L) n5" by (rule reachable_step)
  then show thesis
    using idle ops_news(8) [OF greet]
    by (elim that [of n5 "item_fd x"]) (simp_all add: defs fun_eq_iff)
qed

text \<open>A new server with one connection waiting in the first thread.\<close>

lemma first_connection_news:
  assumes E: "os_base E" "\<forall>i < THREAD_NUMB. os_pair E i \<noteq> None" and L: "sends_all L"
  obtains n where "reachable (news_init L E) (news_step L) n" and "first_waiting E fd ip d (nw_server n)"
    and "nw_give n = []" and "nw_job n = (\<lambda>i. Idle)"
proof -
  obtain s0 s1 s2 where new: "LibEvtServer_new L E d = (Inr True, s0)"
    and calls: "listener_queue fd ip s0 = (Inr 0, s1)" "notify_thread L 0 (CHR ''c'') s1 = (Inr (), s2)"
    and s2: "first_waiting E fd ip d s2"
    by (rule first_connection_calls [OF E L])
  let ?n0 = "\<lparr>nw_server = s0, nw_accept = None, nw_give = [], nw_job = (\<lambda>i. Idle), nw_told = (\<lambda>i fd. None)\<rparr>"
  let ?n1 = "?n0\<lparr>nw_server := s1, nw_accept := Some 0\<rparr>"
  let ?n2 = "?n1\<lparr>nw_server := s2, nw_accept := None\<rparr>"
  have "news_init L E ?n0" unfolding news_init_def using E new by auto
  then have "reachable (news_init L E) (news_step L) ?n0" by (rule reachable_init)
  moreover have "news_step L ?n0 ?n1" using calls(1) by (intro news_accept) simp_all
  ultimately have "reachable (news_init L E) (news_step L) ?n1" by (rule reachable_step)
  moreover have "news_step L ?n1 ?n2" using calls(2) by (intro news_wake) simp_all
  ultimately have "reachable (news_init L E) (news_step L) ?n2" by (rule reachable_step)
  with s2 show thesis by (intro that [of ?n2]) simp_all
qed

text \<open>Its thread takes it.\<close>

lemma first_connection_told:
  fixes d :: "'d world"
  assumes E: "os_base E" "\<forall>i < THREAD_NUMB. os_pair E i \<noteq> None" and L: "sends_all L" "bev_made L"
    and db: "steady_class L P [] strOut" "P (w_db d)"
    and js: "skbj_json L [] [] strOut = Some js" "length (JsonToString L js) < 1024"
  obtains n where "reachable (news_init L E) (news_step L) n" and "nw_give n = []" and "nw_job n = (\<lambda>i. Idle)"
    and "bytes_of (nw_server n) 0 = []" and "worker_of (nw_server n) 0 fd \<noteq> None"
proof -
  obtain n :: "'d news" where n: "reachable (news_init L E) (news_step L) n" "nw_give n = []" "nw_job n = (\<lambda>i. Idle)"
    and s: "first_waiting E fd [] d (nw_server n)"
    by (rule first_connection_news [OF E L(1)])
  have t: "0 < length (m_libevent_threads (nw_server n))" "m_libevent_threads (nw_server n) ! 0 =
      Some (push_byte (CHR ''c'') (push_conn (item_of (fd, [])) (started_thread E 0)))"
    and ans: "answers_class L P strOut js (nw_server n)"
    using s db js by (simp_all add: first_waiting_def answers_class_def)
  obtain s1 s' t' w where taken: "recv_byte 0 (nw_server n) = (Inr (Some (CHR ''c'')), s1)"
    "notify_cb L 0 (nw_server n) = (Inr (), s')" "thread_at 0 s' = (Inr t', s')" "data_map t' = sm_put fd w []"
    "notify_bytes t' = []"
    by (rule waiting_taken [OF t L ans])
  have "nw_job n 0 = Idle" "is_conn (CHR ''c'')" using n(3) by (simp_all add: is_conn_def)
  from n(1) this taken(1,2) obtain m where "reachable (news_init L E) (news_step L) m" "nw_server m = s'"
    "nw_give m = nw_give n" "nw_job m = nw_job n"
    by (rule reachable_news_notify)
  with taken(3-5) n(2,3) thread_at_InrD [OF taken(3)] show thesis
    by (intro that [of m]) (simp_all add: worker_of_def bytes_of_def)
qed

text \<open>
  The two assignments can be seen apart: a connection opened between them is told the new class
  with the old course.
\<close>

lemma class_told_with_old_course:
  fixes d :: "'d world"
  assumes E: "os_base E" "\<forall>i < THREAD_NUMB. os_pair E i \<noteq> None" and L: "sends_all L" "bev_made L"
    and db: "steady_class L P strClass strOut" "P (w_db d)"
    and js: "skbj_json L strClass [] strOut = Some js" "length (JsonToString L js) < 1024"
  shows "\<exists>n fd. reachable (news_init L E) (news_step L) n \<and>
    nw_give n = Store_course strCourse # map Wake_thread [0..<THREAD_NUMB] \<and>
    nw_told n 0 fd = Some (strClass, [])"
proof -
  obtain n :: "'d news" where n: "reachable (news_init L E) (news_step L) n" "nw_give n = []" "nw_job n = (\<lambda>i. Idle)"
    and s: "first_waiting E 40 [] d (nw_server n)"
    by (rule first_connection_news [OF E L(1)])
  have up: "length (m_libevent_threads (nw_server n)) = THREAD_NUMB"
    using news.reachable_inv [OF n(1)] by (simp add: news_inv_def threads_up_def)
  let ?rest = "Store_course strCourse # map Wake_thread [0..<THREAD_NUMB]"
  let ?n1 = "n\<lparr>nw_give := Store_class strClass # ?rest\<rparr>"
  let ?s2 = "(nw_server n)\<lparr>m_strClass := strClass\<rparr>"
  let ?n2 = "?n1\<lparr>nw_server := ?s2, nw_give := ?rest\<rparr>"
  have "news_step L n ?n1" using news_call [OF n(2), of L strClass strCourse] up by (simp add: give_pieces_def)
  with n(1) have "reachable (news_init L E) (news_step L) ?n1" by (rule reachable_step)
  moreover have "news_step L ?n1 ?n2" by (rule news_give [of _ "Store_class strClass"]) (simp_all add: prog_simps)
  ultimately have n2: "reachable (news_init L E) (news_step L) ?n2" by (rule reachable_step)
  have t: "0 < length (m_libevent_threads ?s2)" "m_libevent_threads ?s2 ! 0 =
      Some (push_byte (CHR ''c'') (push_conn (item_of (40, [])) (started_thread E 0)))"
    and ans: "answers_class L P strOut js ?s2"
    using s db js by (simp_all add: first_waiting_def answers_class_def GetClass_def GetCourse_def)
  obtain s1 s' t' w where taken: "recv_byte 0 ?s2 = (Inr (Some (CHR ''c'')), s1)" "notify_cb L 0 ?s2 = (Inr (), s')"
    "GetClass s' = GetClass ?s2" "GetCourse s' = GetCourse ?s2"
    by (rule waiting_taken [OF t L ans])
  have "nw_job ?n2 0 = Idle" "is_conn (CHR ''c'')" using n(3) by (simp_all add: is_conn_def)
  from n2 this show ?thesis
  proof (rule reachable_news_notify)
    show "recv_byte 0 (nw_server ?n2) = (Inr (Some (CHR ''c'')), s1)"
      and "notify_cb L 0 (nw_server ?n2) = (Inr (), s')" using taken(1,2) by simp_all
    fix m fd
    assume "reachable (news_init L E) (news_step L) m" and "nw_give m = nw_give ?n2"
      and "nw_told m 0 fd = Some (GetClass s', GetCourse s')"
    then show ?thesis
      using taken(3,4) s by (intro exI [of _ m] exI [of _ fd]) (simp add: first_waiting_def GetClass_def GetCourse_def)
  qed
qed

end
