(* ===== verification/PoolProps.thy ===== *)
theory PoolProps
  imports SessionProps FairRuns MapWalk NewsRuns
begin

text \<open>
  Properties of the thread pool as a whole: what every interleaving does with the accepted
  connections, what fair runs and a worker thread left to itself get done, and the walk over the
  connections that takes no lock.
\<close>

section \<open>A connection that waits\<close>

text \<open>Accepted and announced, but not yet taken by the first thread.\<close>

lemma announced_pool:
  "\<exists>p. reachable (pool_init class_libs sample_os) (pool_step class_libs) p \<and>
     queue_of (pl_server p) 0 = [item_of (40, ''10.0.0.1'')] \<and> bytes_of (pl_server p) 0 = ''c'' \<and>
     pl_held p 0 = None \<and> pl_accept p = None \<and>
     answers_class class_libs datahelper.m_bConnect class_text (class_value [] []) (pl_server p)"
proof -
  obtain p :: "demo_db pool" where p: "reachable (pool_init class_libs sample_os) (pool_step class_libs) p"
    "pl_held p = (\<lambda>i. None)" "pl_accept p = None"
    and s: "first_waiting sample_os 40 ''10.0.0.1'' (demo_world Map.empty) (pl_server p)"
    by (rule first_connection_waits [OF sample_os_ok class_libs_fields(2)])
  have "answers_class class_libs datahelper.m_bConnect class_text (class_value [] []) (pl_server p)"
    using s class_steady class_value_text(1)
    by (simp add: answers_class_def class_json class_written demo_world_def fresh_db_def first_waiting_def)
  with p s show ?thesis
    by (intro exI [of _ p]) (simp add: queue_of_def bytes_of_def push_byte_def push_conn_def first_waiting_def)
qed

section \<open>Every interleaving\<close>

text \<open>C7: the pool implements its specification: in every interleaving of the accepting thread, broadcasts,
  connection callbacks and worker threads, the acceptances and openings so far are a run of the
  dispatcher, which hands connections out in turn and opens each line from its front, and the turn and
  the queues are those the dispatcher has after that run.\<close>

theorem pool_refines_dispatcher:
  assumes "reachable (pool_init L E) (pool_step L) p"
  shows "(\<exists>es. history (pool_init L E) (pool_does L) p es) \<and>
    (\<forall>es. history (pool_init L E) (pool_does L) p es \<longrightarrow>
       machine_run dispatch idle_dispatcher es = Some (dispatcher_of p))"
  using pool_sim.reachable_history [OF assms] pool_sim.history_runs by blast

theorem pool_refines_dispatcher_witness:
  "\<exists>p es. queue_of (pl_server (p :: demo_db pool)) 0 = [item_of (40, ''10.0.0.1'')] \<and>
     history (pool_init class_libs sample_os) (pool_does class_libs) p es \<and>
     machine_run dispatch idle_dispatcher es = Some (dispatcher_of p)"
proof -
  obtain p where p: "reachable (pool_init class_libs sample_os) (pool_step class_libs) p"
    "queue_of (pl_server p) 0 = [item_of (40, ''10.0.0.1'')]"
    using announced_pool by blast
  from pool_refines_dispatcher [OF p(1)] p(2) show ?thesis by blast
qed

text \<open>C8: no connection is lost, served twice or out of turn: in every interleaving, the connections a worker
  thread has opened so far, followed by those in its queue, are every fourth accepted connection from
  the thread's own number on, in the order in which they were accepted.\<close>

theorem connections_served_in_order:
  assumes "history (pool_init L E) (pool_does L) p es" and "i < THREAD_NUMB"
  shows "opened_by i es @ queue_of (pl_server p) i = nths (accepted_in es) {n. n mod THREAD_NUMB = i}"
proof -
  have "machine_run dispatch idle_dispatcher es = Some (dispatcher_of p)"
    using assms(1) by (rule pool_sim.history_runs)
  then have "opened_by i es @ waiting (dispatcher_of p) i = share i (accepted_in es)"
    using dispatcher_in_order by blast
  with assms(2) show ?thesis by (simp add: dispatcher_of_def share_def)
qed

theorem connections_served_in_order_witness:
  "\<exists>p es. opened_by 0 es @ queue_of (pl_server (p :: demo_db pool)) 0 =
      nths (accepted_in es) {n. n mod THREAD_NUMB = 0} \<and>
     queue_of (pl_server p) 0 = [item_of (40, ''10.0.0.1'')]"
proof -
  obtain p where p: "reachable (pool_init class_libs sample_os) (pool_step class_libs) p"
    "queue_of (pl_server p) 0 = [item_of (40, ''10.0.0.1'')]"
    using announced_pool by blast
  obtain es where "history (pool_init class_libs sample_os) (pool_does class_libs) p es"
    using pool_sim.reachable_history [OF p(1)] by blast
  moreover have "0 < THREAD_NUMB" by (simp add: THREAD_NUMB_def)
  ultimately have "opened_by 0 es @ queue_of (pl_server p) 0 = nths (accepted_in es) {n. n mod THREAD_NUMB = 0}"
    by (rule connections_served_in_order)
  with p(2) show ?thesis by blast
qed

section \<open>Fair runs\<close>

text \<open>C9: every accepted connection is served: in every infinite run of the pool in which the accept callback
  and a thread's notification callbacks return and libevent calls them while bytes are waiting, and
  whose notification sockets take every byte, the thread sooner or later has opened every connection of
  its share accepted so far, in the order of acceptance.\<close>

theorem every_connection_is_opened:
  assumes "pool_run L E ps es" and "notify_ok L E" and "keeps_running ps i" and "i < THREAD_NUMB"
  shows "\<exists>m\<ge>n. prefix (nths (accepted_in (so_far es n)) {k. k mod THREAD_NUMB = i}) (opened_by i (so_far es m))"
  using all_opened [OF assms] by (simp add: share_def)

text \<open>A run in which the first connection is served and nothing happens afterwards.\<close>

lemma served_run:
  "\<exists>ps es N. pool_run class_libs sample_os (ps :: nat \<Rightarrow> demo_db pool) es \<and> keeps_running ps 0 \<and> accepted_in (so_far es N) \<noteq> []"
proof -
  have db: "datahelper.m_bConnect (w_db (demo_world Map.empty))" by (simp add: demo_world_def fresh_db_def)
  have len: "length (JsonToString class_libs (class_value [] [])) < 1024"
    using class_value_text(1) by (simp add: class_written)
  obtain p :: "demo_db pool" and t where p: "reachable (pool_init class_libs sample_os) (pool_step class_libs) p"
    "thread_at 0 (pl_server p) = (Inr t, pl_server p)" "notify_bytes t = []" "pl_held p = (\<lambda>i. None)" "pl_accept p = None"
    "m_last_thread (pl_server p) = 0"
    using first_connection_served [OF sample_os_ok class_libs_fields(2,3) class_steady db class_json len, of 40] by blast
  obtain fs where fs: "history (pool_init class_libs sample_os) (pool_does class_libs) p fs"
    using pool_sim.reachable_history [OF p(1)] by blast
  obtain ps es N where run: "pool_run class_libs sample_os ps es" "so_far es N = fs" "\<forall>n\<ge>N. ps n = p \<and> es n = None"
    using history_run [OF fs] by blast
  have "bytes_of (pl_server p) 0 = []" using thread_at_InrD [OF p(2)] p(3) by (simp add: bytes_of_def)
  then have settled: "pl_accept (ps (max n N)) = None" "pl_held (ps (max n N)) 0 = None"
    "bytes_of (pl_server (ps (max n N))) 0 = []" for n
    using run(3) p(4,5) by simp_all
  have "\<exists>m\<ge>n. pl_accept (ps m) \<noteq> Some 0" "\<exists>m\<ge>n. pl_held (ps m) 0 = None"
    "\<exists>m\<ge>n. pl_held (ps m) 0 \<noteq> None \<or> bytes_of (pl_server (ps m)) 0 = []" for n
    using settled [of n] by (intro exI [of _ "max n N"], simp)+
  then have "keeps_running ps 0" by (simp add: keeps_running_def bytes_served_def)
  moreover have "turn (dispatcher_of p) = length (accepted_in fs) mod THREAD_NUMB"
    using dispatcher_in_order [OF pool_sim.history_runs [OF fs]] by blast
  then have "accepted_in fs \<noteq> []" using p(6) by (auto simp: dispatcher_of_def next_thread_mod)
  ultimately show ?thesis using run(1,2) by blast
qed

theorem every_connection_is_opened_witness:
  "\<exists>ps es N m. pool_run class_libs sample_os (ps :: nat \<Rightarrow> demo_db pool) es \<and> accepted_in (so_far es N) \<noteq> [] \<and>
     prefix (nths (accepted_in (so_far es N)) {k. k mod THREAD_NUMB = 0}) (opened_by 0 (so_far es m))"
proof -
  obtain ps :: "nat \<Rightarrow> demo_db pool" and es N where run: "pool_run class_libs sample_os ps es" "keeps_running ps 0"
    "accepted_in (so_far es N) \<noteq> []"
    using served_run by blast
  have "notify_ok class_libs sample_os" by (rule sends_all_notify [OF class_libs_fields(2)])
  moreover have "0 < THREAD_NUMB" by (simp add: THREAD_NUMB_def)
  ultimately obtain m where "prefix (nths (accepted_in (so_far es N)) {k. k mod THREAD_NUMB = 0}) (opened_by 0 (so_far es m))"
    using every_connection_is_opened [OF run(1) _ run(2)] by blast
  with run(1,3) show ?thesis by blast
qed

section \<open>A thread left to itself\<close>

text \<open>C10: a worker thread catches up with its connections: in a reachable state in which the thread is
  between two notifications, the connection accepted last is not one still to be announced to it,
  and no broadcast of a file is among its waiting bytes, when it handles the notifications that are
  waiting, as many calls of \<open>notify_cb\<close> as there are bytes, it returns from all of
  them, its queue is empty, and every connection that waited in it has a worker and was sent the
  class. Conditions: all sockets take everything, libevent makes the bufferevents, and every query
  for the class's students gives the same text, for which the JSON text of the announcement is
  shorter than 1024 bytes.\<close>

theorem waiting_clients_are_served:
  assumes "reachable (pool_init L E) (pool_step L) p" and "i < THREAD_NUMB"
    and "pl_held p i = None" and "pl_accept p \<noteq> Some i"
    and "sends_all L" and "bev_made L" and "CHR ''b'' \<notin> set (bytes_of (pl_server p) i)"
    and "answers_class L P strOut js (pl_server p)"
  shows "\<exists>s'. notify_rounds L i (length (bytes_of (pl_server p) i)) (pl_server p) = (Inr (), s') \<and>
    queue_of s' i = [] \<and> bytes_of s' i = [] \<and>
    (\<forall>x \<in> set (queue_of (pl_server p) i). worker_of s' i (item_fd x) \<noteq> None \<and>
       sent (item_fd x) (first_page ''SKBJ'' (JsonToString L js)) \<in>
         set (drop (length (w_sends (sv_world (pl_server p)))) (w_sends (sv_world s'))))"
proof -
  let ?s = "pl_server p"
  have inv: "pool_inv L E p" by (rule pool.reachable_inv [OF assms(1)])
  then have up: "threads_up ?s" by (simp add: pool_inv_def)
  obtain t where t: "m_libevent_threads ?s ! i = Some t" using threads_up_nth [OF up assms(2)] by blast
  have len: "i < length (m_libevent_threads ?s)" using up assms(2) by (simp add: threads_up_def)
  have view: "queue_of ?s i = conn_queue t" "bytes_of ?s i = notify_bytes t"
    using t by (simp_all add: queue_of_def bytes_of_def)
  have "conn_tokens p i = length (queue_of ?s i)"
    using inv assms(2) sends_all_notify [OF assms(5), of E] by (simp add: pool_inv_def)
  then have count: "length (filter is_conn (notify_bytes t)) = length (conn_queue t)"
    using assms(3,4) view by (simp add: conn_tokens_def)
  have "thread_ok L t"
    using sessions.reachable_inv [OF assms(1)] sessions_ok_thread [OF _ thread_at_Some [OF len t]]
    by (simp add: session_inv_def)
  then have bevs: "\<forall>(k, w) \<in> set (data_map t). m_bev w = Some k"
    using assms(6) by (rule thread_ok_sockets)
  obtain s' t' more where r: "notify_rounds L i (length (notify_bytes t)) ?s = (Inr (), s')"
    "m_libevent_threads s' ! i = Some t'" "conn_queue t' = []" "notify_bytes t' = []"
    "w_sends (sv_world s') = w_sends (sv_world ?s) @ more"
    "\<forall>x \<in> set (conn_queue t). sent (item_fd x) (first_page ''SKBJ'' (JsonToString L js)) \<in> set more"
    "\<forall>k. k \<in> item_fd ` set (conn_queue t) \<or> sm_find k (data_map t) \<noteq> None \<longrightarrow> sm_find k (data_map t') \<noteq> None"
    using rounds_open_all [OF assms(5,6) len t assms(8) count _ bevs] assms(7) view(2) by auto
  have "worker_of s' i (item_fd x) \<noteq> None" if "x \<in> set (conn_queue t)" for x
    using r(2,7) that by (simp add: worker_of_def)
  moreover have "queue_of s' i = []" "bytes_of s' i = []"
    using r(2-4) by (simp_all add: queue_of_def bytes_of_def)
  ultimately show ?thesis
    using r(1,5,6) unfolding view by (intro exI [of _ s']) simp
qed

theorem waiting_clients_are_served_witness:
  "\<exists>p s'. queue_of (pl_server (p :: demo_db pool)) 0 = [item_of (40, ''10.0.0.1'')] \<and>
    notify_rounds class_libs 0 1 (pl_server p) = (Inr (), s') \<and> queue_of s' 0 = [] \<and>
    worker_of s' 0 40 \<noteq> None"
proof -
  obtain p where p: "reachable (pool_init class_libs sample_os) (pool_step class_libs) p"
    "queue_of (pl_server p) 0 = [item_of (40, ''10.0.0.1'')]" "bytes_of (pl_server p) 0 = ''c''"
    "pl_held p 0 = None" "pl_accept p = None"
    "answers_class class_libs datahelper.m_bConnect class_text (class_value [] []) (pl_server p)"
    using announced_pool by blast
  have zero: "0 < THREAD_NUMB" by (simp add: THREAD_NUMB_def)
  obtain s' where "notify_rounds class_libs 0 (length (bytes_of (pl_server p) 0)) (pl_server p) = (Inr (), s')"
    "queue_of s' 0 = []"
    "\<forall>x \<in> set (queue_of (pl_server p) 0). worker_of s' 0 (item_fd x) \<noteq> None"
    using waiting_clients_are_served [OF p(1) zero p(4) _ _ _ _ p(6)] p(3,5) by auto
  then show ?thesis
    using p(2,3) by (intro exI [of _ p] exI [of _ s']) (simp add: item_of_def)
qed

section \<open>A class, assignment by assignment\<close>

text \<open>C11: the clients agree on the class in the end: when the notification sockets take their bytes, and
  the two assignments and the four bytes of \<open>Give_A_Class\<close>, the reads of the worker
  threads and everything else are interleaved in any order, then whenever the call is over and an
  idle worker thread has no byte \<open>a\<close> waiting, the last class and course each of its
  connections was told are those the server holds. (Until then they need not be: a connection opened
  between the two assignments is told the new class with the old course.)\<close>

theorem class_settles:
  assumes "reachable (news_init L E) (news_step L) n" and "notify_ok L E" and "i < THREAD_NUMB"
    and "nw_give n = []" and "nw_job n i = Idle" and "CHR ''a'' \<notin> set (bytes_of (nw_server n) i)"
    and "worker_of (nw_server n) i fd \<noteq> None"
  shows "nw_told n i fd = Some (GetClass (nw_server n), GetCourse (nw_server n))"
proof -
  have "news_due n i \<or> news_current n i"
    using news.reachable_inv [OF assms(1)] assms(2,3) by (simp add: news_inv_def)
  then show ?thesis
    using assms(4-7) by (simp add: news_due_def news_current_def serves_def told_now_def)
qed

theorem class_settles_witness:
  "\<exists>n. nw_told (n :: demo_db news) 0 40 = Some (GetClass (nw_server n), GetCourse (nw_server n)) \<and>
     worker_of (nw_server n) 0 40 \<noteq> None"
proof -
  have db: "datahelper.m_bConnect (w_db (demo_world Map.empty))" by (simp add: demo_world_def fresh_db_def)
  have len: "length (JsonToString class_libs (class_value [] [])) < 1024"
    using class_value_text(1) by (simp add: class_written)
  obtain n :: "demo_db news" where n: "reachable (news_init class_libs sample_os) (news_step class_libs) n"
    "nw_give n = []" "nw_job n = (\<lambda>i. Idle)" "bytes_of (nw_server n) 0 = []" "worker_of (nw_server n) 0 40 \<noteq> None"
    by (rule first_connection_told [OF sample_os_ok class_libs_fields(2,3) class_steady db class_json len])
  have "notify_ok class_libs sample_os" by (rule sends_all_notify [OF class_libs_fields(2)])
  from class_settles [OF n(1) this _ n(2) _ _ n(5)] n(3,4,5) show ?thesis by (auto simp: THREAD_NUMB_def)
qed

section \<open>The unlocked walk\<close>

text \<open>C33: polling the devices races with closing connections: in every reachable state, the walk over a
  thread's connections, left to itself, sends the heartbeats and collects the addresses that
  \<open>GetConnectDevice\<close> answers for the thread; but it holds no lock, and when the thread
  handles the end of a connection between two elements, the walk goes on with a dangling iterator
  exactly when it stands at that connection.\<close>

theorem unlocked_walk:
  assumes "reachable (pool_init L E) (pool_step L) p"
    and "thread_at i (pl_server p) = (Inr t, pl_server p)" and "sm_find fd (data_map t) \<noteq> None"
  shows "walk_devices L (length (data_map t)) i (first_pos (data_map t)) (pl_server p) =
      in_world (heartbeats L (data_map t)) (pl_server p) \<and>
    (\<forall>k s'. conn_eventcb i k (pl_server p) = (Inr (), s') \<longrightarrow>
       (fst (visit_device L i fd s') = Inl (UB Dangling_pointer) \<longleftrightarrow> k = fd))"
proof -
  have ok: "sm_ok (data_map t)"
    using sessions.reachable_inv [OF assms(1)] sessions_ok_thread [OF _ assms(2)]
    by (auto simp: session_inv_def thread_ok_def)
  obtain w where w: "sm_find fd (data_map t) = Some w" using assms(3) by blast
  show ?thesis
    by (intro conjI allI impI walk_undisturbed [OF assms(2) _ ok, of "[]"] visit_after_close [OF assms(2) ok w]) simp
qed

theorem unlocked_walk_witness:
  "\<exists>p s'. conn_eventcb 0 40 (pl_server (p :: demo_db pool)) = (Inr (), s') \<and>
     fst (visit_device class_libs 0 40 s') = Inl (UB Dangling_pointer)"
proof -
  obtain p t where p: "reachable (pool_init class_libs sample_os) (pool_step class_libs) p"
    "thread_at 0 (pl_server p) = (Inr t, pl_server p)" "sm_find 40 (data_map t) \<noteq> None"
    using served_pool by blast
  obtain s' where s': "conn_eventcb 0 40 (pl_server p) = (Inr (), s')"
    using p(2,3) by (auto simp: conn_eventcb_def prog_simps)
  with unlocked_walk [OF p] show ?thesis by blast
qed

end
