(* ===== verification/FileCast.thy ===== *)
theory FileCast
  imports Broadcast Download
begin

text \<open>
  A file for everyone, from end to end: \<open>SendFile\<close> writes a byte to every worker thread, the thread's
  \<open>notify_cb\<close> describes the file and sends its pages to every connection, and the client's worker
  stores and copies it.
\<close>

section \<open>The description\<close>

lemma json_build2_describe:
  "json_build2 J v (map (\<lambda>(k, x). (FILE_DESCRIBE, k, x)) kvs) = json_describe J v kvs"
  by (induction kvs arbitrary: v) (auto split: option.split)

definition template_members ::
    "'j jsonlib \<Rightarrow> string \<Rightarrow> string \<Rightarrow> string \<Rightarrow> string \<Rightarrow> int \<Rightarrow> (string \<times> 'j) list" where
  "template_members J strClass strFileName strCourse strPath nType =
     [(FILE_CLASS, js_of_string J strClass), (FILE_NAME, js_of_string J strFileName),
      (FILE_COURES, js_of_string J strCourse), (FILE_PATH, js_of_string J strPath),
      (FILE_TYPE, js_of_int J nType), (FILE_TEMPLATE, js_of_int J 1)]"

lemma template_described:
  assumes "json_objects (json L) is_obj" and "json_inserts (json L) is_obj"
    and "template_json L s name = Some root" and "js_index (json L) root FILE_DESCRIBE = Some (root, describe)"
  shows "described (json L) is_obj root describe
    (template_members (json L) (GetClass s) name (GetCourse s) (GetFile s) (GetType s))"
proof -
  let ?kvs = "template_members (json L) (GetClass s) name (GetCourse s) (GetFile s) (GetType s)"
  have "distinct (map fst ?kvs)" "?kvs \<noteq> []" by (simp_all add: template_members_def json_keys)
  then obtain root' describe' where r: "json_describe (json L) (js_null (json L)) ?kvs = Some root'"
    "described (json L) is_obj root' describe' ?kvs"
    by (rule json_describe_null [OF assms(1,2)])
  moreover have "root' = root"
    using r(1) assms(3) unfolding json_build2_describe [symmetric] by (simp add: template_json_def template_members_def)
  moreover from this have "describe' = describe" using r(2) assms(4) by (simp add: described_def)
  ultimately show ?thesis by simp
qed

section \<open>One thread's connections\<close>

lemma send_file_all_pages:
  assumes L: "sends_all L" and bevs: "\<forall>(k, w) \<in> set m. m_bev w = Some k"
    and len: "length c < 2147483648" and nul: "NUL \<notin> set c"
    and parse: "StringToJson L strMsg = Some js0"
    and path: "json_str2 (json L) js0 FILE_DESCRIBE FILE_PATH = Some (js1, filePath)"
    and content: "w_fs d (c_str filePath) = Some c"
    and desc: "js_index (json L) js1 FILE_DESCRIBE = Some (js2, describe)"
    and J: "\<And>i. i \<le> length c div 1024 \<Longrightarrow> page_json L describe (page_text c i) \<noteq> None"
    and p: "\<And>i. i \<le> length c div 1024 \<Longrightarrow>
      length (package_string (file_page_of L ''CXWJ'' describe c i)) < 2147483648"
  shows "send_file_all L strMsg m d = (Inr (), d\<lparr>w_sends := w_sends d @
    concat (map (\<lambda>(k, w). map (sent k) (file_pages L ''CXWJ'' describe c)) m)\<rparr>)"
  using bevs content
proof (induction m arbitrary: d)
  case Nil
  then show ?case by (simp add: prog_simps)
next
  case (Cons kw m)
  obtain k w where kw: "kw = (k, w)" by (cases kw)
  then have bev: "m_bev w = Some k" using Cons.prems(1) by auto
  note send = SendFileTo_all [OF L bev len nul parse path Cons.prems(2) desc J p]
  show ?case using Cons.IH [of "d\<lparr>w_sends := w_sends d @ map (sent k) (file_pages L ''CXWJ'' describe c)\<rparr>"]
      Cons.prems kw by (simp add: prog_simps send)
qed

lemma file_broadcast:
  assumes inv: "threads_up s" "sessions_ok L s" and i: "i < THREAD_NUMB" and idle: "bytes_of s i = []"
    and L: "sends_all L" "bev_made L"
    and J: "json_objects (json L) is_obj" and N: "json_inserts (json L) is_obj"
    and name: "file_name_of L strPath = Inr fname"
    and root: "template_json L (s\<lparr>m_nType := nType, m_strFilePath := strPath\<rparr>) fname = Some root"
    and parse: "StringToJson L (JsonToString L root) = Some root"
    and descr: "js_index (json L) root FILE_DESCRIBE = Some (root, describe)"
    and content: "w_fs (sv_world s) (c_str strPath) = Some c"
    and body: "length c < 2147483648" "NUL \<notin> set c"
    and js: "\<And>i. i \<le> length c div 1024 \<Longrightarrow> page_json L describe (page_text c i) \<noteq> None"
    and len: "length (concat (map package_string (file_pages L ''CXWJ'' describe c))) < 2147483648"
  shows "\<exists>s1 s2. SendFile L strPath nType s = (Inr 0, s1) \<and> notify_cb L i s1 = (Inr (), s2) \<and>
    (\<forall>fd. worker_of s i fd \<noteq> None \<longrightarrow>
       wire fd (drop (length (w_sends (sv_world s1))) (w_sends (sv_world s2))) =
         concat (map package_string (file_pages L ''CXWJ'' describe c)))"
proof -
  let ?s0 = "s\<lparr>m_nType := nType, m_strFilePath := strPath\<rparr>" and ?pages = "file_pages L ''CXWJ'' describe c"
  obtain t where t: "m_libevent_threads s ! i = Some t" using threads_up_nth [OF inv(1) i] by blast
  have at_s: "i < length (m_libevent_threads s)" using inv(1) i by (simp add: threads_up_def)
  have up0: "threads_up ?s0" using inv(1) by (simp add: threads_up_def)
  have bytes: "notify_bytes t = []" using idle t by (simp add: bytes_of_def)
  have t0: "m_libevent_threads ?s0 ! i = Some t" using t by simp
  have t_ok: "thread_ok L t" using sessions_ok_thread [OF inv(2) thread_at_Some [OF at_s t]] .
  obtain s1 r t1 where
    n: "andThen each_thread (\<lambda>is. andThen (notify_all L (CHR ''b'') is) (\<lambda>_. ret (0::int))) ?s0 = (Inr 0, s1)"
    and recv: "recv_byte i s1 = (Inr (Some (CHR ''b'')), r)" and at: "thread_at i r = (Inr t1, r)"
    and m1: "data_map t1 = data_map t"
    and r: "GetClass r = GetClass ?s0" "GetCourse r = GetCourse ?s0" "GetFile r = GetFile ?s0" "GetType r = GetType ?s0"
      "sv_world r = sv_world s1" "w_fs (sv_world s1) = w_fs (sv_world ?s0)"
    by (rule broadcast_received [OF up0 i t0 bytes L(1)]) (rule that)
  have give: "SendFile L strPath nType s = (Inr 0, s1)" using n by (simp add: SendFile_def prog_simps)
  have path0: "GetFile ?s0 = strPath" by (simp add: GetFile_def)
  then have de: "described (json L) is_obj root describe
      (template_members (json L) (GetClass ?s0) fname (GetCourse ?s0) strPath (GetType ?s0))"
    using template_described [OF J N root descr] by simp
  obtain root' where path: "json_str2 (json L) root FILE_DESCRIBE FILE_PATH = Some (root', strPath)"
    and desc: "js_index (json L) root' FILE_DESCRIBE = Some (root', describe)"
    by (rule described_str2 [OF J de, of FILE_PATH strPath]) (simp add: template_members_def)
  have short: "length (package_string (file_page_of L ''CXWJ'' describe c i)) < 2147483648"
    if "i \<le> length c div 1024" for i
    using that len by (rule file_page_short)
  define d' where "d' = (sv_world s1)\<lparr>w_sends := w_sends (sv_world s1) @
    concat (map (\<lambda>(k, w). map (sent k) ?pages) (data_map t))\<rparr>"
  have all: "send_file_all L (JsonToString L root) (data_map t) (sv_world s1) = (Inr (), d')"
    unfolding d'_def
    by (rule send_file_all_pages [OF L(1) thread_ok_sockets [OF t_ok L(2)] body parse path _ desc js short])
       (simp_all add: r(6) content)
  have "template_json L r fname = Some root" using root by (simp add: template_json_def r)
  then have cb: "notify_cb L i s1 = (Inr (), r\<lparr>sv_world := d'\<rparr>)"
    using recv at name all
    by (simp add: notify_cb_def handle_byte_def prog_simps in_world_def r(3,5) path0 m1)
  have wires: "wire fd (drop (length (w_sends (sv_world s1))) (w_sends (sv_world (r\<lparr>sv_world := d'\<rparr>)))) =
      concat (map package_string ?pages)" if on: "worker_of s i fd \<noteq> None" for fd
  proof -
    obtain w where "(fd, w) \<in> set (data_map t)" "distinct (map fst (data_map t))"
      using connected_wire [OF t_ok t on] .
    then show ?thesis by (simp add: d'_def wire_many)
  qed
  show ?thesis by (intro exI conjI allI impI) (rule give, rule cb, erule wires)
qed

end
