(* ===== verification/CastProps.thy ===== *)
theory CastProps
  imports SessionProps FileCast
begin

text \<open>
  A file for everyone: from \<open>SendFile\<close> on the server to the directories of the clients.
\<close>

text \<open>C16: sending an existing file without zero bytes reaches the clients: after \<open>SendFile\<close>,
  once a worker thread with no other notification waiting has handled its own, every client
  connected to that thread whose worker, intact and with nothing unread, processes what came over
  its socket has a file of exactly the same content in its directory for that type. Conditions:
  sizes are below 2 to the 31; sockets take everything and libevent makes the bufferevents; no
  page's JSON text holds the marker TCPTAIL, and description and pages are read back by the JSON
  parser; the client can store and copy files, and the type has a directory.\<close>

theorem file_reaches_clients:
  assumes "reachable (pool_init L E) (pool_step L) p" and "i < THREAD_NUMB"
    and "bytes_of (pl_server p) i = []" and "sends_all L" and "bev_made L"
    and "json_objects (json L) is_obj" and "json_inserts (json L) is_obj"
    and "json Lc = json L" and "\<not> SERVER Lc"
    and "file_name_of L strPath = Inr fname"
    and "template_json L ((pl_server p)\<lparr>m_nType := nType, m_strFilePath := strPath\<rparr>) fname = Some root"
    and "StringToJson L (JsonToString L root) = Some root"
    and "js_index (json L) root FILE_DESCRIBE = Some (root, describe)"
    and "w_fs (sv_world (pl_server p)) (c_str strPath) = Some content"
    and "length content < 2147483648" and "NUL \<notin> set content"
    and "\<forall>i \<le> length content div 1024. page_roundtrip Lc describe (page_text content i)"
    and "\<forall>p \<in> set (file_pages Lc ''CXWJ'' describe content). wf_package p"
    and "length (concat (map package_string (file_pages Lc ''CXWJ'' describe content))) < 2147483648"
    and "worker_of (pl_server p) i fd \<noteq> None"
    and "client_worker_ok bev cw" and "m_strData cw = []"
    and "files_at Lc (c_str (upload_path Lc (GetClass (pl_server p)) fname))"
    and "GetDirectory Lc nType fname = Inr dst"
    and "copies Lc (c_str (upload_path Lc (GetClass (pl_server p)) fname)) (c_str dst)"
  shows "\<exists>s1 s2 cw' cd'. SendFile L strPath nType (pl_server p) = (Inr 0, s1) \<and>
    notify_cb L i s1 = (Inr (), s2) \<and>
    Process Lc (client_handlers Lc)
      (wire fd (drop (length (w_sends (sv_world s1))) (w_sends (sv_world s2)))) (cw, cd) = (Inr Drained, (cw', cd')) \<and>
    w_fs cd' (c_str dst) = Some content"
proof -
  let ?s = "pl_server p" and ?after = "(pl_server p)\<lparr>m_nType := nType, m_strFilePath := strPath\<rparr>"
  have up: "threads_up ?s" using pool.reachable_inv [OF assms(1)] by (simp add: pool_inv_def)
  have ok: "sessions_ok L ?s" using sessions.reachable_inv [OF assms(1)] by (simp add: session_inv_def)
  have pages: "file_pages Lc ''CXWJ'' describe content = file_pages L ''CXWJ'' describe content"
    by (rule file_pages_cong [OF assms(8)])
  have page: "page_json L describe t = page_json Lc describe t" for t
    unfolding page_json_def assms(8) by simp
  have "page_json L describe (page_text content i) \<noteq> None" if "i \<le> length content div 1024" for i
    using assms(17) that by (auto simp: page page_roundtrip_def split: option.splits)
  then obtain s1 s2 where s: "SendFile L strPath nType ?s = (Inr 0, s1)" "notify_cb L i s1 = (Inr (), s2)"
    "wire fd (drop (length (w_sends (sv_world s1))) (w_sends (sv_world s2))) =
       concat (map package_string (file_pages Lc ''CXWJ'' describe content))"
    using file_broadcast [OF up ok assms(2-7,10-16) _ assms(19) [unfolded pages]] assms(20) unfolding pages by blast
  have de: "described (json Lc) is_obj root describe
      (template_members (json Lc) (GetClass ?after) fname (GetCourse ?after) (GetFile ?after) (GetType ?after))"
    using template_described [OF assms(6,7,11,13)] by (simp add: assms(8))
  have J: "json_objects (json Lc) is_obj" using assms(6,8) by simp
  have mem: "member_str (json Lc) describe FILE_CLASS (GetClass ?s)" "member_str (json Lc) describe FILE_NAME fname"
    "member_int (json Lc) describe FILE_TYPE nType"
    using de by (simp_all add: described_def template_members_def member_str_def member_int_def
        json_objects_values [OF J] GetClass_def GetType_def)
  have obj: "is_obj describe" using de by (simp add: described_def)
  from client_stores_file [OF J obj assms(9) mem assms(23-25,17-19,21,22), of cd] s show ?thesis by auto
qed

definition cast_describe :: jval where
  "cast_describe = JObj [(FILE_CLASS, JStr []), (FILE_NAME, JStr ''f''), (FILE_COURES, JStr []),
     (FILE_PATH, JStr ''/f''), (FILE_TYPE, JInt 1), (FILE_TEMPLATE, JInt 1)]"

abbreviation cast_values :: "jval list" where
  "cast_values \<equiv> [demo_page cast_describe, demo_request cast_describe]"

definition cast_libs :: "(jval, demo_db) libs" where
  "cast_libs = class_libs\<lparr>json := demo_json cast_values\<rparr>"

lemma cast_libs_fields [simp]:
  "json cast_libs = demo_json cast_values" "sends_all cast_libs" "bev_made cast_libs"
  by (simp_all add: cast_libs_def class_libs_def demo_libs_def sends_all_def bev_made_def send_whole_def)

lemma cast_steady: "steady_class cast_libs datahelper.m_bConnect strClass class_text"
  by (simp add: steady_class_def Display_def connect_if_needed_def IsConnect_def run_query_def store_result_def
      prog_simps cast_libs_def class_libs_def demo_libs_def demo_mysql_def class_table_def class_text_def print_header_def Let_def)

lemma cast_class: "skbj_json cast_libs strClass strCourse class_text = Some (class_value strClass strCourse)"
  by (simp add: skbj_json_def class_value_def json_keys) (simp add: demo_json_def json_keys)

lemma cast_written: "JsonToString cast_libs v = demo_text v"
  by (simp add: JsonToString_def) (simp add: demo_json_def)

lemma cast_texts:
  "str_find PAGTAIL (demo_text (demo_page cast_describe)) = None" "length (demo_text (demo_page cast_describe)) < 500"
  by code_simp+

text \<open>A served connection on a server that has the file.\<close>

lemma cast_pool:
  "\<exists>p. reachable (pool_init cast_libs sample_os) (pool_step cast_libs) p \<and>
     worker_of (pl_server p) 0 40 \<noteq> None \<and> bytes_of (pl_server p) 0 = [] \<and>
     GetClass (pl_server p) = [] \<and> GetCourse (pl_server p) = [] \<and>
     w_fs (sv_world (pl_server (p :: demo_db pool))) = [''/f'' \<mapsto> ''abc'']"
proof -
  let ?d = "demo_world [''/f'' \<mapsto> ''abc'']"
  have db: "datahelper.m_bConnect (w_db ?d)" by (simp add: demo_world_def fresh_db_def)
  have len: "length (JsonToString cast_libs (class_value [] [])) < 1024"
    using class_value_text(1) by (simp add: cast_written)
  obtain p :: "demo_db pool" and t w where p: "reachable (pool_init cast_libs sample_os) (pool_step cast_libs) p"
    "thread_at 0 (pl_server p) = (Inr t, pl_server p)" "data_map t = sm_put 40 w []" "notify_bytes t = []"
    "GetClass (pl_server p) = []" "GetCourse (pl_server p) = []" "w_fs (sv_world (pl_server p)) = w_fs ?d"
    using first_connection_served [OF sample_os_ok cast_libs_fields(2,3) cast_steady db cast_class len, of 40] by blast
  moreover have "m_libevent_threads (pl_server p) ! 0 = Some t" using thread_at_InrD [OF p(2)] by simp
  ultimately show ?thesis
    by (intro exI [of _ p]) (simp add: worker_of_def bytes_of_def demo_world_def)
qed

theorem file_reaches_clients_witness:
  "\<exists>p s1 s2 cw' cd'. SendFile cast_libs ''/f'' 1 (pl_server (p :: demo_db pool)) = (Inr 0, s1) \<and>
    notify_cb cast_libs 0 s1 = (Inr (), s2) \<and>
    Process (client_demo cast_values) (client_handlers (client_demo cast_values))
      (wire 40 (drop (length (w_sends (sv_world s1))) (w_sends (sv_world s2))))
      (SetBev (Some 7) CClientWorker_new, demo_world Map.empty) = (Inr Drained, (cw', cd')) \<and>
    w_fs cd' (c_str fetch_path) = Some ''abc''"
proof -
  let ?Lc = "client_demo cast_values"
  obtain p :: "demo_db pool" where p: "reachable (pool_init cast_libs sample_os) (pool_step cast_libs) p"
    "worker_of (pl_server p) 0 40 \<noteq> None" "bytes_of (pl_server p) 0 = []"
    "GetClass (pl_server p) = []" "GetCourse (pl_server p) = []"
    "w_fs (sv_world (pl_server p)) = [''/f'' \<mapsto> ''abc'']"
    using cast_pool by blast
  have zero: "0 < THREAD_NUMB" by (simp add: THREAD_NUMB_def)
  have objects: "json_objects (json cast_libs) is_JObj" by (simp add: demo_json_objects)
  have inserts: "json_inserts (json cast_libs) is_JObj" by (simp add: json_inserts_def) (simp add: demo_json_def)
  have same: "json ?Lc = json cast_libs" by (simp add: demo_libs_json)
  have name: "file_name_of cast_libs ''/f'' = Inr ''f''" 
    by (simp add: file_name_of_def cast_libs_def class_libs_def demo_libs_def) code_simp
  have root: "template_json cast_libs ((pl_server p)\<lparr>m_nType := 1, m_strFilePath := ''/f''\<rparr>) ''f'' = Some (demo_request cast_describe)"
    using p(4,5) by (simp add: template_json_def GetClass_def GetCourse_def GetFile_def GetType_def)
      (simp add: json_set2_def demo_json_def demo_request_def cast_describe_def json_keys)
  have parse: "StringToJson cast_libs (JsonToString cast_libs (demo_request cast_describe)) = Some (demo_request cast_describe)"
    using demo_request_parse [OF cast_libs_fields(1)] by (simp add: cast_written)
  have descr: "js_index (json cast_libs) (demo_request cast_describe) FILE_DESCRIBE = Some (demo_request cast_describe, cast_describe)"
    by (simp add: demo_request_describes)
  have dir: "GetDirectory ?Lc 1 ''f'' = Inr fetch_path"
    by (simp add: GetDirectory_def demo_libs_def TeachProgramDirect_def)
  note r = file_reaches_clients [OF p(1) zero p(3) cast_libs_fields(2,3) objects inserts same _ name root parse descr _ _ _
      demo_page_roundtrips [OF demo_libs_json] demo_pages_wire [OF demo_libs_json cast_texts] p(2) new_worker_ok _ _ dir,
      where bev = "Some 7" and cd = "demo_world Map.empty"]
  show ?thesis
    by (rule exI [of _ p], rule r)
       (simp_all add: p(6) c_str_def NUL_def files_at_def copies_def demo_libs_def SetBev_def CClientWorker_new_def
          cworker.defs CWorker_new_def)
qed

end
