(* ===== verification/Records.thy ===== *)
theory Records
  imports StudentManager
begin

text \<open>
  What the record keeping hands to the database: the statements of an operation, in order.
\<close>

lemma with_out_statement:
  "\<exists>r h'. with_out out (excuteSql L q) h = (Inr (r, out), h') \<and> sql_log h' = sql_log h @ [c_str q]"
  using excuteSql_total [of L q h] excuteSql_log [of L q h]
  by (cases "excuteSql L q h") (auto simp: with_out_def prog_simps)

text \<open>Recording an upload whose file is on the disk.\<close>

lemma UpFile_statements:
  assumes "js_parse (json L) strClass = Some v0"
    and "json_str (json L) v0 FILE_NAME = Some (v1, strFileName)"
    and "json_str (json L) v1 FILE_STUDENT = Some (v2, strStudentName)"
    and "json_str (json L) v2 FILE_CLASS = Some (v3, strClassName)"
    and "json_str (json L) v3 FILE_PATH = Some (v4, strPath)"
    and "json_str (json L) v4 DEVICE_NUMBER = Some (v5, strDeviceNumber)"
    and "json_str (json L) v5 FILE_COURES = Some (v6, strCourse)"
    and "json_int (json L) v6 FILE_TYPE = Some (v7, nType)"
    and "IsFileExist L fs (c_str strPath)"
    and "path = StringReplaceAll L strPath BACKSLASH (BACKSLASH @ BACKSLASH)"
    and "IsExistData L (upfile_exists_sql path) h = (Inr there, h1)"
  shows "\<exists>r h'. UpFile L fs strClass 0 h = (Inr (r, strClass), h') \<and> sql_log h' = sql_log h @
    [c_str (upfile_exists_sql path),
     c_str (if there
       then StringReplaceAll L (upfile_update_text strFileName strStudentName path strDeviceNumber strCourse nType)
              ''set,'' ''set ''
       else upfile_insert_sql strFileName strStudentName strClassName path strDeviceNumber strCourse nType)]"
proof -
  let ?upd = "StringReplaceAll L (upfile_update_text strFileName strStudentName path strDeviceNumber strCourse nType)
    ''set,'' ''set ''"
  let ?ins = "upfile_insert_sql strFileName strStudentName strClassName path strDeviceNumber strCourse nType"
  have log1: "sql_log h1 = sql_log h @ [c_str (upfile_exists_sql path)]"
    using IsExistData_log [of L "upfile_exists_sql path" h] assms(11) by simp
  have upd: "UpFile L fs strClass 3 h1 = with_out strClass (excuteSql L ?upd) h1"
    using assms(1-10) by (subst UpFile.simps) (simp add: get_str_def get_int_def prog_simps)
  have run: "UpFile L fs strClass 0 h = (if there then UpFile L fs strClass 3 h1
      else with_out strClass (excuteSql L ?ins) h1)"
    using assms by (subst UpFile.simps) (simp add: get_str_def get_int_def prog_simps Let_def)
  obtain r h' where "with_out strClass (excuteSql L (if there then ?upd else ?ins)) h1 = (Inr (r, strClass), h')"
    "sql_log h' = sql_log h1 @ [c_str (if there then ?upd else ?ins)]"
    using with_out_statement by blast
  then show ?thesis using run upd log1 by (intro exI [of _ r] exI [of _ h']) (auto split: if_splits)
qed

end
