(* ===== verification/DataProps.thy ===== *)
theory DataProps
  imports Programs Records DemoLibs
begin

text \<open>
  Properties of the database layer, of the record keeping on top of it, and of the exported
  query interface.
\<close>

section \<open>Samples for the witnesses\<close>

definition table_of :: "string option list list \<Rightarrow> myres" where
  "table_of rows = \<lparr>res_fields = [''name'', ''class''], res_rows = rows\<rparr>"

lemmas db_eval = run_query_def store_result_def connect_if_needed_def IsConnect_def fresh_db_def
  demo_libs_def demo_mysql_def demo_json_def prog_simps

section \<open>Statements\<close>

text \<open>\<open>excuteSql\<close> hands the database exactly the one statement it is given, up to its first zero
  byte, and answers \<open>0\<close> or \<open>-1\<close>, also when the connection could not be opened.\<close>

lemma excuteSql_one_statement:
  "sql_log (snd (excuteSql L s h)) = sql_log h @ [c_str s] \<and> fst (excuteSql L s h) \<in> {Inr 0, Inr (-1)}"
  using excuteSql_log [of L s h] excuteSql_total [of L s h] by simp

text \<open>The existence check runs its statement on the handle as it is: it never opens the connection.\<close>

lemma IsExistData_never_connects:
  "datahelper.m_bConnect (snd (IsExistData L s h)) = datahelper.m_bConnect h \<and>
   sql_log (snd (IsExistData L s h)) = sql_log h @ [c_str s]"
  using IsExistData_flag [of L s h] IsExistData_log [of L s h] by simp

text \<open>A result without NULL columns is printed as a line of column names and one line per row, each
  entry followed by two tabs.\<close>

lemma Display_prints_table:
  assumes "connect_if_needed L h = (Inr (), h1)" and "run_query L s h1 = (Inr 0, h2)"
    and "store_result L h2 = (Inr (Some res), h3)"
    and "\<forall>row \<in> set (res_rows res). length row = length (res_fields res) \<and> None \<notin> set row"
  shows "Display L s out h =
    (Inr (no_return L, print_header (res_fields res) @
       concat (map (\<lambda>row. concat (map (\<lambda>x. the x @ TAB2) row) @ NEWLINE) (res_rows res))), h3)"
  using assms print_rows_ok [OF assms(4)] by (simp add: Display_def prog_simps)

text \<open>A NULL column in any row of the result makes printing it undefined: a null \<open>char*\<close> is streamed.\<close>

lemma Display_null_column:
  assumes "connect_if_needed L h = (Inr (), h1)" and "run_query L s h1 = (Inr 0, h2)"
    and "store_result L h2 = (Inr (Some res), h3)"
    and "\<forall>row \<in> set (res_rows res). length row = length (res_fields res)"
    and "\<exists>row \<in> set (res_rows res). None \<in> set row"
  shows "fst (Display L s out h) = Inl (UB Null_char_to_stream)"
  using assms print_rows_null [OF assms(4,5)] by (simp add: Display_def prog_simps)

section \<open>Records\<close>

text \<open>\<open>GetFiles\<close> runs exactly one statement, the union over the upload table and the download table
  for the class and the student, as they were given: quotes in them are not escaped.\<close>

lemma GetFiles_one_statement:
  "sql_log (snd (GetFiles L strClass strStudent strOut h)) = sql_log h @ [c_str (files_sql strClass strStudent)]"
  by (simp add: GetFiles_def Display_log)

text \<open>C38: a class name and a student name of together 55 bytes or more run over the 128-byte buffer of
  \<open>Student\<close>, for every operation, the view included, before any statement is run.\<close>

theorem long_names_overflow:
  assumes "js_parse (json L) strStudent = Some v0"
    and "json_str (json L) v0 ''name'' = Some (v1, strName)"
    and "json_str (json L) v1 ''className'' = Some (v2, strClassName)"
    and "json_str (json L) v2 ''deviceIP'' = Some (v3, ip)"
    and "json_str (json L) v3 ''deviceNumber'' = Some (v4, number)"
    and "55 \<le> length (c_str strName) + length (c_str strClassName)"
  shows "Student L strStudent op h = (Inl (UB Buffer_overflow), h)"
proof -
  have "128 \<le> length (student_exists_sql strClassName strName)"
    using assms(6) by (simp add: student_exists_sql_def quoted_def QUOTE_def)
  then show ?thesis using assms(1-5) by (simp add: Student_def get_str_def prog_simps sprintf128_def)
qed

definition long_student :: jval where
  "long_student = JObj [(''name'', JStr (replicate 55 (CHR ''a''))), (''className'', JStr ''c''),
     (''deviceIP'', JStr ''1''), (''deviceNumber'', JStr ''2'')]"

theorem long_names_overflow_witness:
  "Student (demo_libs True [long_student] True [] send_whole) (demo_text long_student) 2 (fresh_db []) =
     (Inl (UB Buffer_overflow), fresh_db [])"
proof (rule long_names_overflow)
  show "55 \<le> length (c_str (replicate 55 (CHR ''a''))) + length (c_str ''c'')"
    by (subst c_str_id) (simp_all add: NUL_def)
qed ((simp_all add: demo_libs_def demo_json_def json_str_def long_student_def)+)

text \<open>Recording an upload whose file is not on the disk runs no statement and answers \<open>0\<close>.\<close>

lemma missing_upload_is_silent:
  assumes "js_parse (json L) strClass = Some v0"
    and "json_str (json L) v0 FILE_NAME = Some (v1, strFileName)"
    and "json_str (json L) v1 FILE_STUDENT = Some (v2, strStudentName)"
    and "json_str (json L) v2 FILE_CLASS = Some (v3, strClassName)"
    and "json_str (json L) v3 FILE_PATH = Some (v4, strPath)"
    and "json_str (json L) v4 DEVICE_NUMBER = Some (v5, strDeviceNumber)"
    and "json_str (json L) v5 FILE_COURES = Some (v6, strCourse)"
    and "json_int (json L) v6 FILE_TYPE = Some (v7, nType)"
    and "\<not> IsFileExist L fs (c_str strPath)"
  shows "UpFile L fs strClass 0 h = (Inr (0, strClass), h)"
  using assms by (subst UpFile.simps) (simp add: get_str_def get_int_def prog_simps)

definition upload_value :: jval where
  "upload_value = JObj [(FILE_NAME, JStr ''f''), (FILE_STUDENT, JStr ''s''), (FILE_CLASS, JStr ''c''),
     (FILE_PATH, JStr ''/p''), (DEVICE_NUMBER, JStr ''d''), (FILE_COURES, JStr ''k''), (FILE_TYPE, JInt 1)]"

lemmas upload_eval = demo_libs_def demo_json_def json_str_def json_int_def upload_value_def json_keys

text \<open>C29: recording an upload that is on the disk asks for its path first, and then runs one statement
  more: the update of the row when the path is there already, the insertion of a row otherwise.\<close>

theorem upload_inserts_or_updates:
  assumes "js_parse (json L) strClass = Some v0"
    and "json_str (json L) v0 FILE_NAME = Some (v1, strFileName)"
    and "json_str (json L) v1 FILE_STUDENT = Some (v2, strStudentName)"
    and "json_str (json L) v2 FILE_CLASS = Some (v3, strClassName)"
    and "json_str (json L) v3 FILE_PATH = Some (v4, strPath)"
    and "json_str (json L) v4 DEVICE_NUMBER = Some (v5, strDeviceNumber)"
    and "json_str (json L) v5 FILE_COURES = Some (v6, strCourse)"
    and "json_int (json L) v6 FILE_TYPE = Some (v7, nType)"
    and "IsFileExist L fs (c_str strPath)"
    and "path = StringReplaceAll L strPath BACKSLASH (BACKSLASH @ BACKSLASH)"
    and "IsExistData L (upfile_exists_sql path) h = (Inr there, h1)"
  shows "sql_log (snd (UpFile L fs strClass 0 h)) = sql_log h @
    [c_str (upfile_exists_sql path),
     c_str (if there
       then StringReplaceAll L (upfile_update_text strFileName strStudentName path strDeviceNumber strCourse nType)
              ''set,'' ''set ''
       else upfile_insert_sql strFileName strStudentName strClassName path strDeviceNumber strCourse nType)]"
  using UpFile_statements [OF assms] by auto

theorem upload_inserts_or_updates_witness:
  "sql_log (snd (UpFile (demo_libs True [upload_value] True [] send_whole) [''/p'' \<mapsto> ''x''] (demo_text upload_value) 0
      (fresh_db [Some (table_of [])]))) = sql_log (fresh_db [Some (table_of [])]) @
    [c_str (upfile_exists_sql ''/p''),
     c_str (if False then StringReplaceAll (demo_libs True [upload_value] True [] send_whole)
         (upfile_update_text ''f'' ''s'' ''/p'' ''d'' ''k'' 1) ''set,'' ''set ''
       else upfile_insert_sql ''f'' ''s'' ''c'' ''/p'' ''d'' ''k'' 1)]"
  by (rule upload_inserts_or_updates)
     ((simp_all add: upload_eval db_eval IsExistData_def table_of_def c_int_def c_str_def NUL_def)+)

text \<open>C30: adding a student whose four members can be read as strings, of whatever length: if the text of
  the search for the row does not fit the buffer of 128 bytes, the buffer overflows before any
  statement is run; otherwise the search runs, and a row that is there already, or a missing device
  address, ends the call without another statement. Then the text of the insertion is written first:
  if it does not fit, the buffer overflows before the device is looked at; otherwise the search for
  the device runs, and exactly one row is inserted, only when the device is known.\<close>

theorem student_needs_device:
  assumes "js_parse (json L) s = Some v0"
    and "get_str L v0 ''name'' h = (Inr (v1, name), h)"
    and "get_str L v1 ''className'' h = (Inr (v2, cls), h)"
    and "get_str L v2 ''deviceIP'' h = (Inr (v3, ip), h)"
    and "get_str L v3 ''deviceNumber'' h = (Inr (v4, number), h)"
    and "IsExistData L (student_exists_sql cls name) h = (Inr there, h1)"
    and "IsExistData L (student_device_sql ip number) h1 = (Inr device, h2)"
  shows "sql_log (snd (Student L s 0 h)) = sql_log h @
      (if \<not> length (student_exists_sql cls name) < 128 then []
       else c_str (student_exists_sql cls name) #
         (if there \<or> ip = [] \<or> \<not> length (student_insert_sql name cls number ip) < 128 then []
          else c_str (student_device_sql ip number) #
            (if device then [c_str (student_insert_sql name cls number ip)] else []))) \<and>
    (fst (Student L s 0 h) = Inl (UB Buffer_overflow) \<or> (\<exists>n out. fst (Student L s 0 h) = Inr (n, out))) \<and>
    (fst (Student L s 0 h) = Inl (UB Buffer_overflow) \<longleftrightarrow>
       \<not> length (student_exists_sql cls name) < 128 \<or>
       \<not> there \<and> ip \<noteq> [] \<and> \<not> length (student_insert_sql name cls number ip) < 128)"
proof -
  have run: "Student L s 0 h =
      (if \<not> length (student_exists_sql cls name) < 128 then (Inl (UB Buffer_overflow), h)
       else if there \<or> ip = [] then (Inr (-1, s), h1)
       else if \<not> length (student_insert_sql name cls number ip) < 128 then (Inl (UB Buffer_overflow), h1)
       else if device then with_out s (excuteSql L (student_insert_sql name cls number ip)) h2
       else (Inr (-1, s), h2))"
    using assms by (simp add: Student_def prog_simps sprintf128_def)
  have "sql_log h1 = sql_log h @ [c_str (student_exists_sql cls name)]"
    using IsExistData_log [of L "student_exists_sql cls name" h] assms(6) by simp
  moreover have "sql_log h2 = sql_log h1 @ [c_str (student_device_sql ip number)]"
    using IsExistData_log [of L "student_device_sql ip number" h1] assms(7) by simp
  moreover obtain n h3 where "with_out s (excuteSql L (student_insert_sql name cls number ip)) h2 = (Inr (n, s), h3)"
    "sql_log h3 = sql_log h2 @ [c_str (student_insert_sql name cls number ip)]"
    using with_out_statement [of s L "student_insert_sql name cls number ip" h2] by blast
  ultimately show ?thesis using run by auto
qed

definition short_student :: jval where
  "short_student = JObj [(''name'', JStr ''n''), (''className'', JStr ''c''),
     (''deviceIP'', JStr ''1''), (''deviceNumber'', JStr ''2'')]"

theorem student_needs_device_witness:
  "sql_log (snd (Student (demo_libs True [short_student] True [] send_whole) (demo_text short_student) 0
      (fresh_db [Some (table_of []), Some (table_of [[Some ''2'', Some ''1'']])]))) =
    [c_str (student_exists_sql ''c'' ''n''), c_str (student_device_sql ''1'' ''2''),
     c_str (student_insert_sql ''n'' ''c'' ''2'' ''1'')]"
proof -
  let ?L = "demo_libs True [short_student] True [] send_whole"
  let ?h = "fresh_db [Some (table_of []), Some (table_of [[Some ''2'', Some ''1'']])]"
  let ?h1 = "(fresh_db [Some (table_of [[Some ''2'', Some ''1'']])])\<lparr>sql_log := [c_str (student_exists_sql ''c'' ''n'')]\<rparr>"
  let ?h2 = "(fresh_db [])\<lparr>sql_log := [c_str (student_exists_sql ''c'' ''n''), c_str (student_device_sql ''1'' ''2'')]\<rparr>"
  have fits: "length (student_exists_sql ''c'' ''n'') < 128" "length (student_insert_sql ''n'' ''c'' ''2'' ''1'') < 128"
    by (simp_all add: student_exists_sql_def student_insert_sql_def quoted_def QUOTE_def c_str_def NUL_def)
  have e: "IsExistData ?L (student_exists_sql ''c'' ''n'') ?h = (Inr False, ?h1)"
    "IsExistData ?L (student_device_sql ''1'' ''2'') ?h1 = (Inr True, ?h2)"
    by (simp_all add: db_eval IsExistData_def table_of_def c_int_def)
  have g: "js_parse (json ?L) (demo_text short_student) = Some short_student"
    "get_str ?L short_student ''name'' ?h = (Inr (short_student, ''n''), ?h)"
    "get_str ?L short_student ''className'' ?h = (Inr (short_student, ''c''), ?h)"
    "get_str ?L short_student ''deviceIP'' ?h = (Inr (short_student, ''1''), ?h)"
    "get_str ?L short_student ''deviceNumber'' ?h = (Inr (short_student, ''2''), ?h)"
    by (simp_all add: get_str_def prog_simps demo_libs_def demo_json_def json_str_def short_student_def)
  show ?thesis
    using student_needs_device [OF g e] fits by (simp add: fresh_db_def)
qed

section \<open>The query interface\<close>

text \<open>Whatever \<open>QueryFromUpper\<close> leaves in the result pointer, given a null one, can be freed by
  \<open>LpFree\<close>, which leaves null, so that freeing twice is harmless.\<close>

lemma query_result_freed:
  assumes "QueryFromUpper L cmd key Null h = (Inr (ok, p), h')"
  shows "LpFree p = Inr (True, Null) \<and> LpFree (Null :: string ptr) = Inr (True, Null)"
proof -
  have "p = Null \<or> (\<exists>s. p = Live s)"
    using assms
    by (auto simp: QueryFromUpper_def prog_simps split: if_splits option.splits sum.splits prod.splits)
  then show ?thesis by (auto simp: LpFree_def free_if_set_def)
qed

text \<open>A successful query answers false when the value \<open>Display\<close> happens to return is not zero:
  its result on success is indeterminate.\<close>

lemma query_success_indeterminate:
  assumes "connect_if_needed L h = (Inr (), h1)" and "run_query L (c_str key) h1 = (Inr 0, h2)"
    and "store_result L h2 = (Inr (Some res), h3)"
    and "\<forall>row \<in> set (res_rows res). length row = length (res_fields res) \<and> None \<notin> set row"
  shows "\<exists>p. QueryFromUpper L MYSQL_GETDATA (Some key) Null h =
    (Inr (no_return L = 0, if no_return L = 0 then Live p else Null), h3)"
  using assms print_rows_ok [OF assms(4)]
  by (simp add: QueryFromUpper_def MYSQL_GETDATA_def MYSQL_CONNECT_def MYSQL_EXXECUTE_def Display_def prog_simps)

end
