(* ===== verification/Upload.thy ===== *)
theory Upload
  imports Download Records
begin

text \<open>
  Two more requests from end to end: \<open>UpperFile\<close> sends a file, which the server's worker stores and
  records in the database; \<open>GetFileList\<close> asks for the list of files of a student and returns it.
\<close>

section \<open>Storing and recording an upload\<close>

text \<open>The members of the description of an uploaded file.\<close>

definition upper_members ::
    "'j jsonlib \<Rightarrow> string \<Rightarrow> string \<Rightarrow> string \<Rightarrow> string \<Rightarrow> string \<Rightarrow> string \<Rightarrow> int \<Rightarrow> (string \<times> 'j) list" where
  "upper_members J strClass strStudent strCoures strFileName strFilePath strDeviceNum nType =
     [(FILE_CLASS, js_of_string J strClass), (FILE_STUDENT, js_of_string J strStudent),
      (FILE_COURES, js_of_string J strCoures), (FILE_NAME, js_of_string J strFileName),
      (FILE_PATH, js_of_string J strFilePath), (FILE_TYPE, js_of_int J nType),
      (DEVICE_NUMBER, js_of_string J strDeviceNum)]"

lemma upper_described:
  assumes "json_objects J is_obj" and "json_inserts J is_obj"
    and "upper_json J cls student course fname fpath device nType = Some root"
    and "js_index J root FILE_DESCRIBE = Some (root, describe)"
  shows "described J is_obj root describe (upper_members J cls student course fname fpath device nType)"
proof -
  let ?kvs = "upper_members J cls student course fname fpath device nType"
  have "distinct (map fst ?kvs)" "?kvs \<noteq> []" by (simp_all add: upper_members_def json_keys)
  then obtain root' describe' where r: "json_describe J (js_null J) ?kvs = Some root'" "described J is_obj root' describe' ?kvs"
    by (rule json_describe_null [OF assms(1,2)])
  moreover have "root' = root" using r(1) assms(3) by (simp add: upper_json_def upper_members_def)
  moreover from this have "describe' = describe" using r(2) assms(4) by (simp add: described_def)
  ultimately show ?thesis by simp
qed

text \<open>The server's command for a complete file hands it to \<open>UpFile\<close>, with the stored path.\<close>

definition stored_statements ::
    "('j, 'd) libs \<Rightarrow> string \<Rightarrow> string \<Rightarrow> string \<Rightarrow> string \<Rightarrow> string \<Rightarrow> string \<Rightarrow> int \<Rightarrow> bool \<Rightarrow> string list" where
  "stored_statements L path fname student cls course device nType there =
     [c_str (upfile_exists_sql path),
      c_str (if there
        then StringReplaceAll L (upfile_update_text fname student path device course nType) ''set,'' ''set ''
        else upfile_insert_sql fname student cls path device course nType)]"

lemma server_file_recorded:
  assumes J: "json_objects (json L) is_obj"
    and d: "described (json L) is_obj root describe (upper_members (json L) cls student course fname fpath device nType)"
    and put: "js_put (json L) describe FILE_PATH (js_of_string (json L) spath) = Some describe'"
    and parse: "js_parse (json L) (js_write (json L) describe') = Some describe'"
    and there: "IsFileExist L (w_fs dd) (c_str spath)"
    and path: "path = StringReplaceAll L spath BACKSLASH (BACKSLASH @ BACKSLASH)"
    and found: "IsExistData L (upfile_exists_sql path) (w_db dd) = (Inr b, h1)"
    and w: "server_worker_ok bev w"
  shows "\<exists>w' h'. server_excuteFile L ''CXWJ'' describe' (w, dd) = (Inr (), (w', dd\<lparr>w_db := h'\<rparr>)) \<and>
    server_worker_ok bev w' \<and>
    sql_log h' = sql_log (w_db dd) @ stored_statements L path fname student cls course device nType b"
proof -
  let ?J = "json L" and ?kvs = "upper_members (json L) cls student course fname fpath device nType"
  have obj: "is_obj describe" using d by (simp add: described_def)
  obtain v where v: "js_put ?J describe FILE_PATH (js_of_string ?J spath) = Some v" "is_obj v"
    "js_index ?J v FILE_PATH = Some (v, js_of_string ?J spath)"
    using json_objects_set [OF J disjI1 [OF obj], of FILE_PATH "js_of_string ?J spath"] by blast
  have v': "v = describe'" using v(1) put by simp
  have keep: "js_index ?J describe' k = Some (describe', x)" if "(k, x) \<in> set ?kvs" "k \<noteq> FILE_PATH" for k x
    using that d json_objects_keep [OF J disjI1 [OF obj] put that(2), of x] by (auto simp: described_def)
  have str: "json_str ?J describe' k = Some (describe', s)" if "(k, js_of_string ?J s) \<in> set ?kvs" "k \<noteq> FILE_PATH" for k s
    using keep [OF that] by (simp add: json_str_def json_objects_values [OF J])
  have members: "json_str ?J describe' FILE_NAME = Some (describe', fname)"
    "json_str ?J describe' FILE_STUDENT = Some (describe', student)"
    "json_str ?J describe' FILE_CLASS = Some (describe', cls)"
    "json_str ?J describe' FILE_PATH = Some (describe', spath)"
    "json_str ?J describe' DEVICE_NUMBER = Some (describe', device)"
    "json_str ?J describe' FILE_COURES = Some (describe', course)"
    "json_int ?J describe' FILE_TYPE = Some (describe', nType)"
    using str v(3) v' keep [of FILE_TYPE "js_of_int ?J nType"]
    by (simp_all add: upper_members_def json_keys json_int_def json_objects_values [OF J] json_str_def)
  obtain r h' where up: "UpFile L (w_fs dd) (js_write ?J describe') 0 (w_db dd) = (Inr (r, js_write ?J describe'), h')"
    "sql_log h' = sql_log (w_db dd) @ stored_statements L path fname student cls course device nType b"
    using UpFile_statements [OF parse members there path found] unfolding stored_statements_def by blast
  have find: "sm_find ''CXWJ'' (s_fileType w) = Some SF_CXWJ"
    using w by (simp add: server_worker_ok_def server_tables_ok_def server_files_def)
  then have "lookup_server_file ''CXWJ'' (w, dd) = (Inr SF_CXWJ, (w\<lparr>s_fileType := s_fileType w\<rparr>, dd))"
    by (simp add: lookup_server_file_def sm_at_def)
  then have "server_excuteFile L ''CXWJ'' describe' (w, dd) =
      (Inr (), (w\<lparr>s_fileType := s_fileType w\<rparr>, dd\<lparr>w_db := h'\<rparr>))"
    using up(1) by (simp add: server_excuteFile_def server_CommanCXWJ_def on_db_def prog_simps)
  then show ?thesis using up(2) w by (intro exI [of _ w] exI [of _ h']) simp
qed

lemma upload:
  assumes J: "json_objects (json Ls) is_obj" and N: "json_inserts (json Ls) is_obj" and same: "json Lc = json Ls"
    and Lc: "sends_all Lc" and c: "m_bConnect c \<noteq> 0" "m_spWorker c = Some w" "m_bev w = Some fd"
    and root: "upper_json (json Lc) cls student course fname fpath device nType = Some root"
    and parse: "StringToJson Lc (js_write (json Lc) root) = Some root"
    and content: "w_fs (cl_world c) (c_str fpath) = Some text"
    and body: "length text < 2147483648" "NUL \<notin> set text"
    and descr: "js_index (json Ls) root FILE_DESCRIBE = Some (root, describe)"
    and name: "describes_name Ls describe name"
    and files: "files_at Ls (c_str (upload_path Ls cls name))"
    and rt: "\<forall>i \<le> length text div 1024. page_roundtrip Ls describe (page_text text i)"
    and wf: "\<forall>p \<in> set (file_pages Ls ''CXWJ'' describe text). wf_package p"
    and len: "length (concat (map package_string (file_pages Ls ''CXWJ'' describe text))) < 2147483648"
    and sw: "server_worker_ok (Some sfd) sw" "m_strData sw = []"
    and put: "js_put (json Ls) describe FILE_PATH (js_of_string (json Ls) (upload_path Ls cls name)) = Some describe'"
    and reparse: "js_parse (json Ls) (js_write (json Ls) describe') = Some describe'"
    and path: "path = StringReplaceAll Ls (upload_path Ls cls name) BACKSLASH (BACKSLASH @ BACKSLASH)"
    and found: "IsExistData Ls (upfile_exists_sql path) (w_db sd) = (Inr b, h1)"
  shows "\<exists>c' sw' sd'. UpperFile Lc cls student course fname fpath device nType c = (Inr (no_return Lc), c') \<and>
    Process Ls (server_handlers Ls) (wire fd (drop (length (w_sends (cl_world c))) (w_sends (cl_world c')))) (sw, sd) =
      (Inr Drained, (sw', sd')) \<and>
    w_fs sd' (c_str (upload_path Ls cls name)) = Some text \<and>
    sql_log (w_db sd') = sql_log (w_db sd) @ stored_statements Ls path fname student cls course device nType b"
proof -
  let ?J = "json Ls" and ?pages = "file_pages Ls ''CXWJ'' describe text"
  have de: "described ?J is_obj root describe (upper_members ?J cls student course fname fpath device nType)"
    using upper_described [OF J N _ descr] root by (simp add: same)
  have obj: "is_obj describe" using de by (simp add: described_def)
  have mem: "member_str ?J describe FILE_CLASS cls"
    using de by (simp add: described_def upper_members_def member_str_def json_objects_values [OF J])
  obtain root' where fpath: "json_str2 ?J root FILE_DESCRIBE FILE_PATH = Some (root', fpath)"
    and desc: "js_index ?J root' FILE_DESCRIBE = Some (root', describe)"
    by (rule described_str2 [OF J de, of FILE_PATH fpath]) (simp add: upper_members_def)
  have page: "page_json Lc describe t = page_json Ls describe t" for t
    unfolding page_json_def same by simp
  have pages: "file_pages Lc ''CXWJ'' describe text = ?pages" by (rule file_pages_cong [OF same])
  let ?d1 = "(cl_world c)\<lparr>w_sends := w_sends (cl_world c) @ map (sent fd) ?pages\<rparr>"
  have send: "SendFileTo Lc w ''CXWJ'' (js_write (json Lc) root) (cl_world c) = (Inr (), ?d1)"
    unfolding pages [symmetric]
  proof (rule SendFileTo_all [OF Lc c(3) body parse])
    show "json_str2 (json Lc) root FILE_DESCRIBE FILE_PATH = Some (root', fpath)" using fpath by (simp add: same)
    show "w_fs (cl_world c) (c_str fpath) = Some text" by (rule content)
    show "js_index (json Lc) root' FILE_DESCRIBE = Some (root', describe)" using desc by (simp add: same)
    fix i assume i: "i \<le> length text div 1024"
    show "page_json Lc describe (page_text text i) \<noteq> None"
      using rt i by (auto simp: page page_roundtrip_def split: option.splits)
    show "length (package_string (file_page_of Lc ''CXWJ'' describe text i)) < 2147483648"
      using i len pages by (intro file_page_short) simp_all
  qed
  let ?c' = "c\<lparr>cl_world := ?d1\<rparr>"
  have upper: "UpperFile Lc cls student course fname fpath device nType c = (Inr (no_return Lc), ?c')"
    using c root send
    by (simp add: UpperFile_def SendFileToServer_def cl_in_world_def the_worker_def prog_simps)
  obtain describe2 dd' where r:
    "js_put ?J describe FILE_PATH (js_of_string ?J (upload_path Ls cls name)) = Some describe2"
    "w_fs dd' (c_str (upload_path Ls cls name)) = Some text" "same_elsewhere sd dd'"
    "\<And>w' d'. excuteFile (server_handlers Ls) ''CXWJ'' describe2 (sw, dd') = (Inr (), (w', d')) \<Longrightarrow>
       Process Ls (server_handlers Ls) (concat (map package_string ?pages)) (sw, sd) =
         (Inr Drained, (w'\<lparr>m_strData := []\<rparr>, d'))"
    using srv.receive_file [OF J obj mem name files rt wf len sw(2), of sd] by blast
  have same2: "describe2 = describe'" using r(1) put by simp
  have db: "w_db dd' = w_db sd" using r(3) by (simp add: same_elsewhere_def)
  have "IsFileExist Ls (w_fs dd') (c_str (upload_path Ls cls name))" using files r(2) by (simp add: files_at_def)
  then obtain w' h' where f: "server_excuteFile Ls ''CXWJ'' describe' (sw, dd') = (Inr (), (w', dd'\<lparr>w_db := h'\<rparr>))"
    "sql_log h' = sql_log (w_db dd') @ stored_statements Ls path fname student cls course device nType b"
    using server_file_recorded [OF J de put reparse _ path _ sw(1), of dd' b h1] found db by auto
  have "Process Ls (server_handlers Ls) (concat (map package_string ?pages)) (sw, sd) =
      (Inr Drained, (w'\<lparr>m_strData := []\<rparr>, dd'\<lparr>w_db := h'\<rparr>))"
    using r(4) f(1) by (simp add: same2 server_handlers_def)
  with upper r(2) f(2) db show ?thesis
    by (intro exI [of _ ?c'] exI [of _ "w'\<lparr>m_strData := []\<rparr>"] exI [of _ "dd'\<lparr>w_db := h'\<rparr>"]) (simp add: wire_sent)
qed

section \<open>The list of files\<close>

lemma list_root:
  assumes J: "json_objects J is_obj" and root: "client_list_json J cls student = Some root"
  shows "is_obj root \<and> json_str J root FILE_CLASS = Some (root, cls) \<and> json_str J root FILE_STUDENT = Some (root, student)"
proof -
  obtain v where v: "js_put J (js_null J) FILE_CLASS (js_of_string J cls) = Some v" "is_obj v"
    "js_index J v FILE_CLASS = Some (v, js_of_string J cls)"
    using json_objects_set [OF J disjI2 [OF refl], of FILE_CLASS "js_of_string J cls"] by blast
  obtain r where r: "js_put J v FILE_STUDENT (js_of_string J student) = Some r" "is_obj r"
    "js_index J r FILE_STUDENT = Some (r, js_of_string J student)"
    using json_objects_set [OF J disjI1 [OF v(2)], of FILE_STUDENT "js_of_string J student"] by blast
  have "js_index J r FILE_CLASS = Some (r, js_of_string J cls)"
    using v(3) by (intro json_objects_keep [OF J disjI1 [OF v(2)] r(1)]) (simp_all add: json_keys)
  moreover have "r = root" using root v(1) r(1) by (simp add: client_list_json_def)
  ultimately show ?thesis using r by (simp add: json_str_def json_objects_values [OF J])
qed

lemma server_list_answer:
  assumes L: "sends_all L" and J: "json_objects (json L) is_obj"
    and w: "server_worker_ok (Some fd) w" "m_strData w = []" "m_strMsgContent w = []"
    and root: "client_list_json (json L) cls student = Some root"
    and msg: "length msg < 1024" "str_find PAGTAIL msg = None" "StringToJson L msg = Some root"
    and db: "GetFiles L cls student [] (w_db d) = (Inr (r, s), h)"
    and ans: "js_put (json L) root FILE_LIST (js_of_string (json L) s) = Some answer"
    and len: "length (JsonToString L answer) < 1024"
  shows "\<exists>w' d'. Process L (server_handlers L) (package_string (first_page ''WJLB'' msg)) (w, d) =
      (Inr Drained, (w', d')) \<and> w_db d' = h \<and>
    w_sends d' = w_sends d @ [sent fd (first_page ''WJLB'' (JsonToString L answer))]"
proof -
  let ?w1 = "w\<lparr>m_strMsgContent := msg\<rparr>" and ?text = "JsonToString L answer"
  obtain w2 where l: "lookup_server_command ''WJLB'' (?w1, d) = (Inr S_WJLB, (w2, d))"
    and w2: "server_worker_ok (Some fd) w2"
    using w(1) by (elim server_finds [of "Some fd" ?w1, rotated -1]) (simp_all add: server_commands_def)
  let ?d1 = "d\<lparr>w_db := h\<rparr>"
  let ?d2 = "?d1\<lparr>w_sends := w_sends d @ [sent fd (first_page ''WJLB'' ?text)]\<rparr>"
  have "length (package_string (first_page ''WJLB'' ?text)) < 2147483648"
    by (rule first_page_short_length [OF len]) simp
  then have send: "SendMsgTo L w2 ''WJLB'' ?text ?d1 = (Inr (-1), ?d2)"
    using SendMsgTo_all [OF L, of w2 fd ?text "''WJLB''" ?d1] w2 len by (simp add: server_worker_ok_def sent_def)
  have "server_excuteCommand L ''WJLB'' msg (?w1, d) = (Inr (), (w2, ?d2))"
    using l send db ans msg(3) list_root [OF J root]
    by (simp add: server_excuteCommand_def server_CommanWJLB_def prog_simps on_db_def)
  then have "excuteCommand (server_handlers L) ''WJLB'' (m_strMsgContent w @ msg)
      (w\<lparr>m_strMsgContent := m_strMsgContent w @ msg\<rparr>, d) = (Inr (), (w2, ?d2))"
    using w(3) by (simp add: server_handlers_def)
  from srv.receive_short [OF _ msg(1,2) w(2) this] show ?thesis by simp
qed

text \<open>The client's side: the answer is parsed, its list stored, and the flag raised.\<close>

lemma client_list_stored:
  assumes w: "client_worker_ok bev w" and e: "m_strData w = []" "m_strMsgContent w = []"
    and reply: "length text < 1024" "str_find PAGTAIL text = None" "StringToJson L text = Some answer"
    and s: "json_str (json L) answer FILE_LIST = Some (answer, s)"
  shows "\<exists>w'. Process L (client_handlers L) (package_string (first_page ''WJLB'' text)) (w, d) =
      (Inr Drained, (w', d)) \<and> worker_GetFileList w' = s \<and> m_cmdFinishFlag w' = 1"
proof -
  let ?w2 = "w\<lparr>m_strMsgContent := text\<rparr>"
  have ok: "client_tables_ok ?w2" using w by (simp add: client_worker_ok_def client_tables_ok_def)
  obtain t w3 d3 where l: "lookup_client_command ''WJLB'' (?w2, d) = (Inr t, (w3, d3))"
    by (cases "sm_at C_WCZL ''WJLB'' (c_commandType ?w2)") (auto simp: lookup_client_command_def)
  have t: "t = C_WJLB" and d3: "d3 = d"
    using client_tables_lookup(2,3) [OF ok l] by (simp_all add: client_commands_def)
  let ?w4 = "setCMDFinishFlag 1 (w3\<lparr>c_strFileList := s\<rparr>)"
  have "client_excuteCommand L ''WJLB'' text (?w2, d) = (Inr (), (?w4, d))"
    using l t d3 reply(3) s
    by (simp add: client_excuteCommand_def client_CommanWJLB_def prog_simps on_client_def)
  then have "excuteCommand (client_handlers L) ''WJLB'' (m_strMsgContent w @ text)
      (w\<lparr>m_strMsgContent := m_strMsgContent w @ text\<rparr>, d) = (Inr (), (?w4, d))"
    using e(2) by (simp add: client_handlers_def)
  from cli.receive_short [OF _ reply(1,2) e(1) this] show ?thesis
    by (simp add: worker_GetFileList_def setCMDFinishFlag_def)
qed

lemma package_text_no_nul:
  assumes "length s < 1024" and "NUL \<notin> set s" and "NUL \<notin> set label"
  shows "NUL \<notin> set (package_string (first_page label s))"
proof -
  have "NUL \<notin> set (num_to_string n)" for n
    by (rule num_to_string_avoids) (simp_all add: NUL_def is_digit_def)
  then show ?thesis
    using assms by (simp add: first_page_short package_string_def package_body_def wire_consts NUL_def)
qed

lemma file_list:
  assumes Lc: "sends_all Lc" and Ls: "sends_all Ls" and J: "json_objects (json Ls) is_obj" and same: "json Lc = json Ls"
    and c: "m_bConnect c \<noteq> 0" "m_spWorker c = Some w" "client_worker_ok (Some fd) w" "m_strData w = []" "m_strMsgContent w = []"
    and sw: "server_worker_ok (Some sfd) sw" "m_strData sw = []" "m_strMsgContent sw = []"
    and root: "client_list_json (json Lc) cls student = Some root"
    and parse: "StringToJson Ls (js_write (json Lc) root) = Some root"
    and msg: "length (js_write (json Lc) root) < 1024" "str_find PAGTAIL (js_write (json Lc) root) = None"
    and db: "GetFiles Ls cls student [] (w_db sd) = (Inr (r, s), h)"
    and ans: "js_put (json Ls) root FILE_LIST (js_of_string (json Ls) s) = Some answer"
    and reply: "length (JsonToString Ls answer) < 1024" "str_find PAGTAIL (JsonToString Ls answer) = None"
      "StringToJson Lc (JsonToString Ls answer) = Some answer" "NUL \<notin> set (JsonToString Ls answer)"
  shows "\<exists>c' sw' sd'.
    client_GetFileList Lc [wire sfd (drop (length (w_sends sd)) (w_sends sd'))] cls student out c =
      (Inr (no_return Lc, s), c') \<and>
    Process Ls (server_handlers Ls) (wire fd (drop (length (w_sends (cl_world c))) (w_sends (cl_world c')))) (sw, sd) =
      (Inr Drained, (sw', sd')) \<and> w_db sd' = h"
proof -
  let ?msg = "js_write (json Lc) root" and ?text = "JsonToString Ls answer"
  let ?req = "package_string (first_page ''WJLB'' ?msg)" and ?ans = "package_string (first_page ''WJLB'' ?text)"
  have root2: "client_list_json (json Ls) cls student = Some root" using root by (simp add: same)
  obtain sw' sd' where srv: "Process Ls (server_handlers Ls) ?req (sw, sd) = (Inr Drained, (sw', sd'))" "w_db sd' = h"
    "w_sends sd' = w_sends sd @ [sent sfd (first_page ''WJLB'' ?text)]"
    using server_list_answer [OF Ls J sw root2 msg parse db ans reply(1)] by blast
  have answer: "wire sfd (drop (length (w_sends sd)) (w_sends sd')) = ?ans"
    using wire_sent [of sfd "[first_page ''WJLB'' ?text]"] by (simp add: srv(3))
  define d1 where "d1 = (cl_world c)\<lparr>w_sends := w_sends (cl_world c) @
    [(fd, ?req, c_int (sock_send Lc (w_sends (cl_world c)) fd ?req))]\<rparr>"
  let ?w1 = "setCMDFinishFlag (-1) w"
  have w1: "client_worker_ok (Some fd) ?w1" "m_strData ?w1 = []" "m_strMsgContent ?w1 = []"
    using c(3-5) by (simp_all add: setCMDFinishFlag_def)
  have obj: "is_obj root" using list_root [OF J root2] by simp
  obtain v where "js_put (json Ls) root FILE_LIST (js_of_string (json Ls) s) = Some v"
    "js_index (json Ls) v FILE_LIST = Some (v, js_of_string (json Ls) s)"
    using json_objects_set [OF J disjI1 [OF obj], of FILE_LIST "js_of_string (json Ls) s"] by blast
  then have list: "json_str (json Lc) answer FILE_LIST = Some (answer, s)"
    using ans by (simp add: same json_str_def json_objects_values [OF J])
  obtain w' where run: "Process Lc (client_handlers Lc) ?ans (?w1, d1) = (Inr Drained, (w', d1))"
    and w': "worker_GetFileList w' = s" "m_cmdFinishFlag w' = 1"
    using client_list_stored [OF w1 reply(1-3) list] by blast
  have nul: "NUL \<notin> set ?ans" using reply(1,4) by (intro package_text_no_nul) (simp_all add: NUL_def)
  let ?c' = "c\<lparr>m_spWorker := Some w', cl_world := d1\<rparr>"
  have "request Lc [?ans] (\<lambda>w. SendMsgTo Lc w ''WJLB'' ?msg) c = (Inr (), ?c')"
    using c(2,3) msg(1) w'(2) by (intro request_answered [OF _ _ _ nul d1_def run]) (simp_all add: client_worker_ok_def)
  then have get: "client_GetFileList Lc [?ans] cls student out c = (Inr (no_return Lc, s), ?c')"
    using c(1) root w'(1) by (simp add: client_GetFileList_def prog_simps SendWJLB_def the_worker_def)
  have "wire fd (drop (length (w_sends (cl_world c))) (w_sends (cl_world ?c'))) = ?req"
    using Lc first_page_short_length [OF msg(1), of "''WJLB''"]
    by (simp add: d1_def wire_def accepted_def sends_all_def c_int_nat)
  with get srv(1,2) answer show ?thesis by (intro exI [of _ ?c'] exI [of _ sw'] exI [of _ sd']) simp
qed

end
