(* ===== verification/RequestProps.thy ===== *)
theory RequestProps
  imports SessionProps DataProps Upload
begin

text \<open>
  Properties of whole requests: an upload that is stored and recorded, and the list of a student's
  files.
\<close>

section \<open>Uploading\<close>

text \<open>C5: an upload of an existing file without zero bytes is stored and recorded, end to end: when a
  connected client uploads it and the server's worker reads what went over the socket, the server
  has a file of exactly the same content under the class's upload directory, and ran two statements:
  the search for the stored path and, depending on its answer, the update or the insertion of the
  row with the given names, number, course and type. Conditions: sizes are below 2 to the 31; the
  client's socket takes everything; no page's JSON text holds the marker TCPTAIL, and request, pages
  and stored description are read back by the JSON parser; files can be created and appended to
  under the upload directory; the server's worker is intact with no unread bytes.\<close>

theorem upload_completes:
  assumes "json_objects (json Ls) is_obj" and "json_inserts (json Ls) is_obj" and "json Lc = json Ls"
    and "sends_all Lc" and "m_bConnect c \<noteq> 0" and "m_spWorker c = Some w" and "m_bev w = Some fd"
    and "upper_json (json Lc) cls student course fname fpath device nType = Some root"
    and "StringToJson Lc (js_write (json Lc) root) = Some root"
    and "w_fs (cl_world c) (c_str fpath) = Some content"
    and "length content < 2147483648" and "NUL \<notin> set content"
    and "js_index (json Ls) root FILE_DESCRIBE = Some (root, describe)"
    and "describes_name Ls describe name" and "files_at Ls (c_str (upload_path Ls cls name))"
    and "\<forall>i \<le> length content div 1024. page_roundtrip Ls describe (page_text content i)"
    and "\<forall>p \<in> set (file_pages Ls ''CXWJ'' describe content). wf_package p"
    and "length (concat (map package_string (file_pages Ls ''CXWJ'' describe content))) < 2147483648"
    and "server_worker_ok (Some sfd) sw" and "m_strData sw = []"
    and "js_put (json Ls) describe FILE_PATH (js_of_string (json Ls) (upload_path Ls cls name)) = Some describe'"
    and "js_parse (json Ls) (js_write (json Ls) describe') = Some describe'"
    and "path = StringReplaceAll Ls (upload_path Ls cls name) BACKSLASH (BACKSLASH @ BACKSLASH)"
    and "IsExistData Ls (upfile_exists_sql path) (w_db sd) = (Inr there, h1)"
  shows "\<exists>c' sw' sd'. UpperFile Lc cls student course fname fpath device nType c = (Inr (no_return Lc), c') \<and>
    Process Ls (server_handlers Ls) (wire fd (drop (length (w_sends (cl_world c))) (w_sends (cl_world c')))) (sw, sd) =
      (Inr Drained, (sw', sd')) \<and>
    w_fs sd' (c_str (upload_path Ls cls name)) = Some content \<and>
    sql_log (w_db sd') = sql_log (w_db sd) @
      [c_str (upfile_exists_sql path),
       c_str (if there
         then StringReplaceAll Ls (upfile_update_text fname student path device course nType) ''set,'' ''set ''
         else upfile_insert_sql fname student cls path device course nType)]"
  using upload [OF assms] unfolding stored_statements_def .

definition up_describe :: "string \<Rightarrow> jval" where
  "up_describe path = JObj [(FILE_CLASS, JStr ''c''), (FILE_STUDENT, JStr ''zhang''), (FILE_COURES, JStr ''k''),
     (FILE_NAME, JStr ''f''), (FILE_PATH, JStr path), (FILE_TYPE, JInt 1), (DEVICE_NUMBER, JStr ''d'')]"

abbreviation up_root :: jval where
  "up_root \<equiv> demo_request (up_describe ''/f'')"

abbreviation up_page :: jval where
  "up_page \<equiv> demo_page (up_describe ''/f'')"

abbreviation up_path :: string where
  "up_path \<equiv> ''/tmp/Files/upfile/c/k_zhang.abb''"

abbreviation up_values :: "jval list" where
  "up_values \<equiv> [up_page, up_root, up_describe up_path]"

definition up_sender :: "demo_db evt_client" where
  "up_sender = up_client\<lparr>cl_world := demo_world [''/f'' \<mapsto> ''abc'']\<rparr>"

definition up_world :: "demo_db world" where
  "up_world = \<lparr>w_fs = Map.empty, w_sends = [], w_db = fresh_db [Some (table_of [])]\<rparr>"

lemma up_texts:
  "demo_text (up_describe up_path) \<noteq> demo_text up_page" "demo_text (up_describe up_path) \<noteq> demo_text up_root"
  "str_find PAGTAIL (demo_text up_page) = None" "length (demo_text up_page) < 500"
  by code_simp+

lemma up_parse: "js_parse (demo_json up_values) (demo_text (up_describe up_path)) = Some (up_describe up_path)"
  using up_texts(1,2) by (simp add: demo_json_def)

lemma up_server_path: "upload_path (server_demo up_values) ''c'' ''k_zhang.abb'' = up_path"
  by (simp add: upload_path_def DIRECTORY_ROOT_UP_def DIRECTORY_ROOT_def demo_libs_def)

lemma up_name: "describes_name (server_demo up_values) (up_describe ''/f'') ''k_zhang.abb''"
proof (rule describes_server_name)
  show "SERVER (server_demo up_values)" by (simp add: demo_libs_def)
  have "member_str (demo_json up_values) (up_describe ''/f'') FILE_COURES ''k''"
    "member_str (demo_json up_values) (up_describe ''/f'') FILE_STUDENT ''zhang''"
    "member_int (demo_json up_values) (up_describe ''/f'') FILE_TYPE 1"
    by (simp_all add: member_str_def member_int_def demo_json_def up_describe_def json_keys)
  then show "member_str (json (server_demo up_values)) (up_describe ''/f'') FILE_COURES ''k''"
    "member_str (json (server_demo up_values)) (up_describe ''/f'') FILE_STUDENT ''zhang''"
    "member_int (json (server_demo up_values)) (up_describe ''/f'') FILE_TYPE 1"
    by (simp_all add: demo_libs_json)
qed (simp add: GetExtension_def EXT_ABB_def)

theorem upload_completes_witness:
  "\<exists>c' sw' sd'. UpperFile (client_demo up_values) ''c'' ''zhang'' ''k'' ''f'' ''/f'' ''d'' 1 up_sender =
      (Inr (no_return (client_demo up_values)), c') \<and>
    Process (server_demo up_values) (server_handlers (server_demo up_values))
      (wire 7 (drop (length (w_sends (cl_world up_sender))) (w_sends (cl_world c')))) (sample_worker, up_world) =
      (Inr Drained, (sw', sd')) \<and>
    w_fs sd' (c_str (upload_path (server_demo up_values) ''c'' ''k_zhang.abb'')) = Some ''abc'' \<and>
    sql_log (w_db sd') = sql_log (w_db up_world) @
      [c_str (upfile_exists_sql up_path),
       c_str (if False
         then StringReplaceAll (server_demo up_values) (upfile_update_text ''f'' ''zhang'' up_path ''d'' ''k'' 1) ''set,'' ''set ''
         else upfile_insert_sql ''f'' ''zhang'' ''c'' up_path ''d'' ''k'' 1)]"
proof (rule upload_completes [where w = "SetBev (Some 7) CClientWorker_new" and fd = 7,
    OF _ _ _ _ _ _ _ _ _ _ _ _ _ up_name])
  show "json_objects (json (server_demo up_values)) is_JObj" by (simp add: demo_libs_json demo_json_objects)
  show "json_inserts (json (server_demo up_values)) is_JObj"
    by (simp add: demo_libs_json json_inserts_def demo_json_def)
  show "upper_json (json (client_demo up_values)) ''c'' ''zhang'' ''k'' ''f'' ''/f'' ''d'' 1 = Some up_root"
    by (simp add: demo_libs_json upper_json_def json_set2_def demo_json_def demo_request_def up_describe_def json_keys)
  show "StringToJson (client_demo up_values) (js_write (json (client_demo up_values)) up_root) = Some up_root"
    by (simp add: demo_libs_json) (simp add: demo_json_def demo_request_parse [OF demo_libs_json])
  show "js_index (json (server_demo up_values)) up_root FILE_DESCRIBE = Some (up_root, up_describe ''/f'')"
    by (simp add: demo_libs_json demo_request_describes)
  show "\<forall>i \<le> length ''abc'' div 1024. page_roundtrip (server_demo up_values) (up_describe ''/f'') (page_text ''abc'' i)"
    by (rule demo_page_roundtrips [OF demo_libs_json])
  show "\<forall>p \<in> set (file_pages (server_demo up_values) ''CXWJ'' (up_describe ''/f'') ''abc''). wf_package p"
    "length (concat (map package_string (file_pages (server_demo up_values) ''CXWJ'' (up_describe ''/f'') ''abc''))) < 2147483648"
    by (rule demo_pages_wire [OF demo_libs_json up_texts(3,4)])+
  show "server_worker_ok (Some 7) sample_worker" unfolding sample_worker_def by (rule server_worker_ok_new)
  show "js_put (json (server_demo up_values)) (up_describe ''/f'') FILE_PATH (js_of_string (json (server_demo up_values))
      (upload_path (server_demo up_values) ''c'' ''k_zhang.abb'')) = Some (up_describe up_path)"
    by (simp add: up_server_path demo_libs_json) (simp add: demo_json_def up_describe_def json_keys)
  show "js_parse (json (server_demo up_values)) (js_write (json (server_demo up_values)) (up_describe up_path)) =
      Some (up_describe up_path)"
    using up_parse by (simp add: demo_libs_json) (simp add: demo_json_def)
  show "up_path = StringReplaceAll (server_demo up_values) (upload_path (server_demo up_values) ''c'' ''k_zhang.abb'')
      BACKSLASH (BACKSLASH @ BACKSLASH)"
    by (simp add: up_server_path) (simp add: demo_libs_def)
  show "IsExistData (server_demo up_values) (upfile_exists_sql up_path) (w_db up_world) =
      (Inr False, (fresh_db [])\<lparr>sql_log := [c_str (upfile_exists_sql up_path)]\<rparr>)"
    by (simp add: up_world_def db_eval IsExistData_def table_of_def c_int_def)
  show "w_fs (cl_world up_sender) (c_str ''/f'') = Some ''abc''"
    by (simp add: up_sender_def demo_world_def c_str_def NUL_def)
  show "files_at (server_demo up_values) (c_str (upload_path (server_demo up_values) ''c'' ''k_zhang.abb''))"
    by (simp add: files_at_def demo_libs_def)
qed (simp_all add: demo_libs_json up_sender_def NUL_def SetBev_def)

section \<open>Listing\<close>

text \<open>C17: asking for the list of files, end to end: what the client's call sends makes the server's
  worker run the query for the class and the student, and what the server then sends makes the call
  return exactly the text of that query, as long as request and answer are shorter than a page, hold
  neither the marker TCPTAIL nor, the answer, a zero byte, and are read back by the JSON parser,
  sockets take everything, and both workers are intact with nothing unread or pending.\<close>

theorem file_list_round_trip:
  assumes "sends_all Lc" and "sends_all Ls" and "json_objects (json Ls) is_obj" and "json Lc = json Ls"
    and "m_bConnect c \<noteq> 0" and "m_spWorker c = Some w" and "client_worker_ok (Some fd) w"
    and "m_strData w = []" and "m_strMsgContent w = []"
    and "server_worker_ok (Some sfd) sw" and "m_strData sw = []" and "m_strMsgContent sw = []"
    and "client_list_json (json Lc) cls student = Some root"
    and "StringToJson Ls (js_write (json Lc) root) = Some root"
    and "length (js_write (json Lc) root) < 1024" and "str_find PAGTAIL (js_write (json Lc) root) = None"
    and "GetFiles Ls cls student [] (w_db sd) = (Inr (r, s), h)"
    and "js_put (json Ls) root FILE_LIST (js_of_string (json Ls) s) = Some answer"
    and "length (JsonToString Ls answer) < 1024" and "str_find PAGTAIL (JsonToString Ls answer) = None"
    and "StringToJson Lc (JsonToString Ls answer) = Some answer" and "NUL \<notin> set (JsonToString Ls answer)"
  shows "\<exists>c' sw' sd'.
    client_GetFileList Lc [wire sfd (drop (length (w_sends sd)) (w_sends sd'))] cls student out c =
      (Inr (no_return Lc, s), c') \<and>
    Process Ls (server_handlers Ls) (wire fd (drop (length (w_sends (cl_world c))) (w_sends (cl_world c')))) (sw, sd) =
      (Inr Drained, (sw', sd')) \<and> w_db sd' = h"
  by (rule file_list [OF assms])

definition list_request :: jval where
  "list_request = JObj [(FILE_CLASS, JStr ''c''), (FILE_STUDENT, JStr ''zhang'')]"

definition list_text :: string where
  "list_text = ''fileName'' @ TAB2 @ NEWLINE @ ''f'' @ TAB2 @ NEWLINE"

definition list_answer :: jval where
  "list_answer = JObj [(FILE_CLASS, JStr ''c''), (FILE_STUDENT, JStr ''zhang''), (FILE_LIST, JStr list_text)]"

definition list_world :: "demo_db world" where
  "list_world = \<lparr>w_fs = Map.empty, w_sends = [],
     w_db = fresh_db [Some \<lparr>res_fields = [''fileName''], res_rows = [[Some ''f'']]\<rparr>]\<rparr>"

abbreviation list_values :: "jval list" where
  "list_values \<equiv> [list_request, list_answer]"

lemma list_texts:
  "demo_text list_answer \<noteq> demo_text list_request" "length (demo_text list_request) < 1024"
  "length (demo_text list_answer) < 1024" "str_find PAGTAIL (demo_text list_request) = None"
  "str_find PAGTAIL (demo_text list_answer) = None" "NUL \<notin> set (demo_text list_answer)"
  by code_simp+

lemma list_parse:
  assumes "json L = demo_json list_values"
  shows "StringToJson L (demo_text list_request) = Some list_request"
    and "StringToJson L (demo_text list_answer) = Some list_answer"
proof -
  have "demo_text list_request \<noteq> []" "demo_text list_answer \<noteq> []"
    by (simp_all add: list_request_def list_answer_def)
  then show "StringToJson L (demo_text list_request) = Some list_request"
    and "StringToJson L (demo_text list_answer) = Some list_answer"
    using list_texts(1) assms by (simp_all add: StringToJson_def) (simp_all add: demo_json_def)
qed

lemma list_files: "\<exists>r h. GetFiles (server_demo list_values) ''c'' ''zhang'' [] (w_db list_world) = (Inr (r, list_text), h)"
  by (simp add: GetFiles_def Display_def prog_simps demo_libs_def demo_mysql_def list_world_def fresh_db_def
      connect_if_needed_def IsConnect_def run_query_def store_result_def print_header_def list_text_def)

theorem file_list_round_trip_witness:
  "\<exists>c' sw' sd'.
    client_GetFileList (client_demo list_values) [wire 7 (drop (length (w_sends list_world)) (w_sends sd'))]
      ''c'' ''zhang'' [] up_client = (Inr (0, list_text), c') \<and>
    Process (server_demo list_values) (server_handlers (server_demo list_values))
      (wire 7 (drop (length (w_sends (cl_world up_client))) (w_sends (cl_world c')))) (sample_worker, list_world) =
      (Inr Drained, (sw', sd'))"
proof -
  let ?Lc = "client_demo list_values" and ?Ls = "server_demo list_values"
  obtain r h where db: "GetFiles ?Ls ''c'' ''zhang'' [] (w_db list_world) = (Inr (r, list_text), h)"
    using list_files by blast
  have wr: "js_write (demo_json list_values) v = demo_text v" "js_write_indented (demo_json list_values) v = demo_text v" for v
    by (simp_all add: demo_json_def)
  have root: "client_list_json (json ?Lc) ''c'' ''zhang'' = Some list_request"
    by (simp add: demo_libs_json client_list_json_def demo_json_def list_request_def json_keys)
  have ans: "js_put (json ?Ls) list_request FILE_LIST (js_of_string (json ?Ls) list_text) = Some list_answer"
    by (simp add: demo_libs_json demo_json_def list_request_def list_answer_def json_keys)
  have obj: "json_objects (json ?Ls) is_JObj" by (simp add: demo_libs_json demo_json_objects)
  have sw: "server_worker_ok (Some 7) sample_worker" unfolding sample_worker_def by (rule server_worker_ok_new)
  have "\<exists>c' sw' sd'.
    client_GetFileList ?Lc [wire 7 (drop (length (w_sends list_world)) (w_sends sd'))] ''c'' ''zhang'' [] up_client =
      (Inr (no_return ?Lc, list_text), c') \<and>
    Process ?Ls (server_handlers ?Ls) (wire 7 (drop (length (w_sends (cl_world up_client))) (w_sends (cl_world c'))))
      (sample_worker, list_world) = (Inr Drained, (sw', sd')) \<and> w_db sd' = h"
    by (rule file_list_round_trip [OF _ _ obj _ _ _ new_worker_ok _ _ sw _ _ root _ _ _ db ans])
       (simp_all add: demo_libs_json JsonToString_def wr list_parse list_texts SetBev_def CClientWorker_new_def cworker.defs CWorker_new_def)
  moreover have "no_return ?Lc = 0" by (simp add: demo_libs_def)
  ultimately show ?thesis by auto
qed

end
