(* ===== verification/ClientThreads.thy ===== *)
theory ClientThreads
  imports ClientFacts "HOL-Library.Sublist"
begin

text \<open>
  The threads of a client while a request waits for its answer: the caller polls the flag of the
  worker object (\<open>waitCMDFinishFlag\<close>, every 200 ms), the event loop's thread runs the two callbacks, and
  the task queue's thread runs \<open>Svc\<close>. \<open>await_flag\<close> is the caller alone; here a schedule says which
  thread is next. The caller's poll is a method of the object \<open>m_spWorker\<close> pointed to when the wait
  began, and \<open>TryConnect\<close> replaces that object while no lock is held.
\<close>

section \<open>State and steps\<close>

text \<open>The worker objects are numbered in the order they are made; the caller polls one of them.\<close>

datatype caller = Polls nat | Returned | Crashed error

record 'd client_threads =
  ct_client :: "'d evt_client"
  ct_object :: nat
  ct_call :: caller

text \<open>\<open>ct_object\<close> is the object \<open>m_spWorker\<close> owns; resetting the pointer destroyed the ones before.\<close>

definition worker_object :: "'d client_threads \<Rightarrow> nat \<Rightarrow> client_worker ptr" where
  "worker_object st n =
     (if n = ct_object st then ptr_of (m_spWorker (ct_client st))
      else if n < ct_object st then Freed else Uninit)"

text \<open>\<open>Svc\<close> returns with a new worker exactly when it has connected.\<close>

definition reconnected :: "'d evt_client \<Rightarrow> 'd evt_client \<Rightarrow> bool" where
  "reconnected c c' \<longleftrightarrow> m_bConnect c = 0 \<and> m_bConnect c' \<noteq> 0"

datatype thread_act = Loop_input string | Loop_event "16 word" | Task_svc | Caller_poll

text \<open>One round of the loop of \<open>waitCMDFinishFlag\<close>.\<close>

definition poll_round :: "'d client_threads \<Rightarrow> caller" where
  "poll_round st =
     (case ct_call st of
        Polls n \<Rightarrow>
          (case the_ptr (worker_object st n) of
             Inl e \<Rightarrow> Crashed e
           | Inr w \<Rightarrow> if m_cmdFinishFlag w \<ge> 0 then Returned else Polls n)
      | call \<Rightarrow> call)"

text \<open>An error in one of the other threads ends the process: \<open>None\<close>.\<close>

definition on_thread_client ::
    "('d evt_client, unit) prog \<Rightarrow> 'd client_threads \<Rightarrow> 'd client_threads option" where
  "on_thread_client m st =
     (case m (ct_client st) of (Inl e, c') \<Rightarrow> None | (Inr _, c') \<Rightarrow> Some (st\<lparr>ct_client := c'\<rparr>))"

fun thread_run ::
    "('j, 'd) libs \<Rightarrow> net \<Rightarrow> thread_act \<Rightarrow> 'd client_threads \<Rightarrow> 'd client_threads option" where
  "thread_run L N (Loop_input input) st = on_thread_client (server_msg_cb L input) st"
| "thread_run L N (Loop_event event) st = on_thread_client (event_cb event) st"
| "thread_run L N Task_svc st =
     (case on_thread_client (Svc L N) st of
        None \<Rightarrow> None
      | Some st' \<Rightarrow>
          Some (if reconnected (ct_client st) (ct_client st') then st'\<lparr>ct_object := Suc (ct_object st)\<rparr> else st'))"
| "thread_run L N Caller_poll st = Some (st\<lparr>ct_call := poll_round st\<rparr>)"

fun schedule ::
    "('j, 'd) libs \<Rightarrow> net \<Rightarrow> thread_act list \<Rightarrow> 'd client_threads \<Rightarrow> 'd client_threads option" where
  "schedule L N [] st = Some st"
| "schedule L N (a # as) st =
     (case thread_run L N a st of None \<Rightarrow> None | Some st' \<Rightarrow> schedule L N as st')"

text \<open>A caller that has just called \<open>waitCMDFinishFlag\<close>.\<close>

definition waits :: "'d client_threads \<Rightarrow> bool" where
  "waits st \<longleftrightarrow> ct_call st = Polls (ct_object st)"

section \<open>The wait without a reconnection\<close>

lemma poll_round_waits:
  "waits st \<Longrightarrow> poll_round st =
     (case m_spWorker (ct_client st) of
        None \<Rightarrow> Crashed (UB Null_pointer)
      | Some w \<Rightarrow> if m_cmdFinishFlag w \<ge> 0 then Returned else Polls (ct_object st))"
  by (auto simp: waits_def poll_round_def worker_object_def ptr_of_def the_ptr_def split: option.split)

fun loop_inputs :: "thread_act list \<Rightarrow> string list" where
  "loop_inputs [] = []"
| "loop_inputs (Loop_input input # as) = input # loop_inputs as"
| "loop_inputs (_ # as) = loop_inputs as"

definition poll_or_input :: "thread_act \<Rightarrow> bool" where
  "poll_or_input a \<longleftrightarrow> a = Caller_poll \<or> (\<exists>input. a = Loop_input input)"

text \<open>The schedule \<open>await_flag\<close> stands for: a poll before every input, and one at the end.\<close>

fun alternate :: "string list \<Rightarrow> thread_act list" where
  "alternate [] = [Caller_poll]"
| "alternate (input # inputs) = Caller_poll # Loop_input input # alternate inputs"

lemma alternate_simps [simp]: "loop_inputs (alternate inputs) = inputs"
  "a \<in> set (alternate inputs) \<Longrightarrow> poll_or_input a"
  by (induction inputs) (auto simp: poll_or_input_def)

text \<open>A caller that has returned or crashed polls no more.\<close>

definition polls :: "'d client_threads \<Rightarrow> bool" where
  "polls st \<longleftrightarrow> (\<exists>n. ct_call st = Polls n)"

lemma thread_run_over: "\<not> polls st \<Longrightarrow> thread_run L N a st = Some st' \<Longrightarrow> ct_call st' = ct_call st"
  by (cases a) (auto simp: on_thread_client_def poll_round_def polls_def
      split: prod.splits sum.splits option.splits caller.splits)

lemma schedule_over: "\<not> polls st \<Longrightarrow> schedule L N as st = Some st' \<Longrightarrow> ct_call st' = ct_call st"
proof (induction as arbitrary: st)
  case (Cons a as)
  then obtain st1 where "thread_run L N a st = Some st1" "schedule L N as st1 = Some st'"
    by (auto split: option.splits)
  moreover from this(1) have "ct_call st1 = ct_call st" by (rule thread_run_over [OF Cons.prems(1)])
  ultimately show ?case using Cons.IH [of st1] Cons.prems(1) by (simp add: polls_def)
qed simp

lemma await_flag_schedule:
  assumes "waits st" and "await_flag L inputs (ct_client st) = (Inr (), c')"
  shows "\<exists>k \<le> length inputs. schedule L N (alternate (take k inputs)) st =
    Some (st\<lparr>ct_client := c', ct_call := Returned\<rparr>)"
  using assms
proof (induction inputs arbitrary: st)
  case Nil
  then show ?case
    by (auto simp: prog_simps the_worker_def poll_round_waits split: option.splits if_splits)
next
  case (Cons input inputs)
  obtain w where w: "m_spWorker (ct_client st) = Some w"
    using Cons.prems(2) by (auto simp: prog_simps the_worker_def split: option.splits)
  show ?case
  proof (cases "m_cmdFinishFlag w \<ge> 0")
    case True
    then have "c' = ct_client st"
      using Cons.prems(2) await_flag_set [OF w, of L "input # inputs"] by (simp del: await_flag.simps)
    with True w Cons.prems(1) show ?thesis
      by (intro exI [of _ 0]) (simp add: poll_round_waits)
  next
    case False
    then obtain c1 where c1: "server_msg_cb L input (ct_client st) = (Inr (), c1)"
      "await_flag L inputs c1 = (Inr (), c')"
      using Cons.prems(2) w by (auto simp: prog_simps the_worker_def split: prod.splits sum.splits)
    have wait: "waits (st\<lparr>ct_client := c1\<rparr>)" using Cons.prems(1) by (simp add: waits_def)
    obtain k where "k \<le> length inputs" "schedule L N (alternate (take k inputs)) (st\<lparr>ct_client := c1\<rparr>) =
        Some (st\<lparr>ct_client := c', ct_call := Returned\<rparr>)"
      using Cons.IH [OF wait] c1(2) by auto
    moreover have "st\<lparr>ct_call := poll_round st\<rparr> = st"
      using False w Cons.prems(1) poll_round_waits [OF Cons.prems(1)] by (simp add: waits_def)
    ultimately show ?thesis
      using c1(1) by (intro exI [of _ "Suc k"]) (simp add: on_thread_client_def)
  qed
qed

text \<open>And when the caller returns under any schedule of polls and inputs, \<open>await_flag\<close> returns.\<close>

lemma schedule_await_flag:
  assumes "waits st" and "\<forall>a \<in> set as. poll_or_input a"
    and "schedule L N as st = Some st'" and "ct_call st' = Returned"
  shows "\<exists>c'. await_flag L (loop_inputs as) (ct_client st) = (Inr (), c')"
  using assms
proof (induction as arbitrary: st)
  case Nil
  then show ?case by (simp add: waits_def)
next
  case (Cons a as)
  obtain st1 where st1: "thread_run L N a st = Some st1" "schedule L N as st1 = Some st'"
    using Cons.prems(3) by (auto split: option.splits)
  consider (poll) "a = Caller_poll" | (input) input where "a = Loop_input input"
    using Cons.prems(2) by (auto simp: poll_or_input_def)
  then show ?case
  proof cases
    case poll
    then have st1': "st1 = st\<lparr>ct_call := poll_round st\<rparr>" using st1(1) by simp
    show ?thesis
    proof (cases "waits st1")
      case True
      then show ?thesis using Cons.IH [OF True] Cons.prems(2,4) st1(2) poll st1' by simp
    next
      case False
      then have "poll_round st \<noteq> Polls (ct_object st)" by (simp add: waits_def st1')
      then consider w where "m_spWorker (ct_client st) = Some w" "m_cmdFinishFlag w \<ge> 0"
        | e where "ct_call st1 = Crashed e"
        using poll_round_waits [OF Cons.prems(1)] by (auto simp: st1' split: option.splits if_splits)
      then show ?thesis
      proof cases
        case (1 w)
        then show ?thesis using await_flag_set [OF 1] by blast
      next
        case (2 e)
        then show ?thesis using schedule_over [OF _ st1(2)] Cons.prems(4) by (simp add: polls_def)
      qed
    qed
  next
    case (input i)
    then obtain c1 where c1: "server_msg_cb L i (ct_client st) = (Inr (), c1)" "st1 = st\<lparr>ct_client := c1\<rparr>"
      using st1(1) by (auto simp: on_thread_client_def split: prod.splits sum.splits)
    then have wait: "waits st1" using Cons.prems(1) by (simp add: waits_def)
    obtain c' where c': "await_flag L (loop_inputs as) c1 = (Inr (), c')"
      using Cons.IH [OF wait] Cons.prems(2,4) st1(2) c1(2) by auto
    show ?thesis
    proof (cases "m_spWorker (ct_client st)")
      case None
      then show ?thesis
        using c1(1) by (simp add: server_msg_cb_def client_Process_def cl_with_worker_def prog_simps the_worker_def)
    next
      case (Some w)
      then show ?thesis using c' c1(1) input by (simp add: prog_simps the_worker_def)
    qed
  qed
qed

lemma await_flag_append:
  "await_flag L inputs c = (Inr (), c') \<Longrightarrow> await_flag L (inputs @ later) c = (Inr (), c')"
proof (induction inputs arbitrary: c)
  case Nil
  then obtain w where "m_spWorker c = Some w" "0 \<le> m_cmdFinishFlag w" "c' = c"
    by (auto simp: prog_simps the_worker_def split: option.splits if_splits)
  then show ?case using await_flag_set by simp
next
  case (Cons i inputs)
  then show ?case by (auto simp: prog_simps the_worker_def split: option.splits if_splits prod.splits sum.splits)
qed

text \<open>So the wait of the caller alone returns exactly when it can return beside the event loop.\<close>

lemma waiting_is_polling:
  assumes "waits st"
  shows "(\<exists>c'. await_flag L inputs (ct_client st) = (Inr (), c')) \<longleftrightarrow>
    (\<exists>as st'. (\<forall>a \<in> set as. poll_or_input a) \<and> prefix (loop_inputs as) inputs \<and>
       schedule L N as st = Some st' \<and> ct_call st' = Returned)" (is "?await \<longleftrightarrow> ?sched")
proof
  assume ?await
  then obtain c' where "await_flag L inputs (ct_client st) = (Inr (), c')" by blast
  from await_flag_schedule [OF assms this] obtain k where
    "schedule L N (alternate (take k inputs)) st = Some (st\<lparr>ct_client := c', ct_call := Returned\<rparr>)" by blast
  then show ?sched
    by (intro exI [of _ "alternate (take k inputs)"] exI) (auto simp: take_is_prefix)
next
  assume ?sched
  then obtain as st' where as: "\<forall>a \<in> set as. poll_or_input a" "prefix (loop_inputs as) inputs"
    "schedule L N as st = Some st'" "ct_call st' = Returned" by blast
  obtain c' where "await_flag L (loop_inputs as) (ct_client st) = (Inr (), c')"
    using schedule_await_flag [OF assms as(1,3,4)] by blast
  then show ?await using as(2) await_flag_append by (metis prefixE)
qed

section \<open>The wait over a reconnection\<close>

lemma TryConnect_worker:
  assumes "m_bConnect c = 0" and "TryConnect L N c = (Inr r, c')" and "m_bConnect c' = 0"
  shows "m_spWorker c' = m_spWorker c"
proof -
  have w: "m_spWorker c2 = m_spWorker c1" if "try_socket L N ip port c1 = (r1, c2)" for ip port c1 r1 c2
    using try_socket_fields(5) [OF that] .
  show ?thesis
    using assms
    by (auto simp: TryConnect_def prog_simps make_base_def new_worker_def put_worker_def on_thread_def
        SetConnect_def TryAgain_def BOOL_TRUE_def split: sum.splits prod.splits option.splits dest!: w)
qed

lemma Svc_worker:
  assumes "Svc L N c = (Inr (), c')" and "\<not> reconnected c c'"
  shows "m_spWorker c' = m_spWorker c"
proof (cases "m_bConnect c = 0")
  case True
  then obtain r where "TryConnect L N c = (Inr r, c')"
    using assms(1) by (auto simp: Svc_def prog_simps client_IsConnect_def split: sum.splits prod.splits)
  with True assms(2) show ?thesis using TryConnect_worker by (auto simp: reconnected_def)
next
  case False
  have "m_spWorker c1 = m_spWorker c \<and> m_bConnect c1 = m_bConnect c"
    if "cl_in_world m c = (r, c1)" for m :: "('a world, int) prog" and r c1
    using that by (auto simp: cl_in_world_def prog_simps split: prod.splits)
  with False assms(1) show ?thesis
    by (fastforce simp: Svc_def prog_simps client_IsConnect_def the_worker_def TryConnect_connected
        split: sum.splits prod.splits if_splits option.splits)
qed

text \<open>Waiting for an answer that has not come, or for one that will not.\<close>

definition unanswered :: "'d client_threads \<Rightarrow> bool" where
  "unanswered st \<longleftrightarrow> waits st \<and> (\<exists>w. m_spWorker (ct_client st) = Some w \<and> m_cmdFinishFlag w < 0)"

definition stranded :: "nat \<Rightarrow> 'd client_threads \<Rightarrow> bool" where
  "stranded n st \<longleftrightarrow> n < ct_object st \<and> ct_call st \<in> {Polls n, Crashed (UB Dangling_pointer)}"

lemma thread_run_unanswered:
  assumes "unanswered st" and "\<not> (\<exists>input. a = Loop_input input)" and "thread_run L N a st = Some st'"
  shows "(unanswered st' \<and> ct_object st' = ct_object st) \<or> stranded (ct_object st) st'"
proof (cases a)
  case (Loop_input x)
  with assms(2) show ?thesis by simp
next
  case (Loop_event x)
  with assms show ?thesis
    by (auto simp: on_thread_client_def event_cb_def SetConnect_def prog_simps unanswered_def waits_def
        split: if_splits)
next
  case Task_svc
  then obtain c' where c': "Svc L N (ct_client st) = (Inr (), c')"
    "st' = (if reconnected (ct_client st) c' then st\<lparr>ct_client := c', ct_object := Suc (ct_object st)\<rparr>
            else st\<lparr>ct_client := c'\<rparr>)"
    using assms(3) by (auto simp: on_thread_client_def split: prod.splits sum.splits)
  then show ?thesis
    using assms(1) Svc_worker [OF c'(1)] by (auto simp: unanswered_def waits_def stranded_def)
next
  case Caller_poll
  then show ?thesis using assms(1,3) poll_round_waits [of st] by (auto simp: unanswered_def waits_def)
qed

lemma thread_run_stranded:
  assumes "stranded n st" and "thread_run L N a st = Some st'"
  shows "stranded n st'" and "a = Caller_poll \<Longrightarrow> \<not> polls st'"
proof -
  have round: "poll_round st = Crashed (UB Dangling_pointer)"
    using assms(1) by (auto simp: stranded_def poll_round_def worker_object_def the_ptr_def)
  have "stranded n st' \<and> (a = Caller_poll \<longrightarrow> \<not> polls st')"
  proof (cases a)
    case Caller_poll
    with assms round show ?thesis by (auto simp: stranded_def polls_def)
  next
    case Task_svc
    with assms show ?thesis
      by (auto simp: on_thread_client_def stranded_def split: prod.splits sum.splits if_splits)
  qed (use assms in \<open>auto simp: on_thread_client_def stranded_def split: prod.splits sum.splits\<close>)
  then show "stranded n st'" and "a = Caller_poll \<Longrightarrow> \<not> polls st'" by auto
qed

lemma schedule_stranded:
  "stranded n st \<Longrightarrow> schedule L N as st = Some st' \<Longrightarrow>
   stranded n st' \<and> (\<not> polls st \<or> Caller_poll \<in> set as \<longrightarrow> \<not> polls st')"
proof (induction as arbitrary: st)
  case (Cons a as)
  then obtain st1 where st1: "thread_run L N a st = Some st1" "schedule L N as st1 = Some st'"
    by (auto split: option.splits)
  note one = thread_run_stranded [OF Cons.prems(1) st1(1)]
  have "\<not> polls st \<Longrightarrow> \<not> polls st1"
    using thread_run_over [OF _ st1(1)] by (simp add: polls_def)
  with Cons.IH [OF one(1) st1(2)] one(2) show ?case by auto
qed simp

lemma schedule_unanswered:
  "unanswered st \<Longrightarrow> \<forall>input. Loop_input input \<notin> set as \<Longrightarrow> schedule L N as st = Some st' \<Longrightarrow>
   (unanswered st' \<and> ct_object st' = ct_object st) \<or> stranded (ct_object st) st'"
proof (induction as arbitrary: st)
  case (Cons a as)
  then obtain st1 where st1: "thread_run L N a st = Some st1" "schedule L N as st1 = Some st'"
    by (auto split: option.splits)
  have "\<not> (\<exists>input. a = Loop_input input)" using Cons.prems(2) by auto
  from thread_run_unanswered [OF Cons.prems(1) this st1(1)] show ?case
  proof
    assume "unanswered st1 \<and> ct_object st1 = ct_object st"
    then show ?thesis using Cons.IH [of st1] Cons.prems(2) st1(2) by simp
  next
    assume "stranded (ct_object st) st1"
    from schedule_stranded [OF this st1(2)] show ?thesis by simp
  qed
qed simp

end
