(* ===== verification/LifeProps.thy ===== *)
theory LifeProps
  imports ServerProps ClientProps ClientThreads
begin

text \<open>
  Properties of the life of the two objects: a client whose connection is lost and comes back, and
  the end of a server.
\<close>

section \<open>Losing and regaining the connection\<close>

text \<open>C22: a lost connection comes back: whatever a client went through before, when it is connected and
  any event but a mere \<open>CONNECTED\<close> is reported, it counts as disconnected, and the next
  timer tick that finds the server accepting connects it again, with a new worker on the new socket
  and a new event loop.\<close>

theorem connection_comes_back:
  assumes "reachable client_init (client_step L N) c" and "m_bConnect c \<noteq> 0"
    and "set fs \<subseteq> set bufferevent_events"
    and "BEV_EVENT_CONNECTED \<notin> set fs \<or> BEV_EVENT_EOF \<in> set fs \<or> BEV_EVENT_ERROR \<in> set fs"
    and "net_bev N (cl_attempts c) = Some fd"
    and "net_connect N (cl_attempts c) (c_str (m_strIP c)) (m_nPort c) \<noteq> -1" and "sends_all L"
  shows "\<exists>c1 c2. event_cb (combine fs) c = (Inr (), c1) \<and> m_bConnect c1 = BOOL_FALSE \<and>
    Svc L N c1 = (Inr (), c2) \<and> m_bConnect c2 = BOOL_TRUE \<and> m_pBev c2 = Live fd \<and>
    m_spWorker c2 = Some (SetBev (Some fd) CClientWorker_new) \<and> m_spListenThread c2 = Joinable"
proof -
  have "connected_ok c" using client.reachable_inv [OF assms(1)] assms(2) by (simp add: client_ok_def)
  then obtain fd0 x where c: "m_pBev c = Live fd0" "m_pBase c = ptr_of x" "m_spListenThread c = Joinable"
    by (auto simp: connected_ok_def)
  let ?c1 = "c\<lparr>m_bConnect := BOOL_FALSE\<rparr>"
  have ev: "event_cb (combine fs) c = (Inr (), ?c1)"
    using assms(4) bev_event.decode [OF assms(3)]
    by (auto simp: event_cb_def SetConnect_def prog_simps bufferevent_events_def)
  have b: "m_bConnect ?c1 = 0" by (simp add: BOOL_FALSE_def)
  obtain c2 where c2: "TryConnect L N ?c1 = (Inr BOOL_TRUE, c2)" "m_bConnect c2 = BOOL_TRUE" "m_pBev c2 = Live fd"
    "m_spWorker c2 = Some (SetBev (Some fd) CClientWorker_new)" "m_spListenThread c2 = Joinable"
    using TryConnect_succeeds [OF b, of fd0 x N fd L] c assms(5-7) by auto
  have "Svc L N ?c1 = (Inr (), c2)"
    using c2(1) by (simp add: Svc_def client_IsConnect_def prog_simps BOOL_FALSE_def)
  with ev c2(2-) show ?thesis by (intro exI [of _ ?c1] exI [of _ c2]) simp
qed

theorem connection_comes_back_witness:
  "\<exists>c1 c2. event_cb (combine [BEV_EVENT_READING, BEV_EVENT_EOF]) up_client = (Inr (), c1) \<and>
    m_bConnect c1 = BOOL_FALSE \<and> Svc (client_demo []) good_net c1 = (Inr (), c2) \<and>
    m_bConnect c2 = BOOL_TRUE \<and> m_pBev c2 = Live 8 \<and>
    m_spWorker c2 = Some (SetBev (Some 8) CClientWorker_new) \<and> m_spListenThread c2 = Joinable"
proof (rule connection_comes_back [OF up_client_reachable])
  show "net_bev good_net (cl_attempts up_client) = Some 8"
    by (simp add: up_client_def client_eval good_net_def)
qed (simp_all add: bufferevent_events_def good_net_def)

section \<open>A request and the loss of its connection\<close>

text \<open>C23: a request does not survive its connection: when no answer arrives any more, then under every schedule
  of the caller's polls, the events of the connection and the timer, the call never returns; and once the
  timer has connected again, whatever arrives afterwards, the next poll of the caller is a method call on
  the worker object that \<open>TryConnect\<close> has destroyed.\<close>

theorem request_outlives_connection:
  assumes "waits st" and "m_spWorker (ct_client st) = Some w" and "m_cmdFinishFlag w < 0"
    and "\<forall>input. Loop_input input \<notin> set as" and "schedule L N as st = Some st1"
  shows "ct_call st1 \<noteq> Returned \<and>
    (ct_object st1 \<noteq> ct_object st \<longrightarrow>
      (\<forall>bs st2. schedule L N bs st1 = Some st2 \<longrightarrow> Caller_poll \<in> set bs \<longrightarrow>
         ct_call st2 = Crashed (UB Dangling_pointer)))"
proof -
  have "unanswered st" using assms(1-3) by (simp add: unanswered_def)
  from schedule_unanswered [OF this assms(4,5)] show ?thesis
  proof
    assume "unanswered st1 \<and> ct_object st1 = ct_object st"
    then show ?thesis by (simp add: unanswered_def waits_def)
  next
    assume lost: "stranded (ct_object st) st1"
    then show ?thesis using schedule_stranded [OF lost] by (fastforce simp: stranded_def polls_def)
  qed
qed

text \<open>The connection ends, the timer connects again, the caller polls.\<close>

definition waiting_client :: "demo_db client_threads" where
  "waiting_client = \<lparr>ct_client = up_client, ct_object = 0, ct_call = Polls 0\<rparr>"

theorem request_outlives_connection_witness:
  "\<exists>st1 st2. schedule (client_demo []) good_net [Loop_event BEV_EVENT_EOF, Task_svc] waiting_client = Some st1 \<and>
    ct_object st1 = 1 \<and> schedule (client_demo []) good_net [Caller_poll] st1 = Some st2 \<and>
    ct_call st1 = Polls 0 \<and> ct_call st2 = Crashed (UB Dangling_pointer)"
proof -
  let ?c1 = "up_client\<lparr>m_bConnect := BOOL_FALSE\<rparr>"
  have ev: "event_cb BEV_EVENT_EOF up_client = (Inr (), ?c1)"
    by (simp add: event_cb_def has_flag_def SetConnect_def prog_simps)
  have "cl_attempts up_client = 1" "m_pBase up_client = ptr_of (Some 0)"
    by (simp_all add: up_client_def client_eval good_net_def)
  then obtain c2 where "TryConnect (client_demo []) good_net ?c1 = (Inr BOOL_TRUE, c2)" "m_bConnect c2 = BOOL_TRUE"
    using TryConnect_succeeds [of ?c1 7 "Some 0" good_net 8 "client_demo []"]
    by (auto simp: BOOL_FALSE_def good_net_def)
  then have svc: "Svc (client_demo []) good_net ?c1 = (Inr (), c2)" "reconnected ?c1 c2"
    by (simp_all add: Svc_def client_IsConnect_def prog_simps BOOL_FALSE_def BOOL_TRUE_def reconnected_def)
  let ?st1 = "waiting_client\<lparr>ct_client := c2, ct_object := 1\<rparr>"
  have st1: "schedule (client_demo []) good_net [Loop_event BEV_EVENT_EOF, Task_svc] waiting_client = Some ?st1"
    using ev svc by (simp add: on_thread_client_def waiting_client_def)
  have waiting: "waits waiting_client" "m_spWorker (ct_client waiting_client) = Some (SetBev (Some 7) CClientWorker_new)"
    "m_cmdFinishFlag (SetBev (Some 7) CClientWorker_new) < 0"
    "\<forall>input. Loop_input input \<notin> set [Loop_event BEV_EVENT_EOF, Task_svc]"
    by (simp_all add: waiting_client_def waits_def CClientWorker_new_def CWorker_new_def SetBev_def cworker.defs)
  have "ct_object ?st1 \<noteq> ct_object waiting_client" by (simp add: waiting_client_def)
  then have "ct_call st2 = Crashed (UB Dangling_pointer)"
    if "schedule (client_demo []) good_net [Caller_poll] ?st1 = Some st2" for st2
    using request_outlives_connection [OF waiting st1] that by (metis list.set_intros(1))
  then show ?thesis
    using st1 by (intro exI [of _ ?st1] exI [of _ "?st1\<lparr>ct_call := poll_round ?st1\<rparr>"]) (simp add: waiting_client_def)
qed

section \<open>The end of a server\<close>

text \<open>The library calls for one worker thread.\<close>

definition thread_end :: "os \<Rightarrow> nat \<Rightarrow> teardown list" where
  "thread_end E i =
     (let base = os_thread_base E i
      in [Loopbreak (Some base), Base_free (Some base), Join (Some base), Delete_thread base])"

lemma started_thread_end [simp]:
  "spThread (started_thread E i)" "thread_base (started_thread E i) = os_thread_base E i"
  by (simp_all add: started_thread_def setup_libevent_thread_def Let_def)

lemma destroy_started:
  "destroy_threads (map (\<lambda>i. Some (started_thread E i)) is) tr = (Inr (), tr @ concat (map (thread_end E) is))"
  by (induction "is" arbitrary: tr) (simp_all add: prog_simps emit_def thread_end_def Let_def)

text \<open>C34: the end of a server that started: for each of the four threads, in order, the destructor breaks
  the loop, frees the event base and only then joins the thread that runs on it. When the server
  could bind its port, it then frees the listener and the main base and joins the accepting thread;
  when it could not, there is no listener, and the null pointer it passes to
  \<open>evconnlistener_free\<close> instead is an error.\<close>

theorem server_teardown:
  assumes "os_base E" and "\<forall>i < THREAD_NUMB. os_pair E i \<noteq> None"
  shows "\<exists>s. LibEvtServer_new L E d = (Inr True, s) \<and>
    LibEvtServer_destroy s [] =
      (if os_bind E listen_options (bind_port L)
       then (Inr (), concat (map (thread_end E) [0..<THREAD_NUMB]) @
              [Listener_free, Loopbreak None, Base_free None, Join None])
       else (Inl (UB Null_pointer), concat (map (thread_end E) [0..<THREAD_NUMB])))"
proof -
  obtain s where s: "LibEvtServer_new L E d = (Inr True, s)"
    "m_libevent_threads s = map (\<lambda>i. Some (started_thread E i)) [0..<THREAD_NUMB]"
    using server_new_up [OF assms, of L d] by blast
  show ?thesis
    using s(2) server_new_listener [OF s(1) assms(1)]
    by (intro exI [of _ s] conjI s(1))
       (simp add: LibEvtServer_destroy_def prog_simps destroy_started emit_def ptr_of_def the_ptr_def)
qed

theorem server_teardown_witness:
  "\<exists>s. LibEvtServer_new (server_demo []) sample_os (demo_world Map.empty) = (Inr True, s) \<and>
    take 4 (snd (LibEvtServer_destroy s [])) =
      [Loopbreak (Some 0), Base_free (Some 0), Join (Some 0), Delete_thread 0] \<and>
    fst (LibEvtServer_destroy s []) = Inr ()"
proof -
  obtain s where "LibEvtServer_new (server_demo []) sample_os (demo_world Map.empty) = (Inr True, s)"
    "LibEvtServer_destroy s [] =
      (Inr (), concat (map (thread_end sample_os) [0..<THREAD_NUMB]) @
         [Listener_free, Loopbreak None, Base_free None, Join None])"
    using server_teardown [OF sample_os_ok, of "server_demo []" "demo_world Map.empty"]
    by (auto simp: sample_os_def)
  then show ?thesis
    by (intro exI [of _ s]) (simp add: thread_end_def THREAD_NUMB_def upt_rec sample_os_def)
qed

end
