(* ===== verification/EventConfig.thy ===== *)
theory EventConfig
  imports CppString
begin

text \<open>
  The configuration of libevent the repository builds against
  (libevent/include/event2/event-config.h): for every macro the header speaks of, its replacement
  text, or \<open>None\<close> where the header leaves it undefined. A string literal is given by its
  contents. The program is C++ and does not define \<open>__USE_UNUSED_DEFINITIONS__\<close>, so the two
  macros that depend on these are undefined. The headers read the configuration with
  \<open>#ifdef\<close> and \<open>#if\<close>, which \<open>macro_defined\<close> and \<open>macro_int\<close> model.
\<close>

type_synonym macro_table = "(string \<times> string option) list"

definition macro_text :: "macro_table \<Rightarrow> string \<Rightarrow> string option" where
  "macro_text cfg m = (case map_of cfg m of None \<Rightarrow> None | Some v \<Rightarrow> v)"

definition macro_defined :: "macro_table \<Rightarrow> string \<Rightarrow> bool" where
  "macro_defined cfg m \<longleftrightarrow> macro_text cfg m \<noteq> None"

text \<open>
  A number in a preprocessor condition, decimal or hexadecimal; an identifier that is no macro
  counts as 0 there.
\<close>

definition hex_digit :: "char \<Rightarrow> int" where
  "hex_digit c =
     (let n = of_char c in
      if 48 \<le> n \<and> n \<le> 57 then n - 48 else if 97 \<le> n \<and> n \<le> 102 then n - 87 else n - 55)"

fun hex_value :: "int \<Rightarrow> string \<Rightarrow> int" where
  "hex_value acc [] = acc"
| "hex_value acc (c # s) = hex_value (16 * acc + hex_digit c) s"

definition number_value :: "string \<Rightarrow> int" where
  "number_value s = (if take 2 s = ''0x'' then hex_value 0 (drop 2 s) else digits_value 0 s)"

definition macro_int :: "macro_table \<Rightarrow> string \<Rightarrow> int" where
  "macro_int cfg m = (case macro_text cfg m of None \<Rightarrow> 0 | Some s \<Rightarrow> number_value s)"

section \<open>The table\<close>

text \<open>The version of the package and the switches of its build (lines 12-64).\<close>

definition config_package :: macro_table where
  "config_package =
    [(''EVENT__NUMERIC_VERSION'', Some ''0x02010c00''),
     (''EVENT__PACKAGE_VERSION'', Some ''2.1.12''),
     (''EVENT__VERSION_MAJOR'', Some ''2''),
     (''EVENT__VERSION_MINOR'', Some ''1''),
     (''EVENT__VERSION_PATCH'', Some ''12''),
     (''EVENT__VERSION'', Some ''2.1.12-stable''),
     (''EVENT__PACKAGE'', Some ''libevent''),
     (''EVENT__PACKAGE_BUGREPORT'', Some []),
     (''EVENT__PACKAGE_NAME'', Some []),
     (''EVENT__PACKAGE_STRING'', Some []),
     (''EVENT__PACKAGE_TARNAME'', Some []),
     (''EVENT__DISABLE_DEBUG_MODE'', None),
     (''EVENT__DISABLE_MM_REPLACEMENT'', None),
     (''EVENT__DISABLE_THREAD_SUPPORT'', None),
     (''EVENT__HAVE_ACCEPT4'', Some ''1''),
     (''EVENT__HAVE_ARC4RANDOM'', None),
     (''EVENT__HAVE_ARC4RANDOM_BUF'', None),
     (''EVENT__HAVE_ARC4RANDOM_ADDRANDOM'', None),
     (''EVENT__DNS_USE_CPU_CLOCK_FOR_ID'', Some ''1''),
     (''EVENT__DNS_USE_GETTIMEOFDAY_FOR_ID'', None),
     (''EVENT__DNS_USE_FTIME_FOR_ID'', None)]"

text \<open>Functions of the system (lines 66-188).\<close>

definition config_functions :: macro_table where
  "config_functions =
    [(''EVENT__HAVE_ARPA_INET_H'', Some ''1''),
     (''EVENT__HAVE_CLOCK_GETTIME'', Some ''1''),
     (''EVENT__HAVE_DECL_CTL_KERN'', Some ''1''),
     (''EVENT__HAVE_DECL_KERN_ARND'', Some ''0''),
     (''EVENT__HAVE_GETRANDOM'', Some ''1''),
     (''EVENT__HAVE_DEVPOLL'', None),
     (''EVENT__HAVE_NETDB_H'', Some ''1''),
     (''EVENT__HAVE_FD_MASK'', Some ''1''),
     (''EVENT__HAVE_TAILQFOREACH'', Some ''1''),
     (''EVENT__HAVE_DLFCN_H'', Some ''1''),
     (''EVENT__HAVE_EPOLL'', Some ''1''),
     (''EVENT__HAVE_EPOLL_CREATE1'', Some ''1''),
     (''EVENT__HAVE_EPOLL_CTL'', Some ''1''),
     (''EVENT__HAVE_EVENTFD'', Some ''1''),
     (''EVENT__HAVE_EVENT_PORTS'', None),
     (''EVENT__HAVE_FCNTL'', Some ''1''),
     (''EVENT__HAVE_FCNTL_H'', Some ''1''),
     (''EVENT__HAVE_GETADDRINFO'', Some ''1''),
     (''EVENT__HAVE_GETEGID'', Some ''1''),
     (''EVENT__HAVE_GETEUID'', Some ''1''),
     (''EVENT__HAVE_GETHOSTBYNAME_R'', Some ''1''),
     (''EVENT__HAVE_GETHOSTBYNAME_R_3_ARG'', None),
     (''EVENT__HAVE_GETHOSTBYNAME_R_5_ARG'', None),
     (''EVENT__HAVE_GETHOSTBYNAME_R_6_ARG'', Some ''1''),
     (''EVENT__HAVE_GETIFADDRS'', Some ''1''),
     (''EVENT__HAVE_GETNAMEINFO'', Some ''1''),
     (''EVENT__HAVE_GETPROTOBYNUMBER'', Some ''1''),
     (''EVENT__HAVE_GETSERVBYNAME'', Some ''1''),
     (''EVENT__HAVE_GETTIMEOFDAY'', Some ''1''),
     (''EVENT__HAVE_IFADDRS_H'', Some ''1''),
     (''EVENT__HAVE_INET_NTOP'', Some ''1''),
     (''EVENT__HAVE_INET_PTON'', Some ''1''),
     (''EVENT__HAVE_INTTYPES_H'', Some ''1''),
     (''EVENT__HAVE_ISSETUGID'', None),
     (''EVENT__HAVE_KQUEUE'', None),
     (''EVENT__HAVE_LIBZ'', Some ''1''),
     (''EVENT__HAVE_MACH_ABSOLUTE_TIME'', None),
     (''EVENT__HAVE_MACH_MACH_TIME_H'', None),
     (''EVENT__HAVE_MACH_MACH_H'', None),
     (''EVENT__HAVE_MEMORY_H'', Some ''1''),
     (''EVENT__HAVE_MMAP'', Some ''1'')]"

text \<open>Functions, headers and structures (lines 190-329).\<close>

definition config_headers :: macro_table where
  "config_headers =
    [(''EVENT__HAVE_NANOSLEEP'', Some ''1''),
     (''EVENT__HAVE_USLEEP'', Some ''1''),
     (''EVENT__HAVE_NETINET_IN6_H'', None),
     (''EVENT__HAVE_NETINET_IN_H'', Some ''1''),
     (''EVENT__HAVE_NETINET_TCP_H'', Some ''1''),
     (''EVENT__HAVE_SYS_UN_H'', Some ''1''),
     (''EVENT__HAVE_AFUNIX_H'', None),
     (''EVENT__HAVE_OPENSSL'', None),
     (''EVENT__HAVE_PIPE'', Some ''1''),
     (''EVENT__HAVE_PIPE2'', Some ''1''),
     (''EVENT__HAVE_POLL'', Some ''1''),
     (''EVENT__HAVE_POLL_H'', Some ''1''),
     (''EVENT__HAVE_PORT_CREATE'', None),
     (''EVENT__HAVE_PORT_H'', None),
     (''EVENT__HAVE_PTHREADS'', Some ''1''),
     (''EVENT__HAVE_PUTENV'', Some ''1''),
     (''EVENT__HAVE_SA_FAMILY_T'', Some ''1''),
     (''EVENT__HAVE_SELECT'', Some ''1''),
     (''EVENT__HAVE_SETENV'', Some ''1''),
     (''EVENT__HAVE_SETFD'', Some ''1''),
     (''EVENT__HAVE_SETRLIMIT'', Some ''1''),
     (''EVENT__HAVE_SENDFILE'', Some ''1''),
     (''EVENT__HAVE_SIGACTION'', Some ''1''),
     (''EVENT__HAVE_SIGNAL'', Some ''1''),
     (''EVENT__HAVE_SPLICE'', Some ''1''),
     (''EVENT__HAVE_STDARG_H'', Some ''1''),
     (''EVENT__HAVE_STDDEF_H'', Some ''1''),
     (''EVENT__HAVE_STDINT_H'', Some ''1''),
     (''EVENT__HAVE_STDLIB_H'', Some ''1''),
     (''EVENT__HAVE_STRING_H'', Some ''1''),
     (''EVENT__HAVE_STRLCPY'', None),
     (''EVENT__HAVE_STRSEP'', Some ''1''),
     (''EVENT__HAVE_STRTOK_R'', Some ''1''),
     (''EVENT__HAVE_STRTOLL'', Some ''1''),
     (''EVENT__HAVE__GMTIME64_S'', None),
     (''EVENT__HAVE__GMTIME64'', None),
     (''EVENT__HAVE_STRUCT_ADDRINFO'', Some ''1''),
     (''EVENT__HAVE_STRUCT_IN6_ADDR'', Some ''1''),
     (''EVENT__HAVE_STRUCT_IN6_ADDR_S6_ADDR16'', Some ''1''),
     (''EVENT__HAVE_STRUCT_IN6_ADDR_S6_ADDR32'', Some ''1''),
     (''EVENT__HAVE_STRUCT_SOCKADDR_IN6'', Some ''1''),
     (''EVENT__HAVE_STRUCT_SOCKADDR_IN6_SIN6_LEN'', None),
     (''EVENT__HAVE_STRUCT_SOCKADDR_IN_SIN_LEN'', None),
     (''EVENT__HAVE_STRUCT_SOCKADDR_UN'', Some ''1''),
     (''EVENT__HAVE_STRUCT_SOCKADDR_STORAGE'', Some ''1''),
     (''EVENT__HAVE_STRUCT_SOCKADDR_STORAGE_SS_FAMILY'', Some ''1''),
     (''EVENT__HAVE_STRUCT_SOCKADDR_STORAGE___SS_FAMILY'', None)]"

text \<open>System headers and types (lines 331-435).\<close>

definition config_system :: macro_table where
  "config_system =
    [(''EVENT__HAVE_STRUCT_LINGER'', Some ''1''),
     (''EVENT__HAVE_SYSCTL'', None),
     (''EVENT__HAVE_SYS_EPOLL_H'', Some ''1''),
     (''EVENT__HAVE_SYS_EVENTFD_H'', Some ''1''),
     (''EVENT__HAVE_SYS_EVENT_H'', None),
     (''EVENT__HAVE_SYS_IOCTL_H'', Some ''1''),
     (''EVENT__HAVE_SYS_MMAN_H'', Some ''1''),
     (''EVENT__HAVE_SYS_PARAM_H'', Some ''1''),
     (''EVENT__HAVE_SYS_QUEUE_H'', Some ''1''),
     (''EVENT__HAVE_SYS_RESOURCE_H'', Some ''1''),
     (''EVENT__HAVE_SYS_SELECT_H'', Some ''1''),
     (''EVENT__HAVE_SYS_SENDFILE_H'', Some ''1''),
     (''EVENT__HAVE_SYS_SOCKET_H'', Some ''1''),
     (''EVENT__HAVE_SYS_STAT_H'', Some ''1''),
     (''EVENT__HAVE_SYS_RANDOM_H'', Some ''1''),
     (''EVENT__HAVE_SYS_SYSCTL_H'', None),
     (''EVENT__HAVE_SYS_TIMERFD_H'', Some ''1''),
     (''EVENT__HAVE_SYS_TIME_H'', Some ''1''),
     (''EVENT__HAVE_SYS_TYPES_H'', Some ''1''),
     (''EVENT__HAVE_SYS_UIO_H'', Some ''1''),
     (''EVENT__HAVE_SYS_WAIT_H'', Some ''1''),
     (''EVENT__HAVE_ERRNO_H'', Some ''1''),
     (''EVENT__HAVE_TAILQFOREACH'', Some ''1''),
     (''EVENT__HAVE_TIMERADD'', Some ''1''),
     (''EVENT__HAVE_TIMERCLEAR'', Some ''1''),
     (''EVENT__HAVE_TIMERCMP'', Some ''1''),
     (''EVENT__HAVE_TIMERFD_CREATE'', Some ''1''),
     (''EVENT__HAVE_TIMERISSET'', Some ''1''),
     (''EVENT__HAVE_UINT8_T'', Some ''1''),
     (''EVENT__HAVE_UINT16_T'', Some ''1''),
     (''EVENT__HAVE_UINT32_T'', Some ''1''),
     (''EVENT__HAVE_UINT64_T'', Some ''1''),
     (''EVENT__HAVE_UINTPTR_T'', Some ''1''),
     (''EVENT__HAVE_UMASK'', Some ''1''),
     (''EVENT__HAVE_UNISTD_H'', Some ''1'')]"

text \<open>Sizes and names of the basic types (lines 437-511).\<close>

definition config_sizes :: macro_table where
  "config_sizes =
    [(''EVENT__HAVE_UNSETENV'', Some ''1''),
     (''EVENT__HAVE_VASPRINTF'', Some ''1''),
     (''EVENT__HAVE_WORKING_KQUEUE'', None),
     (''EVENT__PTHREAD_CREATE_JOINABLE'', None),
     (''EVENT__SIZEOF_PTHREAD_T'', Some ''8''),
     (''EVENT__SIZEOF_INT'', Some ''4''),
     (''EVENT__SIZEOF_LONG'', Some ''8''),
     (''EVENT__SIZEOF_LONG_LONG'', Some ''8''),
     (''EVENT__SIZEOF_OFF_T'', Some ''8''),
     (''EVENT__SIZEOF_SSIZE_T'', Some ''8''),
     (''EVENT__SIZEOF_SHORT'', Some ''2''),
     (''EVENT__SIZEOF_SIZE_T'', Some ''8''),
     (''EVENT__TIME_WITH_SYS_TIME'', None),
     (''EVENT__SIZEOF_SOCKLEN_T'', Some ''4''),
     (''EVENT__SIZEOF_VOID_P'', Some ''8''),
     (''EVENT__inline'', None),
     (''EVENT__HAVE___func__'', Some ''1''),
     (''EVENT__HAVE___FUNCTION__'', Some ''1''),
     (''EVENT__size_t'', Some ''size_t''),
     (''EVENT__socklen_t'', Some ''socklen_t''),
     (''EVENT__ssize_t'', Some ''ssize_t'')]"

definition event_config :: macro_table where
  "event_config = config_package @ config_functions @ config_headers @ config_system @ config_sizes"

lemmas config_defs = event_config_def config_package_def config_functions_def config_headers_def
  config_system_def config_sizes_def

section \<open>What the headers ask for\<close>

text \<open>Looking an entry up walks the table one key at a time.\<close>

lemma lookup_next: "k' \<noteq> k \<Longrightarrow> map_of xs k = v \<Longrightarrow> map_of ((k', w) # xs) k = v"
  by simp

lemma lookup_here: "map_of ((k, w) # xs) k = Some w"
  by simp

lemma config_lookup_1:
  "map_of event_config ''EVENT__NUMERIC_VERSION'' = Some (Some ''0x02010c00'')"
  "map_of event_config ''EVENT__VERSION_MAJOR'' = Some (Some ''2'')"
  "map_of event_config ''EVENT__VERSION_MINOR'' = Some (Some ''1'')"
  unfolding config_defs append.simps
  by ((rule lookup_here | (rule lookup_next, (simp; fail)))+)

lemma config_lookup_2:
  "map_of event_config ''EVENT__VERSION_PATCH'' = Some (Some ''12'')"
  "map_of event_config ''EVENT__SIZEOF_SHORT'' = Some (Some ''2'')"
  "map_of event_config ''EVENT__SIZEOF_INT'' = Some (Some ''4'')"
  unfolding config_defs append.simps
  by ((rule lookup_here | (rule lookup_next, (simp; fail)))+)

lemma config_lookup_3:
  "map_of event_config ''EVENT__SIZEOF_LONG'' = Some (Some ''8'')"
  "map_of event_config ''EVENT__SIZEOF_LONG_LONG'' = Some (Some ''8'')"
  "map_of event_config ''EVENT__SIZEOF_VOID_P'' = Some (Some ''8'')"
  unfolding config_defs append.simps
  by ((rule lookup_here | (rule lookup_next, (simp; fail)))+)

lemma config_lookup_4:
  "map_of event_config ''EVENT__SIZEOF_OFF_T'' = Some (Some ''8'')"
  "map_of event_config ''EVENT__SIZEOF_SIZE_T'' = Some (Some ''8'')"
  "map_of event_config ''EVENT__HAVE_UINT64_T'' = Some (Some ''1'')"
  unfolding config_defs append.simps
  by ((rule lookup_here | (rule lookup_next, (simp; fail)))+)

lemma config_lookup_5:
  "map_of event_config ''EVENT__HAVE_UINT32_T'' = Some (Some ''1'')"
  "map_of event_config ''EVENT__HAVE_UINT16_T'' = Some (Some ''1'')"
  "map_of event_config ''EVENT__HAVE_UINT8_T'' = Some (Some ''1'')"
  unfolding config_defs append.simps
  by ((rule lookup_here | (rule lookup_next, (simp; fail)))+)

lemma config_lookup_6:
  "map_of event_config ''EVENT__HAVE_UINTPTR_T'' = Some (Some ''1'')"
  "map_of event_config ''EVENT__HAVE_STDINT_H'' = Some (Some ''1'')"
  "map_of event_config ''EVENT__HAVE_TIMERADD'' = Some (Some ''1'')"
  unfolding config_defs append.simps
  by ((rule lookup_here | (rule lookup_next, (simp; fail)))+)

lemma config_lookup_7:
  "map_of event_config ''EVENT__HAVE_TIMERCLEAR'' = Some (Some ''1'')"
  "map_of event_config ''EVENT__HAVE_TIMERISSET'' = Some (Some ''1'')"
  "map_of event_config ''EVENT__HAVE_GETADDRINFO'' = Some (Some ''1'')"
  unfolding config_defs append.simps
  by ((rule lookup_here | (rule lookup_next, (simp; fail)))+)

lemma config_lookup_8:
  "map_of event_config ''EVENT__DISABLE_THREAD_SUPPORT'' = Some (None)"
  unfolding config_defs append.simps
  by ((rule lookup_here | (rule lookup_next, (simp; fail)))+)

lemmas config_lookup = config_lookup_1 config_lookup_2 config_lookup_3 config_lookup_4 config_lookup_5 config_lookup_6 config_lookup_7 config_lookup_8

lemma config_macros [simp]:
  "macro_int event_config ''EVENT__SIZEOF_SHORT'' = 2"
  "macro_int event_config ''EVENT__SIZEOF_INT'' = 4"
  "macro_int event_config ''EVENT__SIZEOF_LONG'' = 8"
  "macro_int event_config ''EVENT__SIZEOF_LONG_LONG'' = 8"
  "macro_int event_config ''EVENT__SIZEOF_VOID_P'' = 8"
  "macro_int event_config ''EVENT__SIZEOF_OFF_T'' = 8"
  "macro_int event_config ''EVENT__SIZEOF_SIZE_T'' = 8"
  "macro_defined event_config ''EVENT__HAVE_UINT64_T''"
  "macro_defined event_config ''EVENT__HAVE_UINT32_T''"
  "macro_defined event_config ''EVENT__HAVE_UINT16_T''"
  "macro_defined event_config ''EVENT__HAVE_UINT8_T''"
  "macro_defined event_config ''EVENT__HAVE_UINTPTR_T''"
  "macro_defined event_config ''EVENT__HAVE_STDINT_H''"
  "macro_defined event_config ''EVENT__HAVE_TIMERADD''"
  "macro_defined event_config ''EVENT__HAVE_TIMERCLEAR''"
  "macro_defined event_config ''EVENT__HAVE_TIMERISSET''"
  "macro_defined event_config ''EVENT__HAVE_GETADDRINFO''"
  "\<not> macro_defined event_config ''EVENT__DISABLE_THREAD_SUPPORT''"
  by (simp_all add: macro_int_def macro_defined_def macro_text_def config_lookup number_value_def)

text \<open>The numeric version packs the three parts of the version, one per byte from the top.\<close>

lemma config_version:
  "macro_int event_config ''EVENT__NUMERIC_VERSION'' =
     macro_int event_config ''EVENT__VERSION_MAJOR'' * 2 ^ 24 +
     macro_int event_config ''EVENT__VERSION_MINOR'' * 2 ^ 16 +
     macro_int event_config ''EVENT__VERSION_PATCH'' * 2 ^ 8"
  by (simp add: macro_int_def macro_text_def config_lookup number_value_def hex_digit_def)

end
