(* ===== verification/EventUtil.thy ===== *)
theory EventUtil
  imports EventConfig "HOL-Library.Word"
begin

unbundle bit_operations_syntax

text \<open>
  The portability layer of libevent/include/event2/util.h: which C type stands behind each
  \<open>ev_...\<close> name, the limits of these types, the codes of \<open>evutil_getaddrinfo\<close>, and the
  arithmetic on \<open>struct timeval\<close>. The preprocessor's choices are functions of the configuration
  and of whether \<open>_WIN32\<close> is defined; a branch that ends in \<open>#error\<close> is \<open>None\<close>.
\<close>

section \<open>Integer types (lines 112-220)\<close>

text \<open>The C types the macros expand to; \<open>Exact n\<close> are the types of \<open>stdint.h\<close>.\<close>

datatype cbase =
    C_char | C_short | C_int | C_long | C_llong | MS_int64 | Exact nat | C_intptr
  | C_off_t | C_ssize_t | Named string

datatype ctype = Unsigned cbase | Signed cbase

text \<open>The sizes, in bytes, that a compiler gives to the basic types.\<close>

record platform =
  sz_short :: nat
  sz_int :: nat
  sz_long :: nat
  sz_llong :: nat
  sz_ptr :: nat
  sz_off :: nat
  sz_size :: nat

fun base_bits :: "platform \<Rightarrow> cbase \<Rightarrow> nat" where
  "base_bits P C_char = 8"
| "base_bits P C_short = 8 * sz_short P"
| "base_bits P C_int = 8 * sz_int P"
| "base_bits P C_long = 8 * sz_long P"
| "base_bits P C_llong = 8 * sz_llong P"
| "base_bits P MS_int64 = 64"
| "base_bits P (Exact n) = n"
| "base_bits P C_intptr = 8 * sz_ptr P"
| "base_bits P C_off_t = 8 * sz_off P"
| "base_bits P C_ssize_t = 8 * sz_size P"
| "base_bits P (Named s) = 8 * sz_size P"

fun bits :: "platform \<Rightarrow> ctype \<Rightarrow> nat" where
  "bits P (Unsigned b) = base_bits P b"
| "bits P (Signed b) = base_bits P b"

text \<open>The bases of the unsigned and the signed type of each name.\<close>

definition int64_base :: "macro_table \<Rightarrow> bool \<Rightarrow> cbase option" where
  "int64_base cfg win =
     (if macro_defined cfg ''EVENT__HAVE_UINT64_T'' then Some (Exact 64)
      else if win then Some MS_int64
      else if macro_int cfg ''EVENT__SIZEOF_LONG_LONG'' = 8 then Some C_llong
      else if macro_int cfg ''EVENT__SIZEOF_LONG'' = 8 then Some C_long
      else None)"

definition int32_base :: "macro_table \<Rightarrow> bool \<Rightarrow> cbase option" where
  "int32_base cfg win =
     (if macro_defined cfg ''EVENT__HAVE_UINT32_T'' then Some (Exact 32)
      else if win then Some C_int
      else if macro_int cfg ''EVENT__SIZEOF_LONG'' = 4 then Some C_long
      else if macro_int cfg ''EVENT__SIZEOF_INT'' = 4 then Some C_int
      else None)"

definition int16_base :: "macro_table \<Rightarrow> bool \<Rightarrow> cbase option" where
  "int16_base cfg win =
     (if macro_defined cfg ''EVENT__HAVE_UINT16_T'' then Some (Exact 16)
      else if win then Some C_short
      else if macro_int cfg ''EVENT__SIZEOF_INT'' = 2 then Some C_int
      else if macro_int cfg ''EVENT__SIZEOF_SHORT'' = 2 then Some C_short
      else None)"

definition int8_base :: "macro_table \<Rightarrow> cbase option" where
  "int8_base cfg = Some (if macro_defined cfg ''EVENT__HAVE_UINT8_T'' then Exact 8 else C_char)"

definition ev_uint64_t :: "macro_table \<Rightarrow> bool \<Rightarrow> ctype option" where
  "ev_uint64_t cfg win = map_option Unsigned (int64_base cfg win)"
definition ev_int64_t :: "macro_table \<Rightarrow> bool \<Rightarrow> ctype option" where
  "ev_int64_t cfg win = map_option Signed (int64_base cfg win)"
definition ev_uint32_t :: "macro_table \<Rightarrow> bool \<Rightarrow> ctype option" where
  "ev_uint32_t cfg win = map_option Unsigned (int32_base cfg win)"
definition ev_int32_t :: "macro_table \<Rightarrow> bool \<Rightarrow> ctype option" where
  "ev_int32_t cfg win = map_option Signed (int32_base cfg win)"
definition ev_uint16_t :: "macro_table \<Rightarrow> bool \<Rightarrow> ctype option" where
  "ev_uint16_t cfg win = map_option Unsigned (int16_base cfg win)"
definition ev_int16_t :: "macro_table \<Rightarrow> bool \<Rightarrow> ctype option" where
  "ev_int16_t cfg win = map_option Signed (int16_base cfg win)"
definition ev_uint8_t :: "macro_table \<Rightarrow> ctype option" where
  "ev_uint8_t cfg = map_option Unsigned (int8_base cfg)"
definition ev_int8_t :: "macro_table \<Rightarrow> ctype option" where
  "ev_int8_t cfg = map_option Signed (int8_base cfg)"

definition sizeof_void_p :: "macro_table \<Rightarrow> int" where
  "sizeof_void_p cfg =
     (if macro_defined cfg ''EVENT__SIZEOF_VOID__'' \<and> \<not> macro_defined cfg ''EVENT__SIZEOF_VOID_P''
      then macro_int cfg ''EVENT__SIZEOF_VOID__'' else macro_int cfg ''EVENT__SIZEOF_VOID_P'')"

definition ev_uintptr_t :: "macro_table \<Rightarrow> bool \<Rightarrow> ctype option" where
  "ev_uintptr_t cfg win =
     (if macro_defined cfg ''EVENT__HAVE_UINTPTR_T'' then Some (Unsigned C_intptr)
      else if sizeof_void_p cfg \<le> 4 then ev_uint32_t cfg win
      else if sizeof_void_p cfg \<le> 8 then ev_uint64_t cfg win
      else None)"

definition ev_intptr_t :: "macro_table \<Rightarrow> bool \<Rightarrow> ctype option" where
  "ev_intptr_t cfg win =
     (if macro_defined cfg ''EVENT__HAVE_UINTPTR_T'' then Some (Signed C_intptr)
      else if sizeof_void_p cfg \<le> 4 then ev_int32_t cfg win
      else if sizeof_void_p cfg \<le> 8 then ev_int64_t cfg win
      else None)"

definition ev_ssize_t :: "macro_table \<Rightarrow> ctype" where
  "ev_ssize_t cfg =
     (case macro_text cfg ''EVENT__ssize_t'' of
        None \<Rightarrow> Signed C_ssize_t
      | Some t \<Rightarrow> if t = ''ssize_t'' then Signed C_ssize_t else Signed (Named t))"

definition ev_off_t :: "macro_table \<Rightarrow> bool \<Rightarrow> ctype option" where
  "ev_off_t cfg win =
     (if win then ev_int64_t cfg win
      else if macro_int cfg ''EVENT__SIZEOF_OFF_T'' = 8 then ev_int64_t cfg win
      else if macro_int cfg ''EVENT__SIZEOF_OFF_T'' = 4 then ev_int32_t cfg win
      else Some (Signed C_off_t))"

text \<open>The type of a socket (lines 306-311).\<close>

definition evutil_socket_t :: "bool \<Rightarrow> ctype" where
  "evutil_socket_t win = (if win then Signed C_intptr else Signed C_int)"

text \<open>
  A configuration that tells the truth about the compiler: every size it states is the size the
  compiler gives. Windows compilers have four-byte \<open>int\<close> and two-byte \<open>short\<close>.
\<close>

definition config_fits :: "macro_table \<Rightarrow> platform \<Rightarrow> bool" where
  "config_fits cfg P \<longleftrightarrow>
     macro_int cfg ''EVENT__SIZEOF_SHORT'' = int (sz_short P) \<and>
     macro_int cfg ''EVENT__SIZEOF_INT'' = int (sz_int P) \<and>
     macro_int cfg ''EVENT__SIZEOF_LONG'' = int (sz_long P) \<and>
     macro_int cfg ''EVENT__SIZEOF_LONG_LONG'' = int (sz_llong P) \<and>
     sizeof_void_p cfg = int (sz_ptr P) \<and>
     macro_int cfg ''EVENT__SIZEOF_OFF_T'' = int (sz_off P) \<and>
     macro_int cfg ''EVENT__SIZEOF_SIZE_T'' = int (sz_size P)"

definition windows_sizes :: "platform \<Rightarrow> bool" where
  "windows_sizes P \<longleftrightarrow> sz_int P = 4 \<and> sz_short P = 2"

lemmas int_base_defs = int64_base_def int32_base_def int16_base_def int8_base_def

lemmas ev_type_defs = ev_uint64_t_def ev_int64_t_def ev_uint32_t_def ev_int32_t_def
  ev_uint16_t_def ev_int16_t_def ev_uint8_t_def ev_int8_t_def

lemma base_widths:
  assumes "config_fits cfg P" and "win \<longrightarrow> windows_sizes P"
  shows "int64_base cfg win = Some b \<Longrightarrow> base_bits P b = 64"
    and "int32_base cfg win = Some b \<Longrightarrow> base_bits P b = 32"
    and "int16_base cfg win = Some b \<Longrightarrow> base_bits P b = 16"
    and "int8_base cfg = Some b \<Longrightarrow> base_bits P b = 8"
  using assms
  by (auto simp: int_base_defs config_fits_def windows_sizes_def split: if_splits)

text \<open>The pointer types hold every pointer.\<close>

lemma ptr_widths:
  assumes "config_fits cfg P" and "win \<longrightarrow> windows_sizes P"
  shows "ev_uintptr_t cfg win = Some t \<Longrightarrow> 8 * sz_ptr P \<le> bits P t"
    and "ev_intptr_t cfg win = Some t \<Longrightarrow> 8 * sz_ptr P \<le> bits P t"
  using assms base_widths [OF assms]
  by (auto simp: ev_uintptr_t_def ev_intptr_t_def ev_type_defs config_fits_def split: if_splits)

lemma off_width:
  assumes "config_fits cfg P" and "win \<longrightarrow> windows_sizes P" and "ev_off_t cfg win = Some t"
  shows "bits P t = (if win then 64 else 8 * sz_off P)"
  using assms base_widths [OF assms(1,2)]
  by (auto simp: ev_off_t_def ev_type_defs config_fits_def split: if_splits)

section \<open>Limits (lines 238-286)\<close>

text \<open>
  Without \<open>stdint.h\<close> the limits are computed by shifting and masking in the types themselves;
  with it they are its constants. Both are given as the number they denote.
\<close>

definition EV_UINT64_MAX :: "macro_table \<Rightarrow> int" where
  "EV_UINT64_MAX cfg =
     (if \<not> macro_defined cfg ''EVENT__HAVE_STDINT_H''
      then uint (push_bit 32 (0xffffffff :: 64 word) OR 0xffffffff) else 2 ^ 64 - 1)"
definition EV_INT64_MAX :: "macro_table \<Rightarrow> int" where
  "EV_INT64_MAX cfg =
     (if \<not> macro_defined cfg ''EVENT__HAVE_STDINT_H''
      then sint (push_bit 32 (0x7fffffff :: 64 word) OR 0xffffffff) else 2 ^ 63 - 1)"
definition EV_INT64_MIN :: "macro_table \<Rightarrow> int" where
  "EV_INT64_MIN cfg =
     (if \<not> macro_defined cfg ''EVENT__HAVE_STDINT_H'' then - EV_INT64_MAX cfg - 1 else - (2 ^ 63))"
definition EV_UINT32_MAX :: "macro_table \<Rightarrow> int" where
  "EV_UINT32_MAX cfg =
     (if \<not> macro_defined cfg ''EVENT__HAVE_STDINT_H'' then uint (0xffffffff :: 32 word) else 2 ^ 32 - 1)"
definition EV_INT32_MAX :: "macro_table \<Rightarrow> int" where
  "EV_INT32_MAX cfg =
     (if \<not> macro_defined cfg ''EVENT__HAVE_STDINT_H'' then sint (0x7fffffff :: 32 word) else 2 ^ 31 - 1)"
definition EV_INT32_MIN :: "macro_table \<Rightarrow> int" where
  "EV_INT32_MIN cfg =
     (if \<not> macro_defined cfg ''EVENT__HAVE_STDINT_H'' then - EV_INT32_MAX cfg - 1 else - (2 ^ 31))"
definition EV_UINT16_MAX :: "macro_table \<Rightarrow> int" where
  "EV_UINT16_MAX cfg =
     (if \<not> macro_defined cfg ''EVENT__HAVE_STDINT_H'' then uint (0xffff :: 16 word) else 2 ^ 16 - 1)"
definition EV_INT16_MAX :: "macro_table \<Rightarrow> int" where
  "EV_INT16_MAX cfg =
     (if \<not> macro_defined cfg ''EVENT__HAVE_STDINT_H'' then sint (0x7fff :: 16 word) else 2 ^ 15 - 1)"
definition EV_INT16_MIN :: "macro_table \<Rightarrow> int" where
  "EV_INT16_MIN cfg =
     (if \<not> macro_defined cfg ''EVENT__HAVE_STDINT_H'' then - EV_INT16_MAX cfg - 1 else - (2 ^ 15))"
definition EV_UINT8_MAX :: "macro_table \<Rightarrow> int" where
  "EV_UINT8_MAX cfg = (if \<not> macro_defined cfg ''EVENT__HAVE_STDINT_H'' then 255 else 2 ^ 8 - 1)"
definition EV_INT8_MAX :: "macro_table \<Rightarrow> int" where
  "EV_INT8_MAX cfg = (if \<not> macro_defined cfg ''EVENT__HAVE_STDINT_H'' then 127 else 2 ^ 7 - 1)"
definition EV_INT8_MIN :: "macro_table \<Rightarrow> int" where
  "EV_INT8_MIN cfg =
     (if \<not> macro_defined cfg ''EVENT__HAVE_STDINT_H'' then - EV_INT8_MAX cfg - 1 else - (2 ^ 7))"

definition EV_SIZE_MAX :: "macro_table \<Rightarrow> int option" where
  "EV_SIZE_MAX cfg =
     (if macro_int cfg ''EVENT__SIZEOF_SIZE_T'' = 8 then Some (EV_UINT64_MAX cfg)
      else if macro_int cfg ''EVENT__SIZEOF_SIZE_T'' = 4 then Some (EV_UINT32_MAX cfg)
      else None)"
definition EV_SSIZE_MAX :: "macro_table \<Rightarrow> int option" where
  "EV_SSIZE_MAX cfg =
     (if macro_int cfg ''EVENT__SIZEOF_SIZE_T'' = 8 then Some (EV_INT64_MAX cfg)
      else if macro_int cfg ''EVENT__SIZEOF_SIZE_T'' = 4 then Some (EV_INT32_MAX cfg)
      else None)"
definition EV_SSIZE_MIN :: "macro_table \<Rightarrow> int option" where
  "EV_SSIZE_MIN cfg = map_option (\<lambda>m. - m - 1) (EV_SSIZE_MAX cfg)"

lemmas limit_defs = EV_UINT64_MAX_def EV_INT64_MAX_def EV_INT64_MIN_def EV_UINT32_MAX_def
  EV_INT32_MAX_def EV_INT32_MIN_def EV_UINT16_MAX_def EV_INT16_MAX_def EV_INT16_MIN_def
  EV_UINT8_MAX_def EV_INT8_MAX_def EV_INT8_MIN_def

lemma limits_unsigned:
  "EV_UINT64_MAX cfg = 2 ^ 64 - 1" "EV_UINT32_MAX cfg = 2 ^ 32 - 1"
  "EV_UINT16_MAX cfg = 2 ^ 16 - 1" "EV_UINT8_MAX cfg = 2 ^ 8 - 1"
  by (simp_all add: limit_defs push_bit_eq_mult)

lemma limits_signed_max:
  "EV_INT64_MAX cfg = 2 ^ 63 - 1" "EV_INT32_MAX cfg = 2 ^ 31 - 1"
  "EV_INT16_MAX cfg = 2 ^ 15 - 1" "EV_INT8_MAX cfg = 2 ^ 7 - 1"
  by (simp_all add: limit_defs push_bit_eq_mult)

lemma limits_signed_min:
  "EV_INT64_MIN cfg = - (2 ^ 63)" "EV_INT32_MIN cfg = - (2 ^ 31)"
  "EV_INT16_MIN cfg = - (2 ^ 15)" "EV_INT8_MIN cfg = - (2 ^ 7)"
  by (simp_all add: EV_INT64_MIN_def EV_INT32_MIN_def EV_INT16_MIN_def EV_INT8_MIN_def limits_signed_max)

lemma size_limit:
  assumes "config_fits cfg P"
  shows "EV_SIZE_MAX cfg = Some m \<Longrightarrow> m = 2 ^ (8 * sz_size P) - 1"
    and "EV_SSIZE_MAX cfg = Some k \<Longrightarrow> k = 2 ^ (8 * sz_size P - 1) - 1"
  using assms
  by (auto simp: EV_SIZE_MAX_def EV_SSIZE_MAX_def config_fits_def limits_unsigned limits_signed_max
      split: if_splits)

section \<open>Codes of \<open>evutil_getaddrinfo\<close> (lines 697-791)\<close>

text \<open>
  Each code is the system's constant when the system has one and has \<open>getaddrinfo\<close>, and a number
  of libevent's own otherwise. \<open>sys\<close> gives the constants the system's headers define.
\<close>

definition sys_or :: "macro_table \<Rightarrow> int option \<Rightarrow> int \<Rightarrow> int" where
  "sys_or cfg v own =
     (case v of Some c \<Rightarrow> if macro_defined cfg ''EVENT__HAVE_GETADDRINFO'' then c else own | None \<Rightarrow> own)"

definition eai_own :: "(string \<times> int) list" where
  "eai_own =
     [(''EAI_ADDRFAMILY'', -901), (''EAI_AGAIN'', -902), (''EAI_BADFLAGS'', -903), (''EAI_FAIL'', -904),
      (''EAI_FAMILY'', -905), (''EAI_MEMORY'', -906), (''EAI_NODATA'', -907), (''EAI_NONAME'', -908),
      (''EAI_SERVICE'', -909), (''EAI_SOCKTYPE'', -910), (''EAI_SYSTEM'', -911)]"

text \<open>\<open>EAI_NODATA\<close> is not used when it is the same number as \<open>EAI_NONAME\<close>.\<close>

definition eai_system :: "(string \<Rightarrow> int option) \<Rightarrow> string \<Rightarrow> int option" where
  "eai_system sys name =
     (if name = ''EAI_NODATA'' \<and> sys ''EAI_NODATA'' \<noteq> None \<and> sys ''EAI_NONAME'' = sys ''EAI_NODATA''
      then None else sys name)"

definition EVUTIL_EAI :: "macro_table \<Rightarrow> (string \<Rightarrow> int option) \<Rightarrow> string \<times> int \<Rightarrow> int" where
  "EVUTIL_EAI cfg sys = (\<lambda>(name, own). sys_or cfg (eai_system sys name) own)"

definition EVUTIL_EAI_CANCEL :: int where "EVUTIL_EAI_CANCEL = -90001"

definition eai_codes :: "macro_table \<Rightarrow> (string \<Rightarrow> int option) \<Rightarrow> int list" where
  "eai_codes cfg sys = map (EVUTIL_EAI cfg sys) eai_own @ [EVUTIL_EAI_CANCEL]"

definition ai_own :: "(string \<times> int) list" where
  "ai_own =
     [(''AI_PASSIVE'', 0x1000), (''AI_CANONNAME'', 0x2000), (''AI_NUMERICHOST'', 0x4000),
      (''AI_NUMERICSERV'', 0x8000), (''AI_V4MAPPED'', 0x10000), (''AI_ALL'', 0x20000),
      (''AI_ADDRCONFIG'', 0x40000)]"

definition EVUTIL_AI :: "macro_table \<Rightarrow> (string \<Rightarrow> int option) \<Rightarrow> string \<times> int \<Rightarrow> int" where
  "EVUTIL_AI cfg sys = (\<lambda>(name, own). sys_or cfg (sys name) own)"

text \<open>
  What the header assumes of the system: no two of its codes are equal, \<open>EAI_NODATA\<close> and
  \<open>EAI_NONAME\<close> excepted, and none is one of libevent's own.
\<close>

definition system_codes_ok :: "(string \<Rightarrow> int option) \<Rightarrow> bool" where
  "system_codes_ok sys \<longleftrightarrow>
     (\<forall>a \<in> fst ` set eai_own. \<forall>b \<in> fst ` set eai_own.
        sys a \<noteq> None \<and> sys a = sys b \<longrightarrow> a = b \<or> {a, b} = {''EAI_NODATA'', ''EAI_NONAME''}) \<and>
     (\<forall>a \<in> fst ` set eai_own. \<forall>c. sys a = Some c \<longrightarrow> c \<notin> snd ` set eai_own \<and> c \<noteq> EVUTIL_EAI_CANCEL)"

lemma eai_own_distinct: "distinct (map fst eai_own)" "distinct (map snd eai_own)"
  "EVUTIL_EAI_CANCEL \<notin> snd ` set eai_own"
  by (simp_all add: eai_own_def EVUTIL_EAI_CANCEL_def)

lemma eai_system_inj:
  assumes "system_codes_ok sys" and "a \<in> fst ` set eai_own" and "b \<in> fst ` set eai_own"
    and "eai_system sys a = Some c" and "eai_system sys b = Some c"
  shows "a = b"
proof (rule ccontr)
  assume "a \<noteq> b"
  have s: "sys a = Some c" "sys b = Some c"
    using assms(4,5) by (auto simp: eai_system_def split: if_splits)
  with assms(1-3) \<open>a \<noteq> b\<close> have "{a, b} = {''EAI_NODATA'', ''EAI_NONAME''}"
    unfolding system_codes_ok_def by (metis option.distinct(1))
  with s assms(4,5) show False by (auto simp: eai_system_def doubleton_eq_iff split: if_splits)
qed

lemma EVUTIL_EAI_cases:
  assumes "system_codes_ok sys" and "(a, own) \<in> set eai_own"
  obtains "EVUTIL_EAI cfg sys (a, own) = own"
  | c where "EVUTIL_EAI cfg sys (a, own) = c" and "eai_system sys a = Some c"
      and "c \<notin> snd ` set eai_own" and "c \<noteq> EVUTIL_EAI_CANCEL"
proof (cases "eai_system sys a")
  case None
  then show ?thesis using that(1) by (simp add: EVUTIL_EAI_def sys_or_def)
next
  case (Some c)
  then have "sys a = Some c" by (auto simp: eai_system_def split: if_splits)
  moreover have "a \<in> fst ` set eai_own" using assms(2) by (metis fst_conv image_eqI)
  ultimately have "c \<notin> snd ` set eai_own \<and> c \<noteq> EVUTIL_EAI_CANCEL"
    by (intro assms(1) [unfolded system_codes_ok_def, THEN conjunct2, rule_format])
  then show ?thesis
    using that Some by (cases "macro_defined cfg ''EVENT__HAVE_GETADDRINFO''") (simp_all add: EVUTIL_EAI_def sys_or_def)
qed

lemma EVUTIL_EAI_inj:
  assumes "system_codes_ok sys" and "p \<in> set eai_own" and "q \<in> set eai_own"
    and "EVUTIL_EAI cfg sys p = EVUTIL_EAI cfg sys q"
  shows "p = q"
proof -
  obtain a own where p: "p = (a, own)" by (cases p)
  obtain b other where q: "q = (b, other)" by (cases q)
  have mem: "own \<in> snd ` set eai_own" "other \<in> snd ` set eai_own" "a \<in> fst ` set eai_own" "b \<in> fst ` set eai_own"
    using image_eqI [OF _ assms(2), of _ snd] image_eqI [OF _ assms(3), of _ snd]
      image_eqI [OF _ assms(2), of _ fst] image_eqI [OF _ assms(3), of _ fst] p q by simp_all
  have "a = b \<or> own = other"
  proof (cases rule: EVUTIL_EAI_cases [OF assms(1) assms(2)[unfolded p], where cfg = cfg])
    case 1
    then show ?thesis
      using EVUTIL_EAI_cases [OF assms(1) assms(3)[unfolded q], where cfg = cfg] assms(4) mem p q by metis
  next
    case (2 c)
    then show ?thesis
      using EVUTIL_EAI_cases [OF assms(1) assms(3)[unfolded q], where cfg = cfg] assms(4) mem p q
        eai_system_inj [OF assms(1)] by metis
  qed
  then show ?thesis
    using assms(2,3) p q eai_own_distinct(1,2)
    by (metis distinct_map fst_conv inj_on_def snd_conv)
qed

lemma eai_codes_distinct: "system_codes_ok sys \<Longrightarrow> distinct (eai_codes cfg sys)"
proof -
  assume ok: "system_codes_ok sys"
  have "distinct (map (EVUTIL_EAI cfg sys) eai_own)"
    using EVUTIL_EAI_inj [OF ok] eai_own_distinct(1) by (auto simp: distinct_map inj_on_def)
  moreover have "EVUTIL_EAI_CANCEL \<notin> EVUTIL_EAI cfg sys ` set eai_own"
  proof
    assume "EVUTIL_EAI_CANCEL \<in> EVUTIL_EAI cfg sys ` set eai_own"
    then obtain a own where "(a, own) \<in> set eai_own" "EVUTIL_EAI cfg sys (a, own) = EVUTIL_EAI_CANCEL"
      by auto
    then show False
      using EVUTIL_EAI_cases [OF ok, of a own cfg] eai_own_distinct(3) by (metis image_eqI snd_conv)
  qed
  ultimately show ?thesis by (simp add: eai_codes_def)
qed

end
