(* ===== verification/EventTime.thy ===== *)
theory EventTime
  imports EventUtil
begin

text \<open>
  The macros on \<open>struct timeval\<close> of libevent/include/event2/util.h (lines 519-569), which the
  timeouts of events are made with. The two fields are \<open>long\<close>s of \<open>n\<close> bits, whose overflow is
  undefined. When the system defines \<open>timeradd\<close> and its companions the macros expand to these,
  which are parameters. The specification is the number of microseconds a value stands for.
\<close>

record timeval =
  tv_sec :: int
  tv_usec :: int

definition long_result :: "nat \<Rightarrow> int \<Rightarrow> error + int" where
  "long_result n v = (if - (2 ^ (n - 1)) \<le> v \<and> v < 2 ^ (n - 1) then Inr v else Inl (UB Signed_overflow))"

definition bind_result :: "error + 'a \<Rightarrow> ('a \<Rightarrow> error + 'b) \<Rightarrow> error + 'b" where
  "bind_result r f = (case r of Inl e \<Rightarrow> Inl e | Inr a \<Rightarrow> f a)"

definition evutil_timeradd ::
    "macro_table \<Rightarrow> (timeval \<Rightarrow> timeval \<Rightarrow> error + timeval) \<Rightarrow> nat \<Rightarrow> timeval \<Rightarrow> timeval \<Rightarrow>
       error + timeval" where
  "evutil_timeradd cfg timeradd n tvp uvp =
     (if macro_defined cfg ''EVENT__HAVE_TIMERADD'' then timeradd tvp uvp
      else
        bind_result (long_result n (tv_sec tvp + tv_sec uvp)) (\<lambda>sec.
        bind_result (long_result n (tv_usec tvp + tv_usec uvp)) (\<lambda>usec.
        if usec \<ge> 1000000 then
          bind_result (long_result n (sec + 1)) (\<lambda>sec.
          bind_result (long_result n (usec - 1000000)) (\<lambda>usec.
          Inr \<lparr>tv_sec = sec, tv_usec = usec\<rparr>))
        else Inr \<lparr>tv_sec = sec, tv_usec = usec\<rparr>)))"

definition evutil_timersub ::
    "macro_table \<Rightarrow> (timeval \<Rightarrow> timeval \<Rightarrow> error + timeval) \<Rightarrow> nat \<Rightarrow> timeval \<Rightarrow> timeval \<Rightarrow>
       error + timeval" where
  "evutil_timersub cfg timersub n tvp uvp =
     (if macro_defined cfg ''EVENT__HAVE_TIMERADD'' then timersub tvp uvp
      else
        bind_result (long_result n (tv_sec tvp - tv_sec uvp)) (\<lambda>sec.
        bind_result (long_result n (tv_usec tvp - tv_usec uvp)) (\<lambda>usec.
        if usec < 0 then
          bind_result (long_result n (sec - 1)) (\<lambda>sec.
          bind_result (long_result n (usec + 1000000)) (\<lambda>usec.
          Inr \<lparr>tv_sec = sec, tv_usec = usec\<rparr>))
        else Inr \<lparr>tv_sec = sec, tv_usec = usec\<rparr>)))"

definition evutil_timerclear :: "macro_table \<Rightarrow> (timeval \<Rightarrow> timeval) \<Rightarrow> timeval \<Rightarrow> timeval" where
  "evutil_timerclear cfg timerclear tvp =
     (if macro_defined cfg ''EVENT__HAVE_TIMERCLEAR'' then timerclear tvp
      else tvp\<lparr>tv_usec := 0, tv_sec := 0\<rparr>)"

definition evutil_timercmp :: "timeval \<Rightarrow> timeval \<Rightarrow> (int \<Rightarrow> int \<Rightarrow> bool) \<Rightarrow> bool" where
  "evutil_timercmp tvp uvp cmp =
     (if tv_sec tvp = tv_sec uvp then cmp (tv_usec tvp) (tv_usec uvp) else cmp (tv_sec tvp) (tv_sec uvp))"

definition evutil_timerisset :: "macro_table \<Rightarrow> (timeval \<Rightarrow> bool) \<Rightarrow> timeval \<Rightarrow> bool" where
  "evutil_timerisset cfg timerisset tvp =
     (if macro_defined cfg ''EVENT__HAVE_TIMERISSET'' then timerisset tvp
      else tv_sec tvp \<noteq> 0 \<or> tv_usec tvp \<noteq> 0)"

section \<open>Specification\<close>

definition usecs :: "timeval \<Rightarrow> int" where
  "usecs t = tv_sec t * 1000000 + tv_usec t"

definition normal_time :: "timeval \<Rightarrow> bool" where
  "normal_time t \<longleftrightarrow> 0 \<le> tv_usec t \<and> tv_usec t < 1000000"

lemma normal_time_eq: "normal_time t \<Longrightarrow> normal_time u \<Longrightarrow> usecs t = usecs u \<Longrightarrow> t = u"
proof -
  assume t: "normal_time t" and u: "normal_time u" and e: "usecs t = usecs u"
  have "tv_sec t = usecs t div 1000000" "tv_sec u = usecs u div 1000000"
    using t u by (auto simp: usecs_def normal_time_def)
  then have "tv_sec t = tv_sec u" using e by simp
  moreover have "tv_usec t = tv_usec u" using e calculation by (simp add: usecs_def)
  ultimately show "t = u" by (cases t, cases u) simp
qed

lemma bind_result_Inr: "bind_result r f = Inr b \<longleftrightarrow> (\<exists>a. r = Inr a \<and> f a = Inr b)"
  by (auto simp: bind_result_def split: sum.splits)

lemma long_result_Inr: "long_result n v = Inr w \<Longrightarrow> w = v"
  by (auto simp: long_result_def split: if_splits)

lemma long_result_small:
  assumes "32 \<le> n" and "-2147483648 \<le> v" and "v < 2147483648"
  shows "long_result n v = Inr v"
proof -
  have "(2::int) ^ 31 \<le> 2 ^ (n - 1)" using assms(1) by (intro power_increasing) auto
  with assms(2,3) show ?thesis by (auto simp: long_result_def)
qed

text \<open>The sum and the difference are exact and stay normal.\<close>

lemma timeradd_exact:
  assumes "\<not> macro_defined cfg ''EVENT__HAVE_TIMERADD''"
    and "evutil_timeradd cfg sys n t u = Inr v"
    and "normal_time t" and "normal_time u"
  shows "usecs v = usecs t + usecs u" and "normal_time v"
  using assms
  by (auto simp: evutil_timeradd_def bind_result_Inr usecs_def normal_time_def
      dest!: long_result_Inr split: if_splits)

lemma timersub_exact:
  assumes "\<not> macro_defined cfg ''EVENT__HAVE_TIMERADD''"
    and "evutil_timersub cfg sys n t u = Inr v"
    and "normal_time t" and "normal_time u"
  shows "usecs v = usecs t - usecs u" and "normal_time v"
  using assms
  by (auto simp: evutil_timersub_def bind_result_Inr usecs_def normal_time_def
      dest!: long_result_Inr split: if_splits)

text \<open>The sum does not overflow on values below 2 to the 30 seconds, even with 32-bit fields, nor
  does a difference that fits.\<close>

definition moderate :: "timeval \<Rightarrow> bool" where
  "moderate t \<longleftrightarrow> - (2 ^ 30) < tv_sec t \<and> tv_sec t < 2 ^ 30"

lemma timeradd_defined:
  assumes "\<not> macro_defined cfg ''EVENT__HAVE_TIMERADD''" and "32 \<le> n"
    and "normal_time t" and "normal_time u" and "moderate t" and "moderate u"
  shows "\<exists>v. evutil_timeradd cfg sys n t u = Inr v"
  using assms(1,3-6)
  by (auto simp: evutil_timeradd_def bind_result_def long_result_small [OF assms(2)] normal_time_def moderate_def)

lemma timersub_defined:
  assumes "\<not> macro_defined cfg ''EVENT__HAVE_TIMERADD''" and "32 \<le> n"
    and "normal_time t" and "normal_time u"
    and "-2147483647 \<le> tv_sec t - tv_sec u" and "tv_sec t - tv_sec u < 2147483648"
  shows "\<exists>v. evutil_timersub cfg sys n t u = Inr v"
  using assms(1,3-6)
  by (auto simp: evutil_timersub_def bind_result_def long_result_small [OF assms(2)] normal_time_def)

text \<open>Comparing fields is comparing microseconds, for each of the five operators.\<close>

lemma timercmp_exact:
  assumes "normal_time t" and "normal_time u"
  shows "evutil_timercmp t u (<) = (usecs t < usecs u)"
    and "evutil_timercmp t u (\<le>) = (usecs t \<le> usecs u)"
    and "evutil_timercmp t u (=) = (usecs t = usecs u)"
    and "evutil_timercmp t u (\<ge>) = (usecs t \<ge> usecs u)"
    and "evutil_timercmp t u (>) = (usecs t > usecs u)"
proof -
  have "tv_sec t < tv_sec u \<Longrightarrow> usecs t < usecs u" and "tv_sec u < tv_sec t \<Longrightarrow> usecs u < usecs t"
    using assms by (auto simp: usecs_def normal_time_def)
  then show "evutil_timercmp t u (<) = (usecs t < usecs u)"
    and "evutil_timercmp t u (\<le>) = (usecs t \<le> usecs u)"
    and "evutil_timercmp t u (=) = (usecs t = usecs u)"
    and "evutil_timercmp t u (\<ge>) = (usecs t \<ge> usecs u)"
    and "evutil_timercmp t u (>) = (usecs t > usecs u)"
    by (cases "tv_sec t" "tv_sec u" rule: linorder_cases; force simp: evutil_timercmp_def usecs_def)+
qed

lemma timerisset_usecs:
  assumes "\<not> macro_defined cfg ''EVENT__HAVE_TIMERISSET''" and "normal_time t"
  shows "evutil_timerisset cfg sys t = (usecs t \<noteq> 0)"
proof -
  have sec: "tv_sec t = usecs t div 1000000" using assms(2) by (simp add: usecs_def normal_time_def)
  have "(tv_sec t \<noteq> 0 \<or> tv_usec t \<noteq> 0) = (usecs t \<noteq> 0)"
  proof (cases "usecs t = 0")
    case True
    with sec have "tv_sec t = 0" by simp
    with True show ?thesis by (simp add: usecs_def)
  next
    case False
    then show ?thesis by (auto simp: usecs_def)
  qed
  then show ?thesis using assms(1) by (simp add: evutil_timerisset_def)
qed

end
