(* ===== verification/EventProps.thy ===== *)
theory EventProps
  imports EventTime
begin

text \<open>Properties of libevent's portability layer as the repository configures it.\<close>

text \<open>The 64-bit Linux compilers the bundled configuration was made for.\<close>

definition lp64 :: platform where
  "lp64 = \<lparr>sz_short = 2, sz_int = 4, sz_long = 8, sz_llong = 8, sz_ptr = 8, sz_off = 8, sz_size = 8\<rparr>"

lemma void_p_defined: "macro_defined event_config ''EVENT__SIZEOF_VOID_P''"
  by (simp add: macro_defined_def macro_text_def config_lookup)

lemma sizeof_void_p_config [simp]: "sizeof_void_p event_config = 8"
  using void_p_defined by (simp add: sizeof_void_p_def)

lemma config_fits_lp64: "config_fits event_config lp64"
  by (simp add: config_fits_def lp64_def)

text \<open>
  The bundled configuration tells the truth about compilers with eight-byte pointers and an
  eight-byte \<open>long\<close> only: neither about Windows, whose \<open>long\<close> has four bytes, nor about the
  32-bit ARM compilers of the repository's toolchain file.
\<close>

lemma config_fits_only_lp64: "config_fits event_config P \<Longrightarrow> sz_ptr P = 8 \<and> sz_long P = 8"
  by (simp add: config_fits_def)

text \<open>C39: the integer types of libevent's headers have the widths they promise, for every configuration
  that states the sizes of the compiler's basic types truly: exactly 64, 32, 16 and 8 bits, wide enough
  for a pointer, and for a file offset; the largest \<open>size_t\<close> is that of its width.\<close>

theorem integer_types_exact:
  assumes "config_fits cfg P" and "win \<longrightarrow> windows_sizes P"
  shows "pred_option (\<lambda>t. bits P t = 64) (ev_uint64_t cfg win) \<and> pred_option (\<lambda>t. bits P t = 64) (ev_int64_t cfg win) \<and>
    pred_option (\<lambda>t. bits P t = 32) (ev_uint32_t cfg win) \<and> pred_option (\<lambda>t. bits P t = 32) (ev_int32_t cfg win) \<and>
    pred_option (\<lambda>t. bits P t = 16) (ev_uint16_t cfg win) \<and> pred_option (\<lambda>t. bits P t = 16) (ev_int16_t cfg win) \<and>
    pred_option (\<lambda>t. bits P t = 8) (ev_uint8_t cfg) \<and> pred_option (\<lambda>t. bits P t = 8) (ev_int8_t cfg) \<and>
    pred_option (\<lambda>t. 8 * sz_ptr P \<le> bits P t) (ev_uintptr_t cfg win) \<and>
    pred_option (\<lambda>t. 8 * sz_ptr P \<le> bits P t) (ev_intptr_t cfg win) \<and>
    pred_option (\<lambda>t. bits P t = (if win then 64 else 8 * sz_off P)) (ev_off_t cfg win) \<and>
    pred_option (\<lambda>m. m = 2 ^ (8 * sz_size P) - 1) (EV_SIZE_MAX cfg)"
proof -
  note w = base_widths [OF assms]
  have "pred_option (\<lambda>t. bits P t = 64) (ev_uint64_t cfg win)" "pred_option (\<lambda>t. bits P t = 64) (ev_int64_t cfg win)"
    "pred_option (\<lambda>t. bits P t = 32) (ev_uint32_t cfg win)" "pred_option (\<lambda>t. bits P t = 32) (ev_int32_t cfg win)"
    "pred_option (\<lambda>t. bits P t = 16) (ev_uint16_t cfg win)" "pred_option (\<lambda>t. bits P t = 16) (ev_int16_t cfg win)"
    "pred_option (\<lambda>t. bits P t = 8) (ev_uint8_t cfg)" "pred_option (\<lambda>t. bits P t = 8) (ev_int8_t cfg)"
    using w by (auto simp: ev_type_defs option.pred_set)
  moreover have "pred_option (\<lambda>t. 8 * sz_ptr P \<le> bits P t) (ev_uintptr_t cfg win)"
    "pred_option (\<lambda>t. 8 * sz_ptr P \<le> bits P t) (ev_intptr_t cfg win)"
    using ptr_widths [OF assms] by (simp_all add: option.pred_set)
  moreover have "pred_option (\<lambda>t. bits P t = (if win then 64 else 8 * sz_off P)) (ev_off_t cfg win)"
    using off_width [OF assms] by (simp only: option.pred_set) simp
  moreover have "pred_option (\<lambda>m. m = 2 ^ (8 * sz_size P) - 1) (EV_SIZE_MAX cfg)"
    using size_limit [OF assms(1)] by (simp add: option.pred_set)
  ultimately show ?thesis by blast
qed

theorem integer_types_exact_witness:
  "ev_uint64_t event_config False = Some (Unsigned (Exact 64)) \<and>
   pred_option (\<lambda>t. bits lp64 t = 64) (ev_uint64_t event_config False) \<and>
   pred_option (\<lambda>m. m = 2 ^ (8 * sz_size lp64) - 1) (EV_SIZE_MAX event_config)"
  using integer_types_exact [OF config_fits_lp64, of False] by (simp add: ev_type_defs int_base_defs)

text \<open>C40: libevent's own macros on \<open>struct timeval\<close>, which stand in where the system has
  none, are exact on normal times below 2 to the 30 seconds, with \<open>long\<close>s of 32 bits or
  more: the sum stands for the sum of the microseconds and is normal, subtracting undoes it, and the
  comparison \<open><\<close> compares microseconds.\<close>

theorem time_arithmetic_exact:
  assumes "\<not> macro_defined cfg ''EVENT__HAVE_TIMERADD''" and "32 \<le> n"
    and "normal_time t" and "normal_time u" and "moderate t" and "moderate u"
  shows "\<exists>v. evutil_timeradd cfg sysadd n t u = Inr v \<and> normal_time v \<and> usecs v = usecs t + usecs u \<and>
    evutil_timersub cfg syssub n v u = Inr t \<and> evutil_timercmp t u (<) = (usecs t < usecs u)"
proof -
  obtain v where v: "evutil_timeradd cfg sysadd n t u = Inr v" using timeradd_defined [OF assms] by blast
  note add = timeradd_exact [OF assms(1) v assms(3,4)]
  have s: "tv_sec v * 1000000 + tv_usec v = (tv_sec t + tv_sec u) * 1000000 + (tv_usec t + tv_usec u)"
    using add(1) by (simp add: usecs_def algebra_simps)
  define k where "k = tv_sec v - tv_sec t - tv_sec u"
  have "k * 1000000 = tv_usec t + tv_usec u - tv_usec v" using s by (simp add: k_def algebra_simps)
  then have "-1 < k" "k < 2" using assms(3,4) add(2) unfolding normal_time_def by linarith+
  then have "tv_sec v - tv_sec u = tv_sec t \<or> tv_sec v - tv_sec u = tv_sec t + 1"
    unfolding k_def by linarith
  then have "-2147483647 \<le> tv_sec v - tv_sec u" "tv_sec v - tv_sec u < 2147483648"
    using assms(5) by (auto simp: moderate_def)
  then obtain w where w: "evutil_timersub cfg syssub n v u = Inr w"
    using timersub_defined [OF assms(1,2) add(2) assms(4)] by blast
  note sub = timersub_exact [OF assms(1) w add(2) assms(4)]
  have "w = t" using sub add(1) assms(3) by (intro normal_time_eq) simp_all
  with v w add timercmp_exact(1) [OF assms(3,4)] show ?thesis by blast
qed

theorem time_arithmetic_exact_witness:
  "\<exists>v. evutil_timeradd [] (\<lambda>t u. Inr t) 32 \<lparr>tv_sec = 1, tv_usec = 700000\<rparr> \<lparr>tv_sec = 2, tv_usec = 600000\<rparr> = Inr v \<and>
     usecs v = 4300000"
  using time_arithmetic_exact [of "[]" 32 "\<lparr>tv_sec = 1, tv_usec = 700000\<rparr>" "\<lparr>tv_sec = 2, tv_usec = 600000\<rparr>"
      "\<lambda>t u. Inr t" "\<lambda>t u. Inr t"]
  by (auto simp: macro_defined_def macro_text_def normal_time_def moderate_def usecs_def)

end
