(* ===== verification/EventNames.thy ===== *)
theory EventNames
  imports EventFlags
begin

text \<open>
  The names libevent's other public headers give to numbers (libevent/include/event2/): the modes,
  results and options of buffers and bufferevents, the request types, codes and flags of HTTP, the
  codes and flags of DNS, the flags of the lock interface and the codes of RPC. An enumeration is a
  datatype with the number of each enumerator; numbers that callers combine with \<open>|\<close> are words and
  interpret \<open>flag_family\<close>.
\<close>

section \<open>Bufferevents (event2/bufferevent.h)\<close>

datatype bufferevent_flush_mode = BEV_NORMAL | BEV_FLUSH | BEV_FINISHED

fun flush_mode_code :: "bufferevent_flush_mode \<Rightarrow> int" where
  "flush_mode_code BEV_NORMAL = 0"
| "flush_mode_code BEV_FLUSH = 1"
| "flush_mode_code BEV_FINISHED = 2"

datatype bufferevent_trigger_options = BEV_TRIG_IGNORE_WATERMARKS | BEV_TRIG_DEFER_CALLBACKS

fun trigger_option_bit :: "bufferevent_trigger_options \<Rightarrow> 32 word" where
  "trigger_option_bit BEV_TRIG_IGNORE_WATERMARKS = push_bit 16 1"
| "trigger_option_bit BEV_TRIG_DEFER_CALLBACKS = bev_option_bit BEV_OPT_DEFER_CALLBACKS"

datatype bufferevent_filter_result = BEV_OK | BEV_NEED_MORE | BEV_ERROR

fun filter_result_code :: "bufferevent_filter_result \<Rightarrow> int" where
  "filter_result_code BEV_OK = 0"
| "filter_result_code BEV_NEED_MORE = 1"
| "filter_result_code BEV_ERROR = 2"

text \<open>
  The header notes that trigger options and bufferevent options must be disjoint unless they mean
  the same thing: together they are one family.
\<close>

interpretation bev_trigger: flag_family "trigger_option_bit BEV_TRIG_IGNORE_WATERMARKS # bev_options"
  by unfold_locales (simp add: bev_options_def push_bit_eq_mult)

lemma trigger_options_disjoint:
  "trigger_option_bit t \<in> set bev_options \<longleftrightarrow> t = BEV_TRIG_DEFER_CALLBACKS"
  by (cases t) (simp_all add: bev_options_def push_bit_eq_mult)

section \<open>Buffers (event2/buffer.h)\<close>

definition EVBUFFER_FLAG_DRAINS_TO_FD :: "64 word" where "EVBUFFER_FLAG_DRAINS_TO_FD = 1"
definition EVBUFFER_CB_ENABLED :: "32 word" where "EVBUFFER_CB_ENABLED = 1"

datatype evbuffer_eol_style =
    EVBUFFER_EOL_ANY
  | EVBUFFER_EOL_CRLF
  | EVBUFFER_EOL_CRLF_STRICT
  | EVBUFFER_EOL_LF
  | EVBUFFER_EOL_NUL

definition EVBUF_FS_CLOSE_ON_FREE :: "32 word" where "EVBUF_FS_CLOSE_ON_FREE = 0x01"
definition EVBUF_FS_DISABLE_MMAP :: "32 word" where "EVBUF_FS_DISABLE_MMAP = 0x02"
definition EVBUF_FS_DISABLE_SENDFILE :: "32 word" where "EVBUF_FS_DISABLE_SENDFILE = 0x04"
definition EVBUF_FS_DISABLE_LOCKING :: "32 word" where "EVBUF_FS_DISABLE_LOCKING = 0x08"

definition evbuf_fs_flags :: "32 word list" where
  "evbuf_fs_flags = [EVBUF_FS_CLOSE_ON_FREE, EVBUF_FS_DISABLE_MMAP, EVBUF_FS_DISABLE_SENDFILE,
     EVBUF_FS_DISABLE_LOCKING]"

interpretation evbuf_fs: flag_family evbuf_fs_flags
  by unfold_locales
     (simp add: evbuf_fs_flags_def EVBUF_FS_CLOSE_ON_FREE_def EVBUF_FS_DISABLE_MMAP_def
        EVBUF_FS_DISABLE_SENDFILE_def EVBUF_FS_DISABLE_LOCKING_def)

datatype evbuffer_ptr_how = EVBUFFER_PTR_SET | EVBUFFER_PTR_ADD

section \<open>HTTP (event2/http.h)\<close>

datatype http_status =
    HTTP_OK | HTTP_NOCONTENT | HTTP_MOVEPERM | HTTP_MOVETEMP | HTTP_NOTMODIFIED | HTTP_BADREQUEST
  | HTTP_NOTFOUND | HTTP_BADMETHOD | HTTP_ENTITYTOOLARGE | HTTP_EXPECTATIONFAILED | HTTP_INTERNAL
  | HTTP_NOTIMPLEMENTED | HTTP_SERVUNAVAIL

fun http_status_code :: "http_status \<Rightarrow> int" where
  "http_status_code HTTP_OK = 200"
| "http_status_code HTTP_NOCONTENT = 204"
| "http_status_code HTTP_MOVEPERM = 301"
| "http_status_code HTTP_MOVETEMP = 302"
| "http_status_code HTTP_NOTMODIFIED = 304"
| "http_status_code HTTP_BADREQUEST = 400"
| "http_status_code HTTP_NOTFOUND = 404"
| "http_status_code HTTP_BADMETHOD = 405"
| "http_status_code HTTP_ENTITYTOOLARGE = 413"
| "http_status_code HTTP_EXPECTATIONFAILED = 417"
| "http_status_code HTTP_INTERNAL = 500"
| "http_status_code HTTP_NOTIMPLEMENTED = 501"
| "http_status_code HTTP_SERVUNAVAIL = 503"

datatype evhttp_cmd_type =
    EVHTTP_REQ_GET | EVHTTP_REQ_POST | EVHTTP_REQ_HEAD | EVHTTP_REQ_PUT | EVHTTP_REQ_DELETE
  | EVHTTP_REQ_OPTIONS | EVHTTP_REQ_TRACE | EVHTTP_REQ_CONNECT | EVHTTP_REQ_PATCH

fun http_method_bit :: "evhttp_cmd_type \<Rightarrow> 32 word" where
  "http_method_bit EVHTTP_REQ_GET = push_bit 0 1"
| "http_method_bit EVHTTP_REQ_POST = push_bit 1 1"
| "http_method_bit EVHTTP_REQ_HEAD = push_bit 2 1"
| "http_method_bit EVHTTP_REQ_PUT = push_bit 3 1"
| "http_method_bit EVHTTP_REQ_DELETE = push_bit 4 1"
| "http_method_bit EVHTTP_REQ_OPTIONS = push_bit 5 1"
| "http_method_bit EVHTTP_REQ_TRACE = push_bit 6 1"
| "http_method_bit EVHTTP_REQ_CONNECT = push_bit 7 1"
| "http_method_bit EVHTTP_REQ_PATCH = push_bit 8 1"

interpretation http_method: flag_family
    "map http_method_bit [EVHTTP_REQ_GET, EVHTTP_REQ_POST, EVHTTP_REQ_HEAD, EVHTTP_REQ_PUT,
       EVHTTP_REQ_DELETE, EVHTTP_REQ_OPTIONS, EVHTTP_REQ_TRACE, EVHTTP_REQ_CONNECT, EVHTTP_REQ_PATCH]"
  by unfold_locales (simp add: push_bit_eq_mult)

datatype evhttp_request_kind = EVHTTP_REQUEST | EVHTTP_RESPONSE

datatype evhttp_request_error =
    EVREQ_HTTP_TIMEOUT
  | EVREQ_HTTP_EOF
  | EVREQ_HTTP_INVALID_HEADER
  | EVREQ_HTTP_BUFFER_ERROR
  | EVREQ_HTTP_REQUEST_CANCEL
  | EVREQ_HTTP_DATA_TOO_LONG

definition EVHTTP_SERVER_LINGERING_CLOSE :: "32 word" where "EVHTTP_SERVER_LINGERING_CLOSE = 0x0001"
definition EVHTTP_CON_REUSE_CONNECTED_ADDR :: "32 word" where "EVHTTP_CON_REUSE_CONNECTED_ADDR = 0x0008"
definition EVHTTP_CON_READ_ON_WRITE_ERROR :: "32 word" where "EVHTTP_CON_READ_ON_WRITE_ERROR = 0x0010"
definition EVHTTP_CON_LINGERING_CLOSE :: "32 word" where "EVHTTP_CON_LINGERING_CLOSE = 0x0020"
definition EVHTTP_CON_PUBLIC_FLAGS_END :: "32 word" where "EVHTTP_CON_PUBLIC_FLAGS_END = 0x100000"
definition EVHTTP_URI_NONCONFORMANT :: "32 word" where "EVHTTP_URI_NONCONFORMANT = 0x01"

definition http_con_flags :: "32 word list" where
  "http_con_flags = [EVHTTP_CON_REUSE_CONNECTED_ADDR, EVHTTP_CON_READ_ON_WRITE_ERROR, EVHTTP_CON_LINGERING_CLOSE]"

lemmas http_con_defs = http_con_flags_def EVHTTP_CON_REUSE_CONNECTED_ADDR_def
  EVHTTP_CON_READ_ON_WRITE_ERROR_def EVHTTP_CON_LINGERING_CLOSE_def EVHTTP_CON_PUBLIC_FLAGS_END_def

interpretation http_con: flag_family "http_con_flags @ [EVHTTP_CON_PUBLIC_FLAGS_END]"
  by unfold_locales (simp add: http_con_defs)

text \<open>The public flags lie below the padding.\<close>

lemma http_public_flags: "unat (combine http_con_flags) < unat EVHTTP_CON_PUBLIC_FLAGS_END"
  by (simp add: http_con_defs)

section \<open>DNS (event2/dns.h)\<close>

datatype dns_err =
    DNS_ERR_NONE | DNS_ERR_FORMAT | DNS_ERR_SERVERFAILED | DNS_ERR_NOTEXIST | DNS_ERR_NOTIMPL
  | DNS_ERR_REFUSED | DNS_ERR_TRUNCATED | DNS_ERR_UNKNOWN | DNS_ERR_TIMEOUT | DNS_ERR_SHUTDOWN
  | DNS_ERR_CANCEL | DNS_ERR_NODATA

fun dns_err_code :: "dns_err \<Rightarrow> int" where
  "dns_err_code DNS_ERR_NONE = 0"
| "dns_err_code DNS_ERR_FORMAT = 1"
| "dns_err_code DNS_ERR_SERVERFAILED = 2"
| "dns_err_code DNS_ERR_NOTEXIST = 3"
| "dns_err_code DNS_ERR_NOTIMPL = 4"
| "dns_err_code DNS_ERR_REFUSED = 5"
| "dns_err_code DNS_ERR_TRUNCATED = 65"
| "dns_err_code DNS_ERR_UNKNOWN = 66"
| "dns_err_code DNS_ERR_TIMEOUT = 67"
| "dns_err_code DNS_ERR_SHUTDOWN = 68"
| "dns_err_code DNS_ERR_CANCEL = 69"
| "dns_err_code DNS_ERR_NODATA = 70"

text \<open>Codes above the four bits of RFC 1035 are libevent's own.\<close>

definition dns_err_from_wire :: "dns_err \<Rightarrow> bool" where
  "dns_err_from_wire e \<longleftrightarrow> dns_err_code e \<le> 5"

definition DNS_IPv4_A :: int where "DNS_IPv4_A = 1"
definition DNS_PTR :: int where "DNS_PTR = 2"
definition DNS_IPv6_AAAA :: int where "DNS_IPv6_AAAA = 3"
definition DNS_QUERY_NO_SEARCH :: int where "DNS_QUERY_NO_SEARCH = 1"
definition DNS_NO_SEARCH :: int where "DNS_NO_SEARCH = DNS_QUERY_NO_SEARCH"

definition DNS_OPTION_SEARCH :: "32 word" where "DNS_OPTION_SEARCH = 1"
definition DNS_OPTION_NAMESERVERS :: "32 word" where "DNS_OPTION_NAMESERVERS = 2"
definition DNS_OPTION_MISC :: "32 word" where "DNS_OPTION_MISC = 4"
definition DNS_OPTION_HOSTSFILE :: "32 word" where "DNS_OPTION_HOSTSFILE = 8"
definition DNS_OPTION_NAMESERVERS_NO_DEFAULT :: "32 word" where "DNS_OPTION_NAMESERVERS_NO_DEFAULT = 16"

definition DNS_OPTIONS_ALL :: "32 word" where
  "DNS_OPTIONS_ALL =
     DNS_OPTION_SEARCH OR DNS_OPTION_NAMESERVERS OR DNS_OPTION_MISC OR DNS_OPTION_HOSTSFILE OR 0"

lemmas dns_option_defs = DNS_OPTION_SEARCH_def DNS_OPTION_NAMESERVERS_def DNS_OPTION_MISC_def
  DNS_OPTION_HOSTSFILE_def DNS_OPTION_NAMESERVERS_NO_DEFAULT_def

interpretation dns_option: flag_family
    "[DNS_OPTION_SEARCH, DNS_OPTION_NAMESERVERS, DNS_OPTION_MISC, DNS_OPTION_HOSTSFILE,
      DNS_OPTION_NAMESERVERS_NO_DEFAULT]"
  by unfold_locales (simp add: dns_option_defs)

text \<open>\<open>DNS_OPTIONS_ALL\<close> is every option but the one for the default name server.\<close>

lemma dns_options_all:
  assumes "f \<in> {DNS_OPTION_SEARCH, DNS_OPTION_NAMESERVERS, DNS_OPTION_MISC, DNS_OPTION_HOSTSFILE,
    DNS_OPTION_NAMESERVERS_NO_DEFAULT}"
  shows "has_flag DNS_OPTIONS_ALL f \<longleftrightarrow> f \<noteq> DNS_OPTION_NAMESERVERS_NO_DEFAULT"
  using assms by (auto simp: DNS_OPTIONS_ALL_def has_flag_def dns_option_defs)

definition EVDNS_BASE_INITIALIZE_NAMESERVERS :: "32 word" where "EVDNS_BASE_INITIALIZE_NAMESERVERS = 1"
definition EVDNS_BASE_DISABLE_WHEN_INACTIVE :: "32 word" where "EVDNS_BASE_DISABLE_WHEN_INACTIVE = 0x8000"
definition EVDNS_BASE_NAMESERVERS_NO_DEFAULT :: "32 word" where "EVDNS_BASE_NAMESERVERS_NO_DEFAULT = 0x10000"

interpretation evdns_base: flag_family
    "[EVDNS_BASE_INITIALIZE_NAMESERVERS, EVDNS_BASE_DISABLE_WHEN_INACTIVE, EVDNS_BASE_NAMESERVERS_NO_DEFAULT]"
  by unfold_locales
     (simp add: EVDNS_BASE_INITIALIZE_NAMESERVERS_def EVDNS_BASE_DISABLE_WHEN_INACTIVE_def
        EVDNS_BASE_NAMESERVERS_NO_DEFAULT_def)

datatype evdns_section = EVDNS_ANSWER_SECTION | EVDNS_AUTHORITY_SECTION | EVDNS_ADDITIONAL_SECTION

fun evdns_section_code :: "evdns_section \<Rightarrow> int" where
  "evdns_section_code EVDNS_ANSWER_SECTION = 0"
| "evdns_section_code EVDNS_AUTHORITY_SECTION = 1"
| "evdns_section_code EVDNS_ADDITIONAL_SECTION = 2"

datatype evdns_type =
    EVDNS_TYPE_A | EVDNS_TYPE_NS | EVDNS_TYPE_CNAME | EVDNS_TYPE_SOA | EVDNS_TYPE_PTR | EVDNS_TYPE_MX
  | EVDNS_TYPE_TXT | EVDNS_TYPE_AAAA | EVDNS_QTYPE_AXFR | EVDNS_QTYPE_ALL

fun evdns_type_code :: "evdns_type \<Rightarrow> int" where
  "evdns_type_code EVDNS_TYPE_A = 1"
| "evdns_type_code EVDNS_TYPE_NS = 2"
| "evdns_type_code EVDNS_TYPE_CNAME = 5"
| "evdns_type_code EVDNS_TYPE_SOA = 6"
| "evdns_type_code EVDNS_TYPE_PTR = 12"
| "evdns_type_code EVDNS_TYPE_MX = 15"
| "evdns_type_code EVDNS_TYPE_TXT = 16"
| "evdns_type_code EVDNS_TYPE_AAAA = 28"
| "evdns_type_code EVDNS_QTYPE_AXFR = 252"
| "evdns_type_code EVDNS_QTYPE_ALL = 255"

definition EVDNS_CLASS_INET :: int where "EVDNS_CLASS_INET = 1"
definition EVDNS_FLAGS_AA :: "32 word" where "EVDNS_FLAGS_AA = 0x400"
definition EVDNS_FLAGS_RD :: "32 word" where "EVDNS_FLAGS_RD = 0x080"

text \<open>
  The flags are set in the \<open>err\<close> argument of an answer, beside an error code of the protocol: they
  do not touch its bits.
\<close>

interpretation evdns_answer: flag_family "[EVDNS_FLAGS_AA, EVDNS_FLAGS_RD, 0x00f]"
  by unfold_locales (simp add: EVDNS_FLAGS_AA_def EVDNS_FLAGS_RD_def)

section \<open>Locks (event2/thread.h)\<close>

definition EVTHREAD_WRITE :: "32 word" where "EVTHREAD_WRITE = 0x04"
definition EVTHREAD_READ :: "32 word" where "EVTHREAD_READ = 0x08"
definition EVTHREAD_TRY :: "32 word" where "EVTHREAD_TRY = 0x10"

interpretation evthread_mode: flag_family "[EVTHREAD_WRITE, EVTHREAD_READ, EVTHREAD_TRY]"
  by unfold_locales (simp add: EVTHREAD_WRITE_def EVTHREAD_READ_def EVTHREAD_TRY_def)

definition EVTHREAD_LOCK_API_VERSION :: int where "EVTHREAD_LOCK_API_VERSION = 1"
definition EVTHREAD_CONDITION_API_VERSION :: int where "EVTHREAD_CONDITION_API_VERSION = 1"
definition EVTHREAD_LOCKTYPE_RECURSIVE :: "32 word" where "EVTHREAD_LOCKTYPE_RECURSIVE = 1"
definition EVTHREAD_LOCKTYPE_READWRITE :: "32 word" where "EVTHREAD_LOCKTYPE_READWRITE = 2"

interpretation evthread_locktype: flag_family "[EVTHREAD_LOCKTYPE_RECURSIVE, EVTHREAD_LOCKTYPE_READWRITE]"
  by unfold_locales (simp add: EVTHREAD_LOCKTYPE_RECURSIVE_def EVTHREAD_LOCKTYPE_READWRITE_def)

section \<open>RPC (event2/rpc.h, event2/rpc_struct.h)\<close>

datatype evrpc_status_error =
    EVRPC_STATUS_ERR_NONE | EVRPC_STATUS_ERR_TIMEOUT | EVRPC_STATUS_ERR_BADPAYLOAD
  | EVRPC_STATUS_ERR_UNSTARTED | EVRPC_STATUS_ERR_HOOKABORTED

fun evrpc_status_code :: "evrpc_status_error \<Rightarrow> int" where
  "evrpc_status_code EVRPC_STATUS_ERR_NONE = 0"
| "evrpc_status_code EVRPC_STATUS_ERR_TIMEOUT = 1"
| "evrpc_status_code EVRPC_STATUS_ERR_BADPAYLOAD = 2"
| "evrpc_status_code EVRPC_STATUS_ERR_UNSTARTED = 3"
| "evrpc_status_code EVRPC_STATUS_ERR_HOOKABORTED = 4"

datatype EVRPC_HOOK_TYPE = EVRPC_INPUT | EVRPC_OUTPUT

datatype EVRPC_HOOK_RESULT = EVRPC_TERMINATE | EVRPC_CONTINUE | EVRPC_PAUSE

fun hook_result_code :: "EVRPC_HOOK_RESULT \<Rightarrow> int" where
  "hook_result_code EVRPC_TERMINATE = -1"
| "hook_result_code EVRPC_CONTINUE = 0"
| "hook_result_code EVRPC_PAUSE = 1"

section \<open>Codes tell their names apart\<close>

lemma http_status_code_inj: "http_status_code s = http_status_code t \<Longrightarrow> s = t"
  by (cases s; cases t) simp_all

lemma dns_err_code_inj: "dns_err_code s = dns_err_code t \<Longrightarrow> s = t"
  by (cases s; cases t) simp_all

lemma evdns_type_code_inj: "evdns_type_code s = evdns_type_code t \<Longrightarrow> s = t"
  by (cases s; cases t) simp_all

text \<open>A code of the protocol survives being combined with the two answer flags.\<close>

lemma evdns_answer_code:
  assumes "dns_err_from_wire e" and "set fs \<subseteq> {EVDNS_FLAGS_AA, EVDNS_FLAGS_RD}"
  shows "uint ((word_of_int (dns_err_code e) OR combine fs) AND (0x00f :: 32 word)) = dns_err_code e"
proof -
  have "combine fs AND (0x00f :: 32 word) = 0"
    using assms(2)
  proof (induction fs)
    case (Cons f fs)
    then show ?case
      by (auto simp: EVDNS_FLAGS_AA_def EVDNS_FLAGS_RD_def bit.conj_disj_distrib2)
  qed simp
  then show ?thesis
    using assms(1) by (cases e) (simp_all add: dns_err_from_wire_def bit.conj_disj_distrib2)
qed

section \<open>Macros for events (event2/event.h, event2/event_compat.h, event2/bufferevent_compat.h)\<close>

text \<open>
  The functions the macros stand for are libevent's and not in the repository: each macro is a
  definition with the function it calls as its argument.
\<close>

definition evtimer_assign where
  "evtimer_assign event_assign ev b cb arg = event_assign ev b (-1 :: int) (0 :: 16 word) cb arg"

definition evtimer_new where
  "evtimer_new event_new b cb arg = event_new b (-1 :: int) (0 :: 16 word) cb arg"

definition evtimer_pending where
  "evtimer_pending event_pending ev tv = event_pending ev EV_TIMEOUT tv"

definition evsignal_assign where
  "evsignal_assign event_assign ev b x cb arg = event_assign ev b (x :: int) (EV_SIGNAL OR EV_PERSIST) cb arg"

definition evsignal_new where
  "evsignal_new event_new b x cb arg = event_new b (x :: int) (EV_SIGNAL OR EV_PERSIST) cb arg"

definition evsignal_pending where
  "evsignal_pending event_pending ev tv = event_pending ev EV_SIGNAL tv"

definition evuser_new where
  "evuser_new event_new b cb arg = event_new b (-1 :: int) (0 :: 16 word) cb arg"

definition evuser_pending where
  "evuser_pending event_pending ev tv = event_pending ev (0 :: 16 word) tv"

definition evuser_trigger where
  "evuser_trigger event_active ev = event_active ev (0 :: int) (0 :: 16 word)"

definition evtimer_set where
  "evtimer_set event_set ev cb arg = event_set ev (-1 :: int) (0 :: 16 word) cb arg"

definition evsignal_set where
  "evsignal_set event_set ev x cb arg = event_set ev (x :: int) (EV_SIGNAL OR EV_PERSIST) cb arg"

definition timeout_set where
  "timeout_set event_set ev cb arg = event_set ev (-1 :: int) (0 :: 16 word) cb arg"

definition timeout_pending where
  "timeout_pending event_pending ev tv = event_pending ev EV_TIMEOUT tv"

definition signal_set where
  "signal_set event_set ev x cb arg = event_set ev (x :: int) (EV_SIGNAL OR EV_PERSIST) cb arg"

definition signal_pending where
  "signal_pending event_pending ev tv = event_pending ev EV_SIGNAL tv"

text \<open>The deprecated names agree with the ones that replace them.\<close>

lemma deprecated_macros:
  "timeout_set = evtimer_set" "signal_set = evsignal_set"
  "timeout_pending = evtimer_pending" "signal_pending = evsignal_pending"
  by (simp_all add: fun_eq_iff timeout_set_def evtimer_set_def signal_set_def evsignal_set_def
      timeout_pending_def evtimer_pending_def signal_pending_def evsignal_pending_def)

text \<open>A timer made by the macro is not persistent, a signal event is.\<close>

lemma macro_persistence:
  "\<not> has_flag (evtimer_new (\<lambda>b fd what cb arg. what) b cb arg) EV_PERSIST"
  "has_flag (evsignal_new (\<lambda>b fd what cb arg. what) b x cb arg) EV_PERSIST"
  by (simp_all add: evtimer_new_def evsignal_new_def has_flag_def EV_SIGNAL_def EV_PERSIST_def)

definition EVENT_DBG_ALL :: "32 word" where "EVENT_DBG_ALL = 0xffffffff"
definition EVENT_DBG_NONE :: "32 word" where "EVENT_DBG_NONE = 0"

definition EVBUFFER_READ :: "16 word" where "EVBUFFER_READ = BEV_EVENT_READING"
definition EVBUFFER_WRITE :: "16 word" where "EVBUFFER_WRITE = BEV_EVENT_WRITING"
definition EVBUFFER_EOF :: "16 word" where "EVBUFFER_EOF = BEV_EVENT_EOF"
definition EVBUFFER_ERROR :: "16 word" where "EVBUFFER_ERROR = BEV_EVENT_ERROR"
definition EVBUFFER_TIMEOUT :: "16 word" where "EVBUFFER_TIMEOUT = BEV_EVENT_TIMEOUT"

end
