(* ===== verification/EventStructs.thy ===== *)
theory EventStructs
  imports EventNames EventTime
begin

text \<open>
  The structures libevent's public headers expose (libevent/include/event2/, the *_struct.h files,
  buffer.h, thread.h and util.h): events, bufferevents, HTTP and DNS requests, RPCs, key-value queues, and the
  links of the queues they are kept in. A pointer is an address or null, a pointer to a function is the
  address of the function, a union is a datatype. libevent's operations on them are not in the repository.
\<close>

section \<open>Addresses and links (event2/event_struct.h)\<close>

type_synonym addr = nat
type_synonym pointer = "addr option"

text \<open>
  \<open>TAILQ_ENTRY\<close>: \<open>tqe_prev\<close> is the address of the pointer that leads here, a field \<open>tqh_first\<close> of a
  head or a field \<open>tqe_next\<close> of the element before; \<open>tqh_last\<close> is the address of the pointer that
  ends the queue.
\<close>

datatype link = First_of addr | Next_of addr

record tailq_entry =
  tqe_next :: pointer
  tqe_prev :: link

record tailq_head =
  tqh_first :: pointer
  tqh_last :: link

record list_entry =
  le_next :: pointer
  le_prev :: link

record list_head =
  lh_first :: pointer

text \<open>
  The elements of a queue, following \<open>tqe_next\<close> from a pointer that lives at \<open>prev\<close>; \<open>fin\<close> is
  where the final null pointer lives.
\<close>

fun tailq_from :: "(addr \<Rightarrow> tailq_entry option) \<Rightarrow> link \<Rightarrow> pointer \<Rightarrow> addr list \<Rightarrow> link \<Rightarrow> bool" where
  "tailq_from h prev p [] fin \<longleftrightarrow> p = None \<and> fin = prev"
| "tailq_from h prev p (a # as) fin \<longleftrightarrow>
     p = Some a \<and>
     (case h a of None \<Rightarrow> False
      | Some e \<Rightarrow> tqe_prev e = prev \<and> tailq_from h (Next_of a) (tqe_next e) as fin)"

definition tailq_holds ::
    "(addr \<Rightarrow> tailq_entry option) \<Rightarrow> addr \<Rightarrow> tailq_head \<Rightarrow> addr list \<Rightarrow> bool" where
  "tailq_holds h q qh as \<longleftrightarrow> tailq_from h (First_of q) (tqh_first qh) as (tqh_last qh)"

lemma tailq_from_unique:
  "tailq_from h prev p as l \<Longrightarrow> tailq_from h prev p bs l' \<Longrightarrow> as = bs \<and> l = l'"
proof (induction as arbitrary: prev p bs)
  case Nil
  then show ?case by (cases bs) auto
next
  case (Cons a as)
  then show ?case by (cases bs) (auto split: option.splits)
qed

lemma tailq_from_suffix: "tailq_from h prev p (xs @ ys) l \<Longrightarrow> \<exists>prev' p'. tailq_from h prev' p' ys l"
proof (induction xs arbitrary: prev p)
  case Nil
  then show ?case by auto
next
  case (Cons x xs)
  then show ?case by (auto split: option.splits)
qed

text \<open>No element is in a queue twice, and the head's second pointer leads to the last element.\<close>

lemma tailq_from_distinct: "tailq_from h prev p as l \<Longrightarrow> distinct as"
proof (induction as arbitrary: prev p)
  case (Cons a as)
  then obtain e where e: "h a = Some e" "tailq_from h (Next_of a) (tqe_next e) as l"
    by (auto split: option.splits)
  have "a \<notin> set as"
  proof
    assume "a \<in> set as"
    then obtain xs ys where as: "as = xs @ a # ys" by (auto simp: in_set_conv_decomp)
    with e obtain prev' p' where "tailq_from h prev' p' (a # ys) l" using tailq_from_suffix by blast
    then have "tailq_from h (Next_of a) (tqe_next e) ys l" using e(1) by simp
    with e(2) have "ys = as" using tailq_from_unique by blast
    then show False using as by simp
  qed
  with Cons.IH [OF e(2)] show ?case by simp
qed simp

lemma tailq_holds_ends:
  assumes "tailq_holds h q qh as"
  shows "distinct as" and "tqh_first qh = (case as of [] \<Rightarrow> None | a # _ \<Rightarrow> Some a)"
    and "tqh_last qh = (if as = [] then First_of q else Next_of (last as))"
proof -
  have "tailq_from h prev p as l \<Longrightarrow> l = (if as = [] then prev else Next_of (last as))" for prev p l
    by (induction as arbitrary: prev p) (auto split: option.splits)
  with assms show "tqh_last qh = (if as = [] then First_of q else Next_of (last as))"
    by (simp add: tailq_holds_def)
  show "distinct as" using assms tailq_from_distinct by (auto simp: tailq_holds_def)
  show "tqh_first qh = (case as of [] \<Rightarrow> None | a # _ \<Rightarrow> Some a)"
    using assms by (cases as) (auto simp: tailq_holds_def)
qed

section \<open>Events\<close>

datatype evcb_cb_union =
    Evcb_callback pointer
  | Evcb_selfcb pointer
  | Evcb_evfinalize pointer
  | Evcb_cbfinalize pointer

record event_callback =
  evcb_active_next :: tailq_entry
  evcb_flags :: "16 word"
  evcb_pri :: "8 word"
  evcb_closure :: "8 word"
  evcb_cb_union :: evcb_cb_union
  evcb_arg :: pointer

datatype ev_timeout_pos =
    Ev_next_with_common_timeout tailq_entry
  | Min_heap_idx "32 word"

text \<open>The union of the part for i/o events and the part for signal events.\<close>

datatype ev_kind =
    Ev_io list_entry timeval
  | Ev_signal list_entry "16 word" pointer

record event =
  ev_evcallback :: event_callback
  ev_timeout_pos :: ev_timeout_pos
  ev_fd :: int
  ev_base :: pointer
  ev_kind :: ev_kind
  ev_events :: "16 word"
  ev_res :: "16 word"
  ev_timeout :: timeval

type_synonym event_list = tailq_head
type_synonym event_dlist = list_head

section \<open>Key-value queues (event2/keyvalq_struct.h)\<close>

record evkeyval =
  kv_next :: tailq_entry
  kv_key :: pointer
  kv_value :: pointer

type_synonym evkeyvalq = tailq_head

section \<open>Bufferevents and buffers (event2/bufferevent_struct.h, event2/buffer.h)\<close>

record event_watermark =
  wm_low :: "64 word"
  wm_high :: "64 word"

record bufferevent =
  be_ev_base :: pointer
  be_ops :: pointer
  be_ev_read :: event
  be_ev_write :: event
  be_input :: pointer
  be_output :: pointer
  be_wm_read :: event_watermark
  be_wm_write :: event_watermark
  be_readcb :: pointer
  be_writecb :: pointer
  be_errorcb :: pointer
  be_cbarg :: pointer
  be_timeout_read :: timeval
  be_timeout_write :: timeval
  be_enabled :: "16 word"

record evbuffer_ptr =
  ptr_pos :: "64 word"
  ptr_chain :: pointer
  ptr_pos_in_chain :: "64 word"

record evbuffer_iovec =
  iov_base :: pointer
  iov_len :: "64 word"

text \<open>What a buffer's callback is told: the size before, and what was added and removed since.\<close>

record evbuffer_cb_info =
  cb_orig_size :: "64 word"
  cb_n_added :: "64 word"
  cb_n_deleted :: "64 word"

section \<open>HTTP (event2/http_struct.h)\<close>

definition EVHTTP_REQ_OWN_CONNECTION :: "32 word" where "EVHTTP_REQ_OWN_CONNECTION = 0x0001"
definition EVHTTP_PROXY_REQUEST :: "32 word" where "EVHTTP_PROXY_REQUEST = 0x0002"
definition EVHTTP_USER_OWNED :: "32 word" where "EVHTTP_USER_OWNED = 0x0004"
definition EVHTTP_REQ_DEFER_FREE :: "32 word" where "EVHTTP_REQ_DEFER_FREE = 0x0008"
definition EVHTTP_REQ_NEEDS_FREE :: "32 word" where "EVHTTP_REQ_NEEDS_FREE = 0x0010"

interpretation http_request: flag_family
    "[EVHTTP_REQ_OWN_CONNECTION, EVHTTP_PROXY_REQUEST, EVHTTP_USER_OWNED, EVHTTP_REQ_DEFER_FREE,
      EVHTTP_REQ_NEEDS_FREE]"
  by unfold_locales
     (simp add: EVHTTP_REQ_OWN_CONNECTION_def EVHTTP_PROXY_REQUEST_def EVHTTP_USER_OWNED_def
        EVHTTP_REQ_DEFER_FREE_def EVHTTP_REQ_NEEDS_FREE_def)

record evhttp_request =
  req_next :: tailq_entry
  req_evcon :: pointer
  req_flags :: "32 word"
  req_input_headers :: pointer
  req_output_headers :: pointer
  req_remote_host :: pointer
  req_remote_port :: "16 word"
  req_host_cache :: pointer
  req_kind :: evhttp_request_kind
  req_type :: evhttp_cmd_type
  req_headers_size :: "64 word"
  req_body_size :: "64 word"
  req_uri :: pointer
  req_uri_elems :: pointer
  req_major :: "8 word"
  req_minor :: "8 word"
  req_response_code :: "32 word"
  req_response_code_line :: pointer
  req_input_buffer :: pointer
  req_ntoread :: "64 word"
  req_chunked :: "1 word"
  req_userdone :: "1 word"
  req_output_buffer :: pointer
  req_cb :: pointer
  req_cb_arg :: pointer
  req_chunk_cb :: pointer
  req_header_cb :: pointer
  req_error_cb :: pointer
  req_on_complete_cb :: pointer
  req_on_complete_cb_arg :: pointer

section \<open>DNS (event2/dns_struct.h) and addresses (event2/util.h)\<close>

text \<open>\<open>char name[1]\<close> is the first byte of a name that goes on behind the structure.\<close>

record evdns_server_question =
  q_type :: "32 word"
  q_dns_question_class :: "32 word"
  q_name :: "8 word list"

record evdns_server_request =
  r_flags :: "32 word"
  r_nquestions :: "32 word"
  r_questions :: pointer

record evutil_addrinfo =
  ai_flags :: "32 word"
  ai_family :: "32 word"
  ai_socktype :: "32 word"
  ai_protocol :: "32 word"
  ai_addrlen :: "64 word"
  ai_canonname :: pointer
  ai_addr :: pointer
  ai_next :: pointer

section \<open>Threads (event2/thread.h)\<close>

record evthread_lock_callbacks =
  lock_api_version :: "32 word"
  supported_locktypes :: "32 word"
  lock_alloc :: pointer
  lock_free :: pointer
  lock_lock :: pointer
  lock_unlock :: pointer

record evthread_condition_callbacks =
  condition_api_version :: "32 word"
  alloc_condition :: pointer
  free_condition :: pointer
  signal_condition :: pointer
  wait_condition :: pointer

section \<open>RPCs (event2/rpc_struct.h)\<close>

record evrpc_status =
  st_error :: "32 word"
  st_http_req :: pointer

record evrpc =
  rpc_next :: tailq_entry
  rpc_uri :: pointer
  rpc_request_new :: pointer
  rpc_request_new_arg :: pointer
  rpc_request_free :: pointer
  rpc_request_unmarshal :: pointer
  rpc_reply_new :: pointer
  rpc_reply_new_arg :: pointer
  rpc_reply_free :: pointer
  rpc_reply_complete :: pointer
  rpc_reply_marshal :: pointer
  rpc_cb :: pointer
  rpc_cb_arg :: pointer
  rpc_base :: pointer

end
