(* ===== verification/EventMacros.thy ===== *)
theory EventMacros
  imports EventStructs
begin

text \<open>
  The function-like macros of libevent's public headers (libevent/include/event2/): other names for
  functions of the library, the socket-error macros, and the macros that build the names of the functions
  event_rpcgen.py generates. The functions they call are not in the repository: each is an argument.
\<close>

section \<open>Other names for functions\<close>

text \<open>event2/event.h: timers, signals, user events.\<close>

definition evtimer_add where "evtimer_add event_add ev tv = event_add ev tv"
definition evtimer_del where "evtimer_del event_del ev = event_del ev"
definition evtimer_initialized where "evtimer_initialized event_initialized ev = event_initialized ev"
definition evsignal_add where "evsignal_add event_add ev tv = event_add ev tv"
definition evsignal_del where "evsignal_del event_del ev = event_del ev"
definition evsignal_initialized where "evsignal_initialized event_initialized ev = event_initialized ev"
definition evuser_del where "evuser_del event_del ev = event_del ev"
definition evuser_initialized where "evuser_initialized event_initialized ev = event_initialized ev"

text \<open>\<open>event_get_fd\<close> returns a socket; the macro narrows it to an \<open>int\<close>.\<close>

definition event_get_signal :: "('e \<Rightarrow> 'a::len word) \<Rightarrow> 'e \<Rightarrow> 32 word" where
  "event_get_signal event_get_fd ev = ucast (event_get_fd ev)"

definition EVENT_MAX_PRIORITIES :: nat where "EVENT_MAX_PRIORITIES = 256"

text \<open>event2/event_compat.h\<close>

definition timeout_add where "timeout_add event_add ev tv = event_add ev tv"
definition timeout_del where "timeout_del event_del ev = event_del ev"
definition timeout_initialized where "timeout_initialized event_initialized ev = event_initialized ev"
definition signal_add where "signal_add event_add ev tv = event_add ev tv"
definition signal_del where "signal_del event_del ev = event_del ev"
definition signal_initialized where "signal_initialized event_initialized ev = event_initialized ev"

definition EVENT_FD :: "('e \<Rightarrow> 'a::len word) \<Rightarrow> 'e \<Rightarrow> 32 word" where
  "EVENT_FD event_get_fd ev = ucast (event_get_fd ev)"

definition EVENT_SIGNAL :: "('e \<Rightarrow> 'a::len word) \<Rightarrow> 'e \<Rightarrow> 32 word" where
  "EVENT_SIGNAL event_get_fd ev = event_get_signal event_get_fd ev"

text \<open>event2/buffer_compat.h, bufferevent_compat.h, http_compat.h and tag_compat.h\<close>

definition EVBUFFER_LENGTH where "EVBUFFER_LENGTH evbuffer_get_length x = evbuffer_get_length x"

definition EVBUFFER_DATA where
  "EVBUFFER_DATA evbuffer_pullup x = evbuffer_pullup x (-1 :: 64 word)"

definition EVBUFFER_INPUT where "EVBUFFER_INPUT bufferevent_get_input x = bufferevent_get_input x"
definition EVBUFFER_OUTPUT where "EVBUFFER_OUTPUT bufferevent_get_output x = bufferevent_get_output x"

definition evhttp_request_uri where
  "evhttp_request_uri evhttp_request_get_uri req = evhttp_request_get_uri req"

definition encode_int where
  "encode_int evtag_encode_int evbuf number = evtag_encode_int evbuf (number :: 32 word)"

definition encode_int64 where
  "encode_int64 evtag_encode_int64 evbuf number = evtag_encode_int64 evbuf (number :: 64 word)"

text \<open>
  A signal number is an \<open>int\<close> to begin with, and a POSIX socket is one too; a Windows socket is as
  wide as a pointer, and only one below \<open>2 ^ 32\<close> survives.
\<close>

lemma event_get_signal_int: "event_get_signal (get :: 'e \<Rightarrow> 32 word) ev = get ev"
  by (simp add: event_get_signal_def)

lemma event_get_signal_narrows:
  "ucast (event_get_signal (get :: 'e \<Rightarrow> 64 word) ev) = get ev \<longleftrightarrow> unat (get ev) < 2 ^ 32"
  by (simp add: event_get_signal_def word_unat_eq_iff unsigned_ucast_eq unsigned_take_bit_eq
      take_bit_nat_eq_self_iff)

lemma old_names_agree:
  "EVENT_SIGNAL get ev = EVENT_FD get ev"
  "timeout_add f ev tv = evtimer_add f ev tv" "signal_add f ev tv = evsignal_add f ev tv"
  by (simp_all add: EVENT_SIGNAL_def EVENT_FD_def event_get_signal_def timeout_add_def evtimer_add_def
      signal_add_def evsignal_add_def)

section \<open>Sockets and timers (event2/util.h)\<close>

definition EVUTIL_CLOSESOCKET where "EVUTIL_CLOSESOCKET evutil_closesocket s = evutil_closesocket s"

definition EV_MONOT_PRECISE :: "32 word" where "EV_MONOT_PRECISE = 1"
definition EV_MONOT_FALLBACK :: "32 word" where "EV_MONOT_FALLBACK = 2"

interpretation ev_monot: flag_family "[EV_MONOT_PRECISE, EV_MONOT_FALLBACK]"
  by unfold_locales (simp add: EV_MONOT_PRECISE_def EV_MONOT_FALLBACK_def)

text \<open>
  The last socket error: \<open>errno\<close>, or on Windows what Winsock keeps, read and written by its functions.
\<close>

record 'w os_errors =
  errno :: int
  winsock :: 'w

definition EVUTIL_SOCKET_ERROR :: "'w os_errors \<Rightarrow> int" where
  "EVUTIL_SOCKET_ERROR s = errno s"

definition EVUTIL_SET_SOCKET_ERROR :: "int \<Rightarrow> 'w os_errors \<Rightarrow> 'w os_errors" where
  "EVUTIL_SET_SOCKET_ERROR errcode s = s\<lparr>errno := errcode\<rparr>"

definition win_EVUTIL_SOCKET_ERROR :: "('w \<Rightarrow> int) \<Rightarrow> 'w os_errors \<Rightarrow> int" where
  "win_EVUTIL_SOCKET_ERROR WSAGetLastError s = WSAGetLastError (winsock s)"

definition win_EVUTIL_SET_SOCKET_ERROR ::
    "(int \<Rightarrow> 'w \<Rightarrow> 'w) \<Rightarrow> int \<Rightarrow> 'w os_errors \<Rightarrow> 'w os_errors" where
  "win_EVUTIL_SET_SOCKET_ERROR WSASetLastError errcode s =
     s\<lparr>winsock := WSASetLastError errcode (winsock s)\<rparr>"

text \<open>Off Windows the socket is not looked at, and the message is \<open>strerror\<close>'s.\<close>

definition evutil_socket_geterror :: "'k \<Rightarrow> 'w os_errors \<Rightarrow> int" where
  "evutil_socket_geterror sock s = errno s"

definition evutil_socket_error_to_string :: "(int \<Rightarrow> string) \<Rightarrow> int \<Rightarrow> string" where
  "evutil_socket_error_to_string strerror errcode = strerror errcode"

definition EVUTIL_INVALID_SOCKET :: int where "EVUTIL_INVALID_SOCKET = -1"

lemma socket_error_kept:
  "EVUTIL_SOCKET_ERROR (EVUTIL_SET_SOCKET_ERROR errcode s) = errcode"
  "evutil_socket_geterror sock (EVUTIL_SET_SOCKET_ERROR errcode s) = errcode"
  by (simp_all add: EVUTIL_SOCKET_ERROR_def EVUTIL_SET_SOCKET_ERROR_def evutil_socket_geterror_def)

lemma win_socket_error_kept:
  assumes "get (put errcode (winsock s)) = errcode"
  shows "win_EVUTIL_SOCKET_ERROR get (win_EVUTIL_SET_SOCKET_ERROR put errcode s) = errcode"
  using assms by (simp add: win_EVUTIL_SOCKET_ERROR_def win_EVUTIL_SET_SOCKET_ERROR_def)

section \<open>Fields of RPC messages (event2/rpc.h, event2/rpc_compat.h)\<close>

text \<open>
  A message that event_rpcgen.py generates has integer fields and a table of functions, \<open>base\<close>, both
  reached by names the macros put together; \<open>call\<close> calls a function through its pointer with the
  message and the other arguments.
\<close>

record rpc_message =
  msg_field :: "string \<Rightarrow> 32 word"
  msg_base :: "string \<Rightarrow> pointer"

definition EVTAG_HAS :: "rpc_message \<Rightarrow> string \<Rightarrow> bool" where
  "EVTAG_HAS msg member = (msg_field msg (member @ ''_set'') = 1)"

definition EVTAG_ASSIGN where
  "EVTAG_ASSIGN call msg member val = call (msg_base msg (member @ ''_assign'')) msg [val]"

definition EVTAG_ASSIGN_WITH_LEN where
  "EVTAG_ASSIGN_WITH_LEN call msg member val len =
     call (msg_base msg (member @ ''_assign'')) msg [val, len]"

definition EVTAG_GET where
  "EVTAG_GET call msg member pval = call (msg_base msg (member @ ''_get'')) msg [pval]"

definition EVTAG_GET_WITH_LEN where
  "EVTAG_GET_WITH_LEN call msg member pval plen =
     call (msg_base msg (member @ ''_get'')) msg [pval, plen]"

definition EVTAG_ARRAY_ADD_VALUE where
  "EVTAG_ARRAY_ADD_VALUE call msg member val = call (msg_base msg (member @ ''_add'')) msg [val]"

definition EVTAG_ARRAY_ADD where
  "EVTAG_ARRAY_ADD call msg member = call (msg_base msg (member @ ''_add'')) msg []"

definition EVTAG_ARRAY_GET where
  "EVTAG_ARRAY_GET call msg member offset pval =
     call (msg_base msg (member @ ''_get'')) msg [offset, pval]"

definition EVTAG_ARRAY_LEN :: "rpc_message \<Rightarrow> string \<Rightarrow> 32 word" where
  "EVTAG_ARRAY_LEN msg member = msg_field msg (member @ ''_length'')"

text \<open>The variadic macros of rpc_compat.h, with the arguments after the member as a list.\<close>

definition compat_EVTAG_ASSIGN where
  "compat_EVTAG_ASSIGN call msg member args = call (msg_base msg (member @ ''_assign'')) msg args"

definition compat_EVTAG_GET where
  "compat_EVTAG_GET call msg member args = call (msg_base msg (member @ ''_get'')) msg args"

definition EVTAG_ADD where
  "EVTAG_ADD call msg member args = call (msg_base msg (member @ ''_add'')) msg args"

definition EVTAG_LEN :: "rpc_message \<Rightarrow> string \<Rightarrow> 32 word" where
  "EVTAG_LEN msg member = msg_field msg (member @ ''_length'')"

text \<open>The variadic macros stand for both forms rpc.h gives, so code written for either runs.\<close>

lemma compat_forms:
  "compat_EVTAG_ASSIGN call msg m [v] = EVTAG_ASSIGN call msg m v"
  "compat_EVTAG_ASSIGN call msg m [v, n] = EVTAG_ASSIGN_WITH_LEN call msg m v n"
  "compat_EVTAG_GET call msg m [v] = EVTAG_GET call msg m v"
  "compat_EVTAG_GET call msg m [v, n] = EVTAG_GET_WITH_LEN call msg m v n"
  "EVTAG_ADD call msg m [] = EVTAG_ARRAY_ADD call msg m"
  "EVTAG_ADD call msg m [v] = EVTAG_ARRAY_ADD_VALUE call msg m v"
  "EVTAG_LEN msg m = EVTAG_ARRAY_LEN msg m"
  by (auto simp: compat_EVTAG_ASSIGN_def EVTAG_ASSIGN_def EVTAG_ASSIGN_WITH_LEN_def compat_EVTAG_GET_def
      EVTAG_GET_def EVTAG_GET_WITH_LEN_def EVTAG_ADD_def EVTAG_ARRAY_ADD_def EVTAG_ARRAY_ADD_VALUE_def
      EVTAG_LEN_def EVTAG_ARRAY_LEN_def)

section \<open>Declaring, sending and registering RPCs (event2/rpc.h)\<close>

definition EVRPC_STRUCT :: "string \<Rightarrow> string" where
  "EVRPC_STRUCT rpcname = ''evrpc_req__'' @ rpcname"

definition send_request_name :: "string \<Rightarrow> string" where
  "send_request_name rpcname = ''evrpc_send_request_'' @ rpcname"

text \<open>The structure \<open>EVRPC_HEADER\<close> declares under that name.\<close>

record evrpc_req =
  hook_meta :: pointer
  rpc_req_request :: pointer
  rpc_req_reply :: pointer
  rpc_req_rpc :: pointer
  http_req :: pointer
  rpc_data :: pointer

text \<open>\<open>fun_addr\<close> is the address of a function by name.\<close>

definition EVRPC_MAKE_CTX where
  "EVRPC_MAKE_CTX evrpc_make_request_ctx fun_addr rpcname reqstruct rplystruct pool request reply cb cbarg =
     evrpc_make_request_ctx pool request reply rpcname
       (fun_addr (reqstruct @ ''_marshal'') :: pointer)
       (fun_addr (rplystruct @ ''_clear'') :: pointer)
       (fun_addr (rplystruct @ ''_unmarshal'') :: pointer)
       cb cbarg"

text \<open>A program is its functions by name: \<open>EVRPC_GENERATE\<close> defines one that sends the request.\<close>

definition EVRPC_GENERATE where
  "EVRPC_GENERATE evrpc_send_request_generic fun_addr rpcname reqstruct rplystruct prog =
     prog(send_request_name rpcname \<mapsto>
       (\<lambda>pool request reply cb cbarg. evrpc_send_request_generic pool request reply cb cbarg rpcname
          (fun_addr (reqstruct @ ''_marshal'') :: pointer)
          (fun_addr (rplystruct @ ''_clear'') :: pointer)
          (fun_addr (rplystruct @ ''_unmarshal'') :: pointer)))"

text \<open>A request whose function is nowhere generated does not link.\<close>

definition EVRPC_MAKE_REQUEST where
  "EVRPC_MAKE_REQUEST prog rpcname pool request reply cb cbarg =
     (case prog (send_request_name rpcname) of
        None \<Rightarrow> None
      | Some f \<Rightarrow> Some (f pool request reply cb cbarg))"

definition EVRPC_REQUEST_HTTP :: "evrpc_req \<Rightarrow> pointer" where
  "EVRPC_REQUEST_HTTP rpc_req = http_req rpc_req"

definition EVRPC_REQUEST_DONE where
  "EVRPC_REQUEST_DONE evrpc_request_done (rpc_req :: addr) s = evrpc_request_done rpc_req s"

definition EVRPC_REGISTER where
  "EVRPC_REGISTER evrpc_register_generic fun_addr base rpcname request reply callback cbarg =
     evrpc_register_generic base rpcname callback cbarg
       (fun_addr (request @ ''_new_with_arg'')) (None :: pointer)
       (fun_addr (request @ ''_free''))
       (fun_addr (request @ ''_unmarshal''))
       (fun_addr (reply @ ''_new_with_arg'')) (None :: pointer)
       (fun_addr (reply @ ''_free''))
       (fun_addr (reply @ ''_complete''))
       (fun_addr (reply @ ''_marshal'') :: pointer)"

definition EVRPC_UNREGISTER where
  "EVRPC_UNREGISTER evrpc_unregister_rpc base rpcname = evrpc_unregister_rpc base (rpcname :: string)"

text \<open>A request reaches the function generated for its own RPC, whatever is generated after it.\<close>

lemma send_request_name_inject [simp]: "send_request_name m = send_request_name n \<longleftrightarrow> m = n"
  by (simp add: send_request_name_def)

lemma make_request_generated:
  "EVRPC_MAKE_REQUEST (EVRPC_GENERATE send fun_addr n req rply prog) n pool request reply cb cbarg =
     Some (send pool request reply cb cbarg n (fun_addr (req @ ''_marshal'')) (fun_addr (rply @ ''_clear''))
       (fun_addr (rply @ ''_unmarshal'')))"
  by (simp add: EVRPC_MAKE_REQUEST_def EVRPC_GENERATE_def)

lemma make_request_other:
  "m \<noteq> n \<Longrightarrow>
     EVRPC_MAKE_REQUEST (EVRPC_GENERATE send fun_addr m req rply prog) n = EVRPC_MAKE_REQUEST prog n"
  by (intro ext) (simp add: EVRPC_MAKE_REQUEST_def EVRPC_GENERATE_def)

lemma make_request_not_generated: "EVRPC_MAKE_REQUEST Map.empty n pool request reply cb cbarg = None"
  by (simp add: EVRPC_MAKE_REQUEST_def)

section \<open>Exported symbols (event2/visibility.h)\<close>

text \<open>
  What stands before a declaration depends on the macros the compiler and the build define, and on the
  version number of Sun's compiler.
\<close>

definition shared_exports :: "string set" where
  "shared_exports = {''event_shared_EXPORTS'', ''event_extra_shared_EXPORTS'', ''event_core_shared_EXPORTS'',
     ''event_pthreads_shared_EXPORTS'', ''event_openssl_shared_EXPORTS''}"

definition EVENT2_EXPORT_SYMBOL :: "string set \<Rightarrow> int \<Rightarrow> string" where
  "EVENT2_EXPORT_SYMBOL defs sunpro =
     (if defs \<inter> shared_exports = {} then []
      else if ''__SUNPRO_C'' \<in> defs \<and> sunpro \<ge> 0x550 then ''__global''
      else if ''__GNUC__'' \<in> defs
        then ''__attribute__ ((visibility('' @ [CHR 0x22] @ ''default'' @ [CHR 0x22] @ '')))''
      else if ''_MSC_VER'' \<in> defs then ''__declspec(dllexport)''
      else [])"

definition EVENT2_CORE_EXPORT_SYMBOL :: "string set \<Rightarrow> int \<Rightarrow> string" where
  "EVENT2_CORE_EXPORT_SYMBOL defs sunpro =
     (if ''_MSC_VER'' \<in> defs \<and> ''event_core_shared_EXPORTS'' \<in> defs then ''__declspec(dllexport)''
      else if ''_MSC_VER'' \<in> defs \<and>
          (''event_extra_shared_EXPORTS'' \<in> defs \<or> ''EVENT_VISIBILITY_WANT_DLLIMPORT'' \<in> defs)
        then ''__declspec(dllimport)''
      else EVENT2_EXPORT_SYMBOL defs sunpro)"

text \<open>
  A program that only uses the library declares nothing exported, unless it asks on Windows for an import;
  there the extra library exports its own symbols and imports the core's.
\<close>

lemma user_exports_nothing:
  assumes "defs \<inter> shared_exports = {}"
  shows "EVENT2_EXPORT_SYMBOL defs v = []"
    and "EVENT2_CORE_EXPORT_SYMBOL defs v \<noteq> [] \<longleftrightarrow>
           ''_MSC_VER'' \<in> defs \<and> ''EVENT_VISIBILITY_WANT_DLLIMPORT'' \<in> defs"
  using assms by (auto simp: EVENT2_EXPORT_SYMBOL_def EVENT2_CORE_EXPORT_SYMBOL_def shared_exports_def)

lemma extra_imports_core:
  assumes "''_MSC_VER'' \<in> defs" and "''event_extra_shared_EXPORTS'' \<in> defs"
    and "''event_core_shared_EXPORTS'' \<notin> defs" and "''__GNUC__'' \<notin> defs" and "''__SUNPRO_C'' \<notin> defs"
  shows "EVENT2_EXPORT_SYMBOL defs v = ''__declspec(dllexport)''"
    and "EVENT2_CORE_EXPORT_SYMBOL defs v = ''__declspec(dllimport)''"
  using assms by (auto simp: EVENT2_EXPORT_SYMBOL_def EVENT2_CORE_EXPORT_SYMBOL_def shared_exports_def)

end
