(* ===== verification/Platform.thy ===== *)
theory Platform
  imports ServerWorker
begin

text \<open>
  What is left of the program around its parts: the Windows socket start-up, the writing of a text
  to a client's \<open>bufferevent\<close>, and the thread demonstration of main.cpp with its task.
\<close>

section \<open>The socket start-up\<close>

text \<open>
  Winsock is not in the repository: its version arithmetic and its start-up call are the fields of a
  record. The start-up answers an error number and fills in the version it grants.
\<close>

record winsock =
  MAKEWORD :: "nat \<Rightarrow> nat \<Rightarrow> nat"
  LOBYTE :: "nat \<Rightarrow> nat"
  HIBYTE :: "nat \<Rightarrow> nat"
  WSAStartup :: "nat \<Rightarrow> int \<times> nat"

text \<open>The answer of \<open>WinSockInit\<close>, and how often it calls \<open>WSACleanup\<close>.\<close>

definition WinSockInit :: "winsock \<Rightarrow> bool \<times> nat" where
  "WinSockInit W =
     (let (error, wVersion) = WSAStartup W (MAKEWORD W 2 2) in
      if error \<noteq> 0 then (False, 0)
      else if LOBYTE W wVersion \<noteq> 2 \<or> HIBYTE W wVersion \<noteq> 2 then (False, 1)
      else (True, 0))"

text \<open>
  A socket stack stays started exactly when the start-up is reported as successful, and that is when
  it grants the version asked for.
\<close>

lemma WinSockInit_balance:
  assumes "\<And>a b. a < 256 \<Longrightarrow> b < 256 \<Longrightarrow> LOBYTE W (MAKEWORD W a b) = a \<and> HIBYTE W (MAKEWORD W a b) = b"
    and "\<And>v v'. LOBYTE W v = LOBYTE W v' \<Longrightarrow> HIBYTE W v = HIBYTE W v' \<Longrightarrow> v = v'"
    and "WinSockInit W = (ok, cleanups)"
  shows "ok \<longleftrightarrow> WSAStartup W (MAKEWORD W 2 2) = (0, MAKEWORD W 2 2)"
    and "(if fst (WSAStartup W (MAKEWORD W 2 2)) = 0 then 1 else 0) = of_bool ok + cleanups"
proof -
  obtain e v where s: "WSAStartup W (MAKEWORD W 2 2) = (e, v)" by fastforce
  have v22: "LOBYTE W (MAKEWORD W 2 2) = 2" "HIBYTE W (MAKEWORD W 2 2) = 2" using assms(1) by simp_all
  then show "ok \<longleftrightarrow> WSAStartup W (MAKEWORD W 2 2) = (0, MAKEWORD W 2 2)"
    using assms(2) [of v "MAKEWORD W 2 2"] assms(3) by (auto simp: WinSockInit_def s split: if_splits)
  show "(if fst (WSAStartup W (MAKEWORD W 2 2)) = 0 then 1 else 0) = of_bool ok + cleanups"
    using assms(3) by (auto simp: WinSockInit_def s split: if_splits)
qed

section \<open>SendToClient\<close>

text \<open>
  \<open>bufferevent_write\<close> is libevent's: it gets the \<open>bufferevent\<close>, the bytes and the state it changes.
  The pointer and the length of one string are all of its bytes.
\<close>

definition SendToClient :: "(int option \<Rightarrow> string \<Rightarrow> 's \<Rightarrow> 's) \<Rightarrow> server_worker \<Rightarrow> string \<Rightarrow> 's \<Rightarrow> 's" where
  "SendToClient bufferevent_write w strMsg s = bufferevent_write (m_bev w) strMsg s"

section \<open>The thread demonstration\<close>

text \<open>What \<open>main\<close> and a task thread do, in order; \<open>Open\<close> and \<open>Close\<close> are those of BaseLib's task.\<close>

datatype task_step = Open int | Close | Print string | Sleep nat

text \<open>\<open>while (i-- > 0)\<close>.\<close>

function main_steps :: "int \<Rightarrow> task_step list" where
  "main_steps i = (if 0 < i then Print (''here is main()'' @ NEWLINE) # Sleep 1000 # main_steps (i - 1) else [])"
  by pat_completeness auto

termination
  by (relation "measure nat") simp_all

declare main_steps.simps [simp del]

definition demo_main :: "int \<times> task_step list" where
  "demo_main = (0, Open 2 # main_steps 10)"

text \<open>
  \<open>while (i--)\<close>, which ends at zero only: from a negative number it counts down to the smallest
  \<open>int\<close>. The text of the thread's number is BaseLib's.
\<close>

partial_function (option) svc_steps :: "string \<Rightarrow> int \<Rightarrow> task_step list option" where
  "svc_steps thread_id i =
     (if i = 0 then Some []
      else Option.bind (svc_steps thread_id (i - 1))
        (\<lambda>rest. Some (Sleep 1000 # Print (''here is test;Svc'' @ [CHR 0x09] @ thread_id @ NEWLINE) # rest)))"

definition TestTask_Svc :: "int \<Rightarrow> string \<Rightarrow> (int \<times> task_step list) option" where
  "TestTask_Svc TASK_BREAK thread_id =
     Option.bind (svc_steps thread_id 10) (\<lambda>steps. Some (TASK_BREAK, steps @ [Close]))"

lemma svc_steps_nat:
  "svc_steps t (int n) =
     Some (concat (replicate n [Sleep 1000, Print (''here is test;Svc'' @ [CHR 0x09] @ t @ NEWLINE)]))"
  by (induction n) (simp_all add: svc_steps.simps)

lemma main_steps_nat:
  "main_steps (int n) = concat (replicate n [Print (''here is main()'' @ NEWLINE), Sleep 1000])"
  by (induction n) (simp_all add: main_steps.simps)

text \<open>The task ends: ten lines, one a second, and then the thread closes its task.\<close>

lemma TestTask_Svc_returns:
  "TestTask_Svc b t = Some (b,
     concat (replicate 10 [Sleep 1000, Print (''here is test;Svc'' @ [CHR 0x09] @ t @ NEWLINE)]) @ [Close])"
  using svc_steps_nat [of t 10] by (simp add: TestTask_Svc_def)

text \<open>Both loops sleep the same ten seconds.\<close>

definition seconds :: "task_step list \<Rightarrow> nat" where
  "seconds steps = (\<Sum>s\<leftarrow>steps. case s of Sleep n \<Rightarrow> n | _ \<Rightarrow> 0)"

lemma seconds_append [simp]: "seconds (xs @ ys) = seconds xs + seconds ys"
  by (simp add: seconds_def)

lemma seconds_rounds: "seconds (concat (replicate n xs)) = n * seconds xs"
  by (induction n) (simp_all add: seconds_def)

lemma demo_main_waits:
  "seconds (snd demo_main) = 10000"
  "\<exists>steps. TestTask_Svc b t = Some (b, steps) \<and> seconds steps = 10000"
proof -
  have "seconds [Print u, Sleep 1000] = 1000" "seconds [Sleep 1000, Print u] = 1000" for u
    by (simp_all add: seconds_def)
  moreover have "seconds (Open 2 # xs) = seconds xs" "seconds [Close] = 0" for xs
    by (simp_all add: seconds_def)
  ultimately show "seconds (snd demo_main) = 10000"
    and "\<exists>steps. TestTask_Svc b t = Some (b, steps) \<and> seconds steps = 10000"
    using main_steps_nat [of 10] by (simp_all add: demo_main_def TestTask_Svc_returns seconds_rounds)
qed

end
