(* ===== verification/Spec2Isabelle.thy ===== *)
theory Spec2Isabelle
  imports PoolProps CastProps RequestProps LifeProps EventProps EventMacros Platform
begin

text \<open>
  The program is a client and a server that exchange class-room files and records: a teacher's
  server (server/, Src/) accepts connections on four event-loop threads, stores uploaded programs
  and keeps the records in MySQL; a student's client (client/) uploads, asks for lists and receives
  the class and files. Both speak one text protocol (common/). libevent, jsoncpp, the MySQL C API,
  the operating system and the BaseLib library are not in the repository (of libevent only the
  public headers are).

  \<^bold>\<open>Shape of the model.\<close> An operation is a computation \<open>('s, 'a)
  prog\<close> over an explicit state: it returns a value or an \<open>error\<close> (an uncaught
  exception, undefined behaviour, leaving the process, blocking for ever) and the state it leaves.
  Code outside the repository is a parameter: the record \<open>libs\<close> (JSON values and texts,
  files, \<open>send\<close>, MySQL, indeterminate values), \<open>os\<close> (what starting the
  server finds) and \<open>net\<close> (what connection attempts find). What a property needs of
  them is a named hypothesis (\<open>json_objects\<close>, \<open>page_roundtrip\<close>,
  \<open>files_at\<close>, \<open>sends_all\<close>, \<open>notify_ok\<close>,
  \<open>notify_dead\<close>, \<open>bev_made\<close>, \<open>steady_class\<close>,
  \<open>answers_class\<close>, \<open>keeps_running\<close>, \<open>json_inserts\<close>,
  \<open>copies\<close>), and DemoLibs gives concrete instances for the witnesses.

  \<^bold>\<open>Theories and code.\<close>
  Prelude: errors, pointers, computations, invariants of step relations (locale
  \<open>invariant_system\<close>).
  CppString: \<open>find\<close>, \<open>rfind\<close>, \<open>substr\<close>, C strings,
  \<open>string_to_int\<close>, \<open>num_to_string\<close> (common/function.cpp 61-81).
  DataStructure: common/dataStructure.h.
  EventFlags, EventConfig, EventUtil, EventTime: libevent/include/event2/, the flags the program
  combines and tests (locale \<open>flag_family\<close>), the bundled configuration, and the integer
  types, limits, error codes and time macros of util.h that depend on it; EventNames: the
  enumerations, codes and flags of the other headers; EventStructs: their structures and the links
  of the queues these are kept in; EventMacros: their function-like macros, over the library's
  functions as parameters.
  Libraries: the parameters.
  Framing: \<open>send_package\<close>'s text and \<open>GetPackage\<close> (locale
  \<open>framing\<close>: what a decoder of an encoded stream promises).
  CWorker, Process: the sending and the receiving half of \<open>CWorker\<close>
  (common/function.cpp, .h); the two virtual methods are the record \<open>handlers\<close>, their
  contract the locale \<open>packet_handler\<close>. Receive, PageTransfer, Exchange: the loop as
  delivery of packages, messages and files in pages, and one side's sending with the other side's
  receiving, for every worker class.
  StdMap: \<open>std::map\<close> with its inserting \<open>operator[]\<close> (locale
  \<open>ordered_map\<close>).
  ServerWorker, ClientWorker: server/work.cpp and client/work.cpp; Preserve: what the handlers keep,
  the loop keeps for every input (locale \<open>state_handler\<close>, which extends
  \<open>packet_handler\<close>, and its case \<open>stable_handler\<close>), the dispatch tables
  first; Answers: a worker of the server makes \<open>send\<close> calls on its own socket only.
  DataHelper, StudentManager: Src/; Records: the statements an upload hands to the database.
  ReadLoop, ThreadPool: server/server.cpp, its start, end, callbacks and broadcasts; Dispatch: what
  starting and accepting do; NotifyProtocol: the accepting thread, the broadcasting thread and the
  workers interleaved (\<open>pool_step\<close>), with two invariants; Sessions: a third one, on the
  workers of the connections; Dispatcher: the pool's specification, a machine that hands connections
  out in turn, and the simulation (locale \<open>simulation\<close>); FairRuns: infinite runs of the
  pool; ClassNews: \<open>Give_A_Class\<close> and the reading of the class cut into the pieces
  other threads can come between (\<open>news_step\<close>, a finer relation than
  \<open>pool_step\<close>), NewsInvariant and NewsRuns: what a connection has been told in every
  such run; MapWalk: the walk of \<open>GetConnectDevice\<close> element by element; Broadcast: the
  start of a class from \<open>Give_A_Class\<close> to the client's worker; CatchUp, Admission: a
  worker thread's handling of all waiting notifications, and the way of one connection through the
  pool; FileCast: a file for every client, from \<open>SendFile\<close> on.
  EvtClient: client/client.cpp; ClientFacts: every sequence of calls, reads, events and timer ticks
  (\<open>client_step\<close>) keeps the client's invariant; ClientThreads: a caller that waits in
  \<open>waitCMDFinishFlag\<close>, the event loop and the timer task under any schedule; Requests,
  Download, Upload: a request, the server's handling of it and the client's wait for the answer,
  together.
  Programs: main.cpp (the exported query interface and the demonstrations) and clientMain.cpp.
  Platform: the Windows socket start-up, \<open>SendToClient\<close>, and the thread demonstration
  of main.cpp.
  WireProps (packages, messages, files), ServerProps (threads, dispatch), ClientProps, SessionProps
  (sessions, requests), PoolProps (the pool as a whole), CastProps, RequestProps (uploads, file
  lists), LifeProps (reconnecting, the end of a server), DataProps, EventProps and this theory: the
  properties, each with a witness where it has hypotheses.

  \<^bold>\<open>Interaction.\<close> A thread's \<open>data_map\<close> holds a worker per
  connection; \<open>conn_readcb\<close> gives the bytes of a connection to its worker's
  \<open>Process\<close>, which runs handlers that use \<open>StudentManager\<close> and send
  answers; \<open>listener_cb\<close> puts a connection into a thread's queue and sends it the byte
  \<open>c\<close>; broadcasts send \<open>a\<close> (class) or \<open>b\<close> (file). The
  client's requests clear a flag, send, and poll until a handler run by \<open>server_msg_cb\<close>
  raises it.

  \<^bold>\<open>Loops.\<close> \<open>Process\<close> runs with fuel of one round per buffered byte
  and one more; a package has at least fourteen bytes and a handler does not touch the buffer, so
  the fuel never runs out (\<open>server_Process_ends\<close>). \<open>walk_devices\<close> has fuel
  of one element per connection (\<open>walk_undisturbed\<close>). \<open>waitCMDFinishFlag\<close>
  may run for ever: \<open>None\<close>, or \<open>Blocked\<close> when no more input arrives. All
  other loops recurse on their data. Buffers are assumed shorter than 2 to the 31, beyond which the
  code's \<open>int\<close> positions wrap.

  \<^bold>\<open>What is shown.\<close> Packages whose content does not hold the marker TCPTAIL
  survive the wire under any cut into reads and after any noise, and other contents are cut at the
  marker; the receive loop refines delivery of packages and always ends; files without zero bytes,
  whose pages hold no marker, arrive with exactly their content; short messages run their command
  once, while messages of 1024 bytes or more are lost; connections are handed out round robin, no
  queue is popped empty, and no wake-up is lost when the notification bytes are accepted; every
  interleaving of the pool is a run of the dispatcher, so no connection is lost, opened twice or out
  of turn, and in every fair run each is opened in the end; a thread left to itself serves all that
  wait; in every interleaving a connection's bytes reach only its own worker, which answers on its
  own socket only; a started class and a broadcast file reach the clients, and however its
  announcement is interleaved, the clients agree with the server on the class in the end; a client
  that counts as connected is usable, and a lost connection comes back; requests return the server's
  answer, a fetched file arrives, and an upload is stored and recorded. Other properties state
  precisely where the code fails: bodies under four bytes, the marker in a content, zero bytes in
  input and in files, failed socket pairs, polling devices while a connection closes, requests whose
  connection is lost, refused connections, a server's end, long names, NULL columns.

  \<^bold>\<open>Not modelled.\<close> Console output and DBGPRINT; commented-out code and code
  under \<open>#if 0\<close>; the empty \<open>mainTest\<close> of serverMain.cpp and empty
  destructors; libevent's prototypes: their bodies are not in the repository, and the program's own
  use of them goes through the parameters above. Locks are modelled as the atomic pieces of
  \<open>pool_step\<close>; what the code does without a lock is cut finer: the walk of MapWalk, the
  class in ClassNews, the client's worker object in ClientThreads. A read or write of a single
  string or integer is still one step.
\<close>

text \<open>C3: a file without zero bytes crosses the wire. Conditions: the label has four bytes and sizes are
  below 2 to the 31; the client's socket takes everything; no page's JSON text holds the marker
   TCPTAIL, and every page's text is read back by the
  JSON parser; the description names a class and the file; files can be created and appended to
  under the upload directory; the server's worker has no unread bytes. Then, when the client sends
  the file and the server's worker reads what went over the socket, the server ends up with a file
  of exactly the same content under the upload directory, has until then sent nothing and left the
  database alone, and runs the file's command on the description with the stored path.\<close>

theorem file_arrives:
  assumes "sends_all Lc" and "m_bev cw = Some fd" and "length c < 2147483648" and "NUL \<notin> set c"
    and "StringToJson Lc strMsg = Some js0"
    and "json_str2 (json Lc) js0 FILE_DESCRIBE FILE_PATH = Some (js1, filePath)"
    and "w_fs cd (c_str filePath) = Some c"
    and "js_index (json Lc) js1 FILE_DESCRIBE = Some (js2, describe)"
    and "json Lc = json Ls" and "json_objects (json Ls) is_obj" and "is_obj describe"
    and "member_str (json Ls) describe FILE_CLASS cls" and "describes_name Ls describe name"
    and "files_at Ls (c_str (upload_path Ls cls name))"
    and "\<forall>i \<le> length c div 1024. page_roundtrip Ls describe (page_text c i)"
    and "\<forall>p \<in> set (file_pages Ls label describe c). wf_package p"
    and "length (concat (map package_string (file_pages Ls label describe c))) < 2147483648"
    and "m_strData w = []"
  shows "\<exists>cd' describe' dd'. SendFileTo Lc cw label strMsg cd = (Inr (), cd') \<and>
    js_put (json Ls) describe FILE_PATH (js_of_string (json Ls) (upload_path Ls cls name)) = Some describe' \<and>
    w_fs dd' (c_str (upload_path Ls cls name)) = Some c \<and> same_elsewhere dd dd' \<and>
    (\<forall>w' d'. server_excuteFile Ls label describe' (w, dd') = (Inr (), (w', d')) \<longrightarrow>
       Process Ls (server_handlers Ls) (wire fd (drop (length (w_sends cd)) (w_sends cd'))) (w, dd) =
         (Inr Drained, (w'\<lparr>m_strData := []\<rparr>, d')))"
proof -
  have pages: "file_pages Lc label describe c = file_pages Ls label describe c"
    by (rule file_pages_cong [OF assms(9)])
  have cong: "page_json Lc describe t = page_json Ls describe t" for t
    unfolding page_json_def assms(9) by simp
  have "SendFileTo Lc cw label strMsg cd =
      (Inr (), cd\<lparr>w_sends := w_sends cd @ map (sent fd) (file_pages Lc label describe c)\<rparr>)"
  proof (rule SendFileTo_all [OF assms(1-8)])
    fix i assume i: "i \<le> length c div 1024"
    show "page_json Lc describe (page_text c i) \<noteq> None"
      using assms(15) i by (auto simp: cong page_roundtrip_def split: option.splits)
    show "length (package_string (file_page_of Lc label describe c i)) < 2147483648"
      using i assms(17) pages by (intro file_page_short) simp_all
  qed
  then show ?thesis
    using srv.receive_file [OF assms(10-18), of dd] pages
    by (simp add: wire_sent server_handlers_def)
qed

theorem file_arrives_witness:
  "\<exists>cd' describe' dd'. SendFileTo page_libs sample_client ''CXWJ'' (demo_text sample_request) (demo_world [''/f'' \<mapsto> ''abc'']) =
      (Inr (), cd') \<and>
    js_put (json page_libs) sample_describe FILE_PATH
      (js_of_string (json page_libs) (upload_path page_libs ''c1'' ''k_zhang.abb'')) = Some describe' \<and>
    w_fs dd' (c_str (upload_path page_libs ''c1'' ''k_zhang.abb'')) = Some ''abc'' \<and>
    same_elsewhere sample_world dd' \<and>
    (\<forall>w' d'. server_excuteFile page_libs ''CXWJ'' describe' (sample_worker, dd') = (Inr (), (w', d')) \<longrightarrow>
       Process page_libs (server_handlers page_libs)
         (wire 5 (drop (length (w_sends (demo_world [''/f'' \<mapsto> ''abc'']))) (w_sends cd')))
         (sample_worker, sample_world) = (Inr Drained, (w'\<lparr>m_strData := []\<rparr>, d')))"
  by (rule file_arrives [OF _ _ _ _ sample_parse sample_path sample_contents sample_describes refl sample_objects
        sample_class sample_name sample_files sample_roundtrips sample_pages_wf])
     (simp_all add: page_libs_def NUL_def sample_pages_length [unfolded page_libs_def])

end
